theory Spec2Isabelle
  imports Complex_Main "HOL-Library.Word" "HOL-Library.Log_Nat"
begin

unbundle bit_operations_syntax

section \<open>Data model (types.ts, final variant)\<close>

text \<open>
  JavaScript numbers are modelled as \<^typ>\<open>real\<close> (rounding is not modelled); quantities
  that the program only ever holds as whole numbers (chunk coordinates, ammunition,
  score, gold) are \<^typ>\<open>int\<close>. An optional field is an \<^typ>\<open>'a option\<close>; the optional
  flag \<open>isDead\<close> is a \<^typ>\<open>bool\<close>, an absent flag being falsy. The obstacle kinds are
  those of the final variant, with the \<open>house\<close> of the earlier one.
\<close>

record vec3 =
  vx :: real
  vy :: real
  vz :: real

datatype EnemyType = Peasant | Knight | Heavy | Villager

datatype ObstacleType =
  Tree | Rock | Ruin | Mountain | Wall | Roof | ShopTable | Well | Signpost | House

record dims =
  dw :: real
  dd :: real
  dh :: real

record Obstacle =
  o_id :: string
  o_type :: ObstacleType
  o_position :: vec3
  o_rotation :: real
  o_scale :: vec3
  o_radius :: real
  o_dims :: "dims option"

record Enemy =
  e_id :: string
  e_type :: EnemyType
  e_position :: vec3
  hp :: real
  maxHp :: real
  speed :: real
  isAttacking :: bool
  isDead :: bool
  deadTime :: "real option"
  velocity :: "vec3 option"

record GameState =
  score :: int
  gold :: int
  health :: real
  wave :: int
  isPlaying :: bool
  ammo :: int
  damageMultiplier :: real

section \<open>Constants\<close>

definition FIRE_RATE :: real where "FIRE_RATE = 100"
definition MAX_AMMO :: int where "MAX_AMMO = 30"
definition CHUNK_SIZE :: real where "CHUNK_SIZE = 60"
definition RENDER_DISTANCE :: int where "RENDER_DISTANCE = 2"
definition WALL_HEIGHT :: real where "WALL_HEIGHT = 5"

record EnemyConfig =
  cfg_hp :: real
  cfg_speed :: real
  cfg_score :: int
  cfg_gold :: int
  cfg_scale :: real

fun ENEMY_CONFIG :: "EnemyType \<Rightarrow> EnemyConfig" where
  "ENEMY_CONFIG Peasant =
     \<lparr>cfg_hp = 40, cfg_speed = 7, cfg_score = 50, cfg_gold = 10, cfg_scale = 0.8\<rparr>"
| "ENEMY_CONFIG Knight =
     \<lparr>cfg_hp = 100, cfg_speed = 4, cfg_score = 100, cfg_gold = 25, cfg_scale = 1.0\<rparr>"
| "ENEMY_CONFIG Heavy =
     \<lparr>cfg_hp = 300, cfg_speed = 2.5, cfg_score = 300, cfg_gold = 100, cfg_scale = 1.4\<rparr>"
| "ENEMY_CONFIG Villager =
     \<lparr>cfg_hp = 30, cfg_speed = 5, cfg_score = - 100, cfg_gold = 0, cfg_scale = 0.8\<rparr>"

section \<open>Strings of numbers\<close>

text \<open>
  A template literal prints a whole number in decimal, with a leading minus sign when it
  is negative. That is the print of every whole number below \<open>10 ^ 21\<close> in magnitude;
  chunk coordinates are taken as whole numbers the program counts with exactly.
\<close>

definition digit_char :: "nat \<Rightarrow> char" where
  "digit_char n = char_of (48 + n)"

function show_nat :: "nat \<Rightarrow> string" where
  "show_nat n = (if n < 10 then [digit_char n] else show_nat (n div 10) @ [digit_char (n mod 10)])"
  by pat_completeness auto
termination
  by (relation "measure (\<lambda>n. n)") auto

declare show_nat.simps [simp del]

definition show_int :: "int \<Rightarrow> string" where
  "show_int i = (if i < 0 then CHR ''-'' # show_nat (nat (- i)) else show_nat (nat i))"

section \<open>Terrain and noise\<close>

text \<open>The remainder operator of JavaScript: the result takes the sign of the dividend.\<close>

definition js_rem :: "real \<Rightarrow> real \<Rightarrow> real" where
  "js_rem a b =
     a - b * (if a / b < 0 then of_int \<lceil>a / b\<rceil> else of_int \<lfloor>a / b\<rfloor>)"

definition Math_floor :: "real \<Rightarrow> real" where
  "Math_floor v = of_int \<lfloor>v\<rfloor>"

definition Math_atan2 :: "real \<Rightarrow> real \<Rightarrow> real" where
  "Math_atan2 b a =
     (if a > 0 then arctan (b / a)
      else if a < 0 \<and> b \<ge> 0 then arctan (b / a) + pi
      else if a < 0 then arctan (b / a) - pi
      else if b > 0 then pi / 2
      else if b < 0 then - (pi / 2)
      else 0)"

definition noise :: "real \<Rightarrow> real \<Rightarrow> real \<Rightarrow> real" where
  "noise xx zz seed =
     (let sn = sin (xx * 12.9898 + zz * 78.233 + js_rem seed 1000);
          s = sn * 43758.5453123
      in s - Math_floor s)"

definition smoothNoise :: "real \<Rightarrow> real \<Rightarrow> real \<Rightarrow> real" where
  "smoothNoise xx zz seed =
     (let i = Math_floor xx;
          j = Math_floor zz;
          f = xx - i;
          g = zz - j;
          a = noise i j seed;
          b = noise (i + 1) j seed;
          c = noise i (j + 1) seed;
          d = noise (i + 1) (j + 1) seed;
          u = f * f * f * (f * (f * 6 - 15) + 10);
          v = g * g * g * (g * (g * 6 - 15) + 10)
      in (1 - u) * (1 - v) * a + u * (1 - v) * b + (1 - u) * v * c + u * v * d)"

definition getRoadInfluence :: "real \<Rightarrow> real \<Rightarrow> real \<Rightarrow> real" where
  "getRoadInfluence xx zz seed =
     (let scale = 0.005;
          n = smoothNoise (xx * scale) (zz * scale) seed;
          dist = \<bar>n - 0.5\<bar>;
          roadWidth = 0.05
      in if dist < roadWidth then 1 else 0)"

definition getTerrainHeight :: "real \<Rightarrow> real \<Rightarrow> real \<Rightarrow> real" where
  "getTerrainHeight xx zz seed =
     (let amp = 10;
          freq = 0.02;
          y1 = 0 + smoothNoise (xx * freq) (zz * freq) seed * amp;
          y2 = y1 + smoothNoise (xx * freq * 2) (zz * freq * 2) seed * (amp / 2);
          height = \<bar>y2\<bar> powr 1.2;
          road = getRoadInfluence xx zz seed
      in if road > 0 then
           (let smoothBase = smoothNoise (xx * freq) (zz * freq) seed * amp
            in height * 0.1 + smoothBase * 0.9)
         else height)"

section \<open>Generation logic\<close>

definition seededRandom :: "real \<Rightarrow> real" where
  "seededRandom seed = (let v = sin seed * 10000 in v - Math_floor v)"

datatype BuildingType = Cottage | Tower | Market

definition unit_scale :: vec3 where
  "unit_scale = \<lparr>vx = 1, vy = 1, vz = 1\<rparr>"

text \<open>
  A wall of a tower or a cottage: its offset from the building's centre is turned by the
  building's rotation, and its own yaw is added to it.
\<close>

definition placed_wall ::
  "string \<Rightarrow> real \<Rightarrow> real \<Rightarrow> real \<Rightarrow> real \<Rightarrow> real \<Rightarrow> real \<times> real \<Rightarrow> real \<Rightarrow> dims \<Rightarrow> Obstacle" where
  "placed_wall ident xx zz yy h rotation pos rot dm =
     (let c = cos rotation;
          s = sin rotation;
          wx = xx + (fst pos * c - snd pos * s);
          wz = zz + (fst pos * s + snd pos * c)
      in \<lparr>o_id = ident, o_type = Wall,
          o_position = \<lparr>vx = wx, vy = yy + h / 2, vz = wz\<rparr>,
          o_rotation = rotation + rot, o_scale = unit_scale, o_radius = 1,
          o_dims = Some dm\<rparr>)"

definition market_pillar :: "string \<Rightarrow> real \<Rightarrow> real \<Rightarrow> real \<Rightarrow> int \<Rightarrow> int \<Rightarrow> Obstacle" where
  "market_pillar idPrefix xx zz yy ddx ddz =
     (let w = 6; d = 6; h = 4
      in \<lparr>o_id = idPrefix @ '':pillar:'' @ show_int ddx @ '':'' @ show_int ddz,
          o_type = Wall,
          o_position = \<lparr>vx = xx + of_int ddx * (w / 2.2), vy = yy + h / 2,
                        vz = zz + of_int ddz * (d / 2.2)\<rparr>,
          o_rotation = 0, o_scale = unit_scale, o_radius = 0.5,
          o_dims = Some \<lparr>dw = 0.5, dd = 0.5, dh = h\<rparr>\<rparr>)"

fun generateBuilding ::
  "BuildingType \<Rightarrow> real \<Rightarrow> real \<Rightarrow> real \<Rightarrow> real \<Rightarrow> string \<Rightarrow> Obstacle list" where
  "generateBuilding Market xx zz yy rotation idPrefix =
     (let w = 6; d = 6; h = 4
      in concat (map (\<lambda>ddx. map (\<lambda>ddz. market_pillar idPrefix xx zz yy ddx ddz) [- 1, 1])
                  [- 1, 1])
         @ [\<lparr>o_id = idPrefix @ '':roof'', o_type = Wall,
              o_position = \<lparr>vx = xx, vy = yy + h, vz = zz\<rparr>,
              o_rotation = 0, o_scale = unit_scale, o_radius = 0,
              o_dims = Some \<lparr>dw = w, dd = d, dh = 0.5\<rparr>\<rparr>,
            \<lparr>o_id = idPrefix @ '':shop'', o_type = ShopTable,
              o_position = \<lparr>vx = xx, vy = yy, vz = zz\<rparr>,
              o_rotation = rotation, o_scale = unit_scale, o_radius = 3,
              o_dims = None\<rparr>])"
| "generateBuilding Tower xx zz yy rotation idPrefix =
     (let w = 5; d = 5; h = 12;
          wallDefs =
            [((0, - d / 2), 0, \<lparr>dw = w, dd = 1, dh = h\<rparr>),
             ((0, d / 2), 0, \<lparr>dw = w, dd = 1, dh = h\<rparr>),
             ((- w / 2, 0), pi / 2, \<lparr>dw = d, dd = 1, dh = h\<rparr>),
             ((w / 2, 0), pi / 2, \<lparr>dw = d, dd = 1, dh = h\<rparr>)]
      in map (\<lambda>(i, (pos, rot, dm)).
                placed_wall (idPrefix @ '':wall:'' @ show_nat i) xx zz yy h rotation pos rot dm)
           (enumerate 0 wallDefs)
         @ [\<lparr>o_id = idPrefix @ '':roof'', o_type = Roof,
              o_position = \<lparr>vx = xx, vy = yy + h, vz = zz\<rparr>,
              o_rotation = rotation, o_scale = \<lparr>vx = w + 2, vy = 6, vz = d + 2\<rparr>,
              o_radius = 0, o_dims = None\<rparr>])"
| "generateBuilding Cottage xx zz yy rotation idPrefix =
     (let width = 8; depth = 8; h = WALL_HEIGHT;
          walls =
            [(''back'', width, (0, - depth / 2), 0),
             (''left'', depth, (- width / 2, 0), pi / 2),
             (''right'', depth, (width / 2, 0), pi / 2)];
          doorGap = 3;
          frontWallW = (width - doorGap) / 2;
          fOffset = depth / 2;
          flX = xx + (- frontWallW / 2 - doorGap / 2) * cos rotation - fOffset * sin rotation;
          flZ = zz + (- frontWallW / 2 - doorGap / 2) * sin rotation + fOffset * cos rotation;
          frX = xx + (frontWallW / 2 + doorGap / 2) * cos rotation - fOffset * sin rotation;
          frZ = zz + (frontWallW / 2 + doorGap / 2) * sin rotation + fOffset * cos rotation
      in map (\<lambda>(ty, ww, pos, rot).
                placed_wall (idPrefix @ '':wall:'' @ ty) xx zz yy h rotation pos rot
                  \<lparr>dw = ww, dd = 1, dh = h\<rparr>)
           walls
         @ [\<lparr>o_id = idPrefix @ '':wall:fl'', o_type = Wall,
              o_position = \<lparr>vx = flX, vy = yy + h / 2, vz = flZ\<rparr>,
              o_rotation = rotation, o_scale = unit_scale, o_radius = 1,
              o_dims = Some \<lparr>dw = frontWallW, dd = 1, dh = h\<rparr>\<rparr>,
            \<lparr>o_id = idPrefix @ '':wall:fr'', o_type = Wall,
              o_position = \<lparr>vx = frX, vy = yy + h / 2, vz = frZ\<rparr>,
              o_rotation = rotation, o_scale = unit_scale, o_radius = 1,
              o_dims = Some \<lparr>dw = frontWallW, dd = 1, dh = h\<rparr>\<rparr>,
            \<lparr>o_id = idPrefix @ '':roof'', o_type = Roof,
              o_position = \<lparr>vx = xx, vy = yy + h, vz = zz\<rparr>,
              o_rotation = rotation, o_scale = \<lparr>vx = width + 1, vy = 4, vz = depth + 1\<rparr>,
              o_radius = 0, o_dims = None\<rparr>])"

text \<open>
  The chunk seed. Each product is a product of numbers: the exact product of the two
  whole numbers is rounded to the nearest number with a significand of 53 bits, ties to
  the even one (\<open>round_double\<close>; a whole number below \<open>2 ^ 53\<close> in magnitude is kept as it
  is). The bitwise exclusive-or then works on the operands converted to 32-bit integers,
  and its result is a signed 32-bit integer.
\<close>

definition round_double :: "int \<Rightarrow> int" where
  "round_double n =
     (let a = \<bar>n\<bar>
      in if a < 2 ^ 53 then n
         else
           (let e = nat (bitlen a) - 53;
                q = a div 2 ^ e;
                r = a mod 2 ^ e;
                q' = (if 2 * r > 2 ^ e \<or> (2 * r = 2 ^ e \<and> odd q) then q + 1 else q)
            in sgn n * (q' * 2 ^ e)))"

definition chunkSeed_of :: "int \<Rightarrow> int \<Rightarrow> real \<Rightarrow> int" where
  "chunkSeed_of chunkX chunkZ worldSeed =
     sint ((word_of_int (round_double (chunkX * 73856093))
            XOR word_of_int (round_double (chunkZ * 19349663))
            XOR word_of_int \<lfloor>worldSeed\<rfloor>) :: 32 word)"

definition getRand :: "int \<Rightarrow> int \<Rightarrow> real" where
  "getRand chunkSeed offset = seededRandom (of_int (chunkSeed + offset))"

definition chunk_prefix :: "int \<Rightarrow> int \<Rightarrow> string" where
  "chunk_prefix chunkX chunkZ = show_int chunkX @ '':'' @ show_int chunkZ"

definition village_house ::
  "int \<Rightarrow> int \<Rightarrow> real \<Rightarrow> int \<Rightarrow> real \<Rightarrow> real \<Rightarrow> nat \<Rightarrow> nat \<Rightarrow> Obstacle list" where
  "village_house chunkX chunkZ worldSeed chunkSeed centerX centerZ houseCount i =
     (let radius = 15;
          angle = (pi * 2 * of_nat i) / of_nat houseCount + getRand chunkSeed (int i) * 0.5;
          dist = radius + getRand chunkSeed (int i + 50) * 10;
          hx = centerX + cos angle * dist;
          hz = centerZ + sin angle * dist
      in if getRoadInfluence hx hz worldSeed > 0 then []
         else
           (let yy = getTerrainHeight hx hz worldSeed;
                rot = Math_atan2 (centerZ - hz) (centerX - hx);
                bType = (if getRand chunkSeed (int i * 99) > 0.7 then Tower else Cottage)
            in generateBuilding bType hx hz yy rot
                 (chunk_prefix chunkX chunkZ @ '':b'' @ show_nat i)))"

definition chunk_tree ::
  "int \<Rightarrow> int \<Rightarrow> real \<Rightarrow> int \<Rightarrow> real \<Rightarrow> real \<Rightarrow> nat \<Rightarrow> Obstacle list" where
  "chunk_tree chunkX chunkZ worldSeed chunkSeed worldX worldZ i =
     (let lx = getRand chunkSeed (int i * 10) * CHUNK_SIZE - (CHUNK_SIZE / 2);
          lz = getRand chunkSeed (int i * 10 + 1) * CHUNK_SIZE - (CHUNK_SIZE / 2);
          wx = worldX + lx + CHUNK_SIZE / 2;
          wz = worldZ + lz + CHUNK_SIZE / 2
      in if getRoadInfluence wx wz worldSeed > 0 then []
         else
           (let yy = getTerrainHeight wx wz worldSeed
            in [\<lparr>o_id = chunk_prefix chunkX chunkZ @ '':tree:'' @ show_nat i,
                  o_type = Tree,
                  o_position = \<lparr>vx = wx, vy = yy, vz = wz\<rparr>,
                  o_rotation = getRand chunkSeed (int i * 10 + 2) * pi,
                  o_scale = \<lparr>vx = 1 + getRand chunkSeed (int i) * 0.5,
                             vy = 1 + getRand chunkSeed (int i + 5),
                             vz = 1 + getRand chunkSeed (int i) * 0.5\<rparr>,
                  o_radius = 1, o_dims = None\<rparr>]))"

definition generateChunk :: "int \<Rightarrow> int \<Rightarrow> real \<Rightarrow> Obstacle list" where
  "generateChunk chunkX chunkZ worldSeed =
     (let chunkSeed = chunkSeed_of chunkX chunkZ worldSeed;
          worldX = of_int chunkX * CHUNK_SIZE;
          worldZ = of_int chunkZ * CHUNK_SIZE;
          centerX = worldX + CHUNK_SIZE / 2;
          centerZ = worldZ + CHUNK_SIZE / 2;
          centerRoadInf = getRoadInfluence centerX centerZ worldSeed;
          villageChance = (if centerRoadInf > 0 then 0.6 else 0.96);
          isVillage = (getRand chunkSeed 999 > villageChance);
          village =
            (if isVillage then
               (let cy = getTerrainHeight centerX centerZ worldSeed;
                    market =
                      (if getRoadInfluence centerX centerZ worldSeed = 0
                       then generateBuilding Market centerX centerZ cy 0
                              (chunk_prefix chunkX chunkZ @ '':market'')
                       else []);
                    houseCount = nat (3 + \<lfloor>getRand chunkSeed 888 * 3\<rfloor>);
                    houses =
                      concat (map (village_house chunkX chunkZ worldSeed chunkSeed
                                     centerX centerZ houseCount) [0..<houseCount]);
                    well =
                      (if getRand chunkSeed 50 > 0.5 then
                         (let wx = centerX + 5;
                              wz = centerZ + 5;
                              wy = getTerrainHeight wx wz worldSeed
                          in [\<lparr>o_id = chunk_prefix chunkX chunkZ @ '':well'',
                                o_type = Well,
                                o_position = \<lparr>vx = wx, vy = wy, vz = wz\<rparr>,
                                o_rotation = 0, o_scale = unit_scale, o_radius = 2,
                                o_dims = None\<rparr>])
                       else [])
                in market @ houses @ well)
             else []);
          treeCount = (if isVillage then 2 else nat (\<lfloor>getRand chunkSeed 1 * 10\<rfloor> + 2))
      in village
         @ concat (map (chunk_tree chunkX chunkZ worldSeed chunkSeed worldX worldZ)
                     [0..<treeCount]))"

section \<open>Physics and collision\<close>

text \<open>
  \<open>checkCollision\<close> scans the obstacle list in order and returns at the first obstacle
  that blocks. An obstacle further than 15 units on either axis is skipped; a wall with
  \<open>dims\<close> is tested as an oriented box; anything else is tested as a circle, and only
  when its radius is positive.
\<close>

fun checkCollision :: "vec3 \<Rightarrow> Obstacle list \<Rightarrow> real \<Rightarrow> bool" where
  "checkCollision position [] radius = False"
| "checkCollision position (obs # rest) radius =
     (let dx = vx position - vx (o_position obs);
          dz = vz position - vz (o_position obs)
      in if \<bar>dx\<bar> > 15 \<or> \<bar>dz\<bar> > 15 then checkCollision position rest radius
         else (case (if o_type obs = Wall then o_dims obs else None) of
            Some dm \<Rightarrow>
              (let c = cos (- o_rotation obs);
                   s = sin (- o_rotation obs);
                   localX = dx * c - dz * s;
                   localZ = dx * s + dz * c;
                   halfW = (dw dm / 2) + radius;
                   halfD = (dd dm / 2) + radius
               in if \<bar>localX\<bar> < halfW \<and> \<bar>localZ\<bar> < halfD then True
                  else checkCollision position rest radius)
          | None \<Rightarrow>
              (if o_radius obs > 0 then
                 (let distSq = dx * dx + dz * dz;
                      minDist = o_radius obs + radius
                  in if distSq < minDist * minDist then True
                     else checkCollision position rest radius)
               else checkCollision position rest radius)))"

subsection \<open>The collision test as the specification words it\<close>

text \<open>
  The footprint of an obstacle, as the specification describes it: walls that carry
  \<open>dims\<close> have an oriented rectangular footprint, other obstacles a circular one of
  their (positive) radius, and an obstacle with neither has no footprint.
\<close>

datatype footprint = OrientedBox real real | Circle real | NoFootprint

definition footprint_of :: "Obstacle \<Rightarrow> footprint" where
  "footprint_of obs =
     (case (if o_type obs = Wall then o_dims obs else None) of
        Some dm \<Rightarrow> OrientedBox (dw dm) (dd dm)
      | None \<Rightarrow> if o_radius obs > 0 then Circle (o_radius obs) else NoFootprint)"

text \<open>The planar offset of the point from the obstacle, turned back by the yaw.\<close>

definition inverse_rotate :: "real \<Rightarrow> real \<times> real \<Rightarrow> real \<times> real" where
  "inverse_rotate yaw d =
     (fst d * cos yaw + snd d * sin yaw, snd d * cos yaw - fst d * sin yaw)"

definition planar_offset :: "vec3 \<Rightarrow> Obstacle \<Rightarrow> real \<times> real" where
  "planar_offset p obs = (vx p - vx (o_position obs), vz p - vz (o_position obs))"

definition beyond_cutoff :: "vec3 \<Rightarrow> Obstacle \<Rightarrow> bool" where
  "beyond_cutoff p obs =
     (\<bar>fst (planar_offset p obs)\<bar> > 15 \<or> \<bar>snd (planar_offset p obs)\<bar> > 15)"

definition footprint_hit :: "vec3 \<Rightarrow> real \<Rightarrow> Obstacle \<Rightarrow> bool" where
  "footprint_hit p r obs =
     (case footprint_of obs of
        OrientedBox w d \<Rightarrow>
          \<bar>fst (inverse_rotate (o_rotation obs) (planar_offset p obs))\<bar> < w / 2 + r \<and>
          \<bar>snd (inverse_rotate (o_rotation obs) (planar_offset p obs))\<bar> < d / 2 + r
      | Circle R \<Rightarrow>
          (fst (planar_offset p obs))\<^sup>2 + (snd (planar_offset p obs))\<^sup>2 < (R + r)\<^sup>2
      | NoFootprint \<Rightarrow> False)"

definition blocked_by :: "vec3 \<Rightarrow> real \<Rightarrow> Obstacle \<Rightarrow> bool" where
  "blocked_by p r obs = (\<not> beyond_cutoff p obs \<and> footprint_hit p r obs)"

section \<open>Vectors and rays of the scene-graph library\<close>

text \<open>
  The vector and ray operations the controller calls, with the library's meaning:
  \<open>normalize\<close> leaves the zero vector alone, and the distance of a point to a ray is
  the distance to the ray's origin when the point lies behind it.
\<close>

definition v_add :: "vec3 \<Rightarrow> vec3 \<Rightarrow> vec3" where
  "v_add a b = \<lparr>vx = vx a + vx b, vy = vy a + vy b, vz = vz a + vz b\<rparr>"

definition v_sub :: "vec3 \<Rightarrow> vec3 \<Rightarrow> vec3" where
  "v_sub a b = \<lparr>vx = vx a - vx b, vy = vy a - vy b, vz = vz a - vz b\<rparr>"

definition multiplyScalar :: "vec3 \<Rightarrow> real \<Rightarrow> vec3" where
  "multiplyScalar a k = \<lparr>vx = vx a * k, vy = vy a * k, vz = vz a * k\<rparr>"

definition v_dot :: "vec3 \<Rightarrow> vec3 \<Rightarrow> real" where
  "v_dot a b = vx a * vx b + vy a * vy b + vz a * vz b"

definition v_length :: "vec3 \<Rightarrow> real" where
  "v_length a = sqrt (v_dot a a)"

definition normalize :: "vec3 \<Rightarrow> vec3" where
  "normalize a = (let l = v_length a in multiplyScalar a (1 / (if l = 0 then 1 else l)))"

definition distanceToSquared :: "vec3 \<Rightarrow> vec3 \<Rightarrow> real" where
  "distanceToSquared a b = v_dot (v_sub a b) (v_sub a b)"

definition distanceTo :: "vec3 \<Rightarrow> vec3 \<Rightarrow> real" where
  "distanceTo a b = sqrt (distanceToSquared a b)"

record ray =
  origin :: vec3
  direction :: vec3

definition ray_at :: "ray \<Rightarrow> real \<Rightarrow> vec3" where
  "ray_at r t = v_add (origin r) (multiplyScalar (direction r) t)"

definition distanceSqToPoint :: "ray \<Rightarrow> vec3 \<Rightarrow> real" where
  "distanceSqToPoint r point =
     (let directionDistance = v_dot (v_sub point (origin r)) (direction r)
      in if directionDistance < 0 then distanceToSquared (origin r) point
         else distanceToSquared (ray_at r directionDistance) point)"

text \<open>
  The camera as the controller reads it. \<open>cam_position\<close> is \<open>camera.position\<close>, which
  the frame's movement step has just written. The ray of the library's
  \<open>setFromCamera\<close> is not taken from it: its origin is the position held by the camera's
  world matrix and its direction the view direction of that matrix, and the world matrix
  is refreshed only when the scene is rendered, after the frame. So \<open>cam_origin\<close> and
  \<open>cam_direction\<close> are the pose of the camera as it was last rendered.
\<close>

record camera =
  cam_position :: vec3
  cam_origin :: vec3
  cam_direction :: vec3

definition setFromCamera :: "camera \<Rightarrow> ray" where
  "setFromCamera cam = \<lparr>origin = cam_origin cam, direction = cam_direction cam\<rparr>"

section \<open>Combat resolution: the hitscan\<close>

text \<open>
  The first pass over the actors keeps, in three variables of the enclosing scope, the
  best candidate so far: its camera distance (starting at 100), its id and the point hit.
\<close>

record scan =
  minDist :: real
  hitId :: "string option"
  hitPoint :: vec3

definition torso :: "real \<Rightarrow> Enemy \<Rightarrow> vec3" where
  "torso seed e =
     (let config = ENEMY_CONFIG (e_type e);
          yy = getTerrainHeight (vx (e_position e)) (vz (e_position e)) seed
               + (0.9 * cfg_scale config)
      in \<lparr>vx = vx (e_position e), vy = yy, vz = vz (e_position e)\<rparr>)"

definition scan_enemy :: "real \<Rightarrow> camera \<Rightarrow> scan \<Rightarrow> Enemy \<Rightarrow> scan" where
  "scan_enemy seed cam st e =
     (if isDead e then st
      else
        (let config = ENEMY_CONFIG (e_type e);
             ePos = torso seed e;
             hitboxSize = 2.0 * cfg_scale config;
             distToRay = distanceSqToPoint (setFromCamera cam) ePos
         in if distToRay < hitboxSize * hitboxSize then
              (let distToCam = distanceTo (cam_position cam) ePos
               in if distToCam < minDist st
                  then \<lparr>minDist = distToCam, hitId = Some (e_id e), hitPoint = ePos\<rparr>
                  else st)
            else st))"

definition scan_start :: "camera \<Rightarrow> scan" where
  "scan_start cam =
     \<lparr>minDist = 100, hitId = None, hitPoint = ray_at (setFromCamera cam) 100\<rparr>"

definition scan_all :: "real \<Rightarrow> camera \<Rightarrow> Enemy list \<Rightarrow> scan" where
  "scan_all seed cam prev = foldl (scan_enemy seed cam) (scan_start cam) prev"

text \<open>The second pass: every actor whose id is the recorded one takes the damage.\<close>

definition launch_velocity :: "camera \<Rightarrow> vec3" where
  "launch_velocity cam =
     v_add (multiplyScalar (normalize (direction (setFromCamera cam))) 8)
       \<lparr>vx = 0, vy = 4, vz = 0\<rparr>"

definition apply_hit :: "string option \<Rightarrow> real \<Rightarrow> real \<Rightarrow> camera \<Rightarrow> Enemy \<Rightarrow> Enemy" where
  "apply_hit hid mult time cam e =
     (if Some (e_id e) = hid then
        (let newHp = hp e - (35 * mult)
         in if newHp \<le> 0
            then e\<lparr>hp := 0, isDead := True, deadTime := Some time,
                   velocity := Some (launch_velocity cam)\<rparr>
            else e\<lparr>hp := newHp\<rparr>)
      else e)"

definition nextEnemies :: "real \<Rightarrow> camera \<Rightarrow> real \<Rightarrow> real \<Rightarrow> Enemy list \<Rightarrow> Enemy list" where
  "nextEnemies seed cam mult time prev =
     map (apply_hit (hitId (scan_all seed cam prev)) mult time cam) prev"

text \<open>
  The reward: paid when an id was recorded (and is a non-empty string), the first actor
  of the old list with that id had health left, and the first actor of the new list with
  that id has none.
\<close>

definition truthy_id :: "string option \<Rightarrow> bool" where
  "truthy_id hid = (case hid of None \<Rightarrow> False | Some i \<Rightarrow> i \<noteq> [])"

definition kill_reward ::
  "real \<Rightarrow> camera \<Rightarrow> real \<Rightarrow> real \<Rightarrow> Enemy list \<Rightarrow> EnemyConfig option" where
  "kill_reward seed cam mult time prev =
     (let hid = hitId (scan_all seed cam prev)
      in if truthy_id hid then
           (case find (\<lambda>e. Some (e_id e) = hid) prev of
              None \<Rightarrow> None
            | Some hitEnemy \<Rightarrow>
                (case find (\<lambda>e. Some (e_id e) = hid) (nextEnemies seed cam mult time prev) of
                   None \<Rightarrow> None
                 | Some after \<Rightarrow>
                     if hp hitEnemy > 0 \<and> hp after = 0
                     then Some (ENEMY_CONFIG (e_type hitEnemy)) else None))
         else None)"

section \<open>Actor simulation: the per-frame update\<close>

definition planar :: "vec3 \<Rightarrow> vec3" where
  "planar p = \<lparr>vx = vx p, vy = 0, vz = vz p\<rparr>"

definition grounded :: "real \<Rightarrow> vec3 \<Rightarrow> vec3" where
  "grounded seed ePos =
     \<lparr>vx = vx ePos, vy = getTerrainHeight (vx ePos) (vz ePos) seed, vz = vz ePos\<rparr>"

text \<open>
  One actor's update, with the damage it adds to the frame's running total. A dead actor
  and an actor further than 50 units are returned as they are.
\<close>

definition ai_enemy ::
  "real \<Rightarrow> vec3 \<Rightarrow> real \<Rightarrow> Obstacle list \<Rightarrow> Enemy \<Rightarrow> Enemy \<times> real" where
  "ai_enemy seed campos delta obstacles e =
     (if isDead e then (e, 0)
      else
        (let pPos = planar campos;
             ePos = planar (e_position e);
             dist = distanceTo pPos ePos
         in if dist > 50 then (e, 0)
            else if e_type e = Villager then
              (let ePos' =
                 (if dist < 15
                  then v_add ePos (multiplyScalar (normalize (v_sub ePos pPos)) (speed e * delta))
                  else ePos)
               in (e\<lparr>e_position := grounded seed ePos'\<rparr>, 0))
            else if dist < 1.5 then
              (e\<lparr>isAttacking := True, e_position := grounded seed ePos\<rparr>, 0.2)
            else
              (let dir = normalize (v_sub pPos ePos);
                   nextPos = v_add ePos (multiplyScalar dir (speed e * delta));
                   ePos' =
                     (if \<not> checkCollision nextPos obstacles 0.2 then nextPos
                      else
                        (let sideStep = v_add nextPos \<lparr>vx = 1, vy = 0, vz = 0\<rparr>
                         in if \<not> checkCollision sideStep obstacles 0.2 then sideStep
                            else ePos))
               in (e\<lparr>isAttacking := False, e_position := grounded seed ePos'\<rparr>, 0))))"

definition still_listed :: "real \<Rightarrow> Enemy \<Rightarrow> bool" where
  "still_listed time e =
     (\<not> isDead e \<or> time - (case deadTime e of None \<Rightarrow> 0 | Some t \<Rightarrow> t) < 3000)"

definition ai_next :: "real \<Rightarrow> vec3 \<Rightarrow> real \<Rightarrow> real \<Rightarrow> Obstacle list \<Rightarrow> Enemy list \<Rightarrow> Enemy list" where
  "ai_next seed campos delta time obstacles prev =
     filter (still_listed time) (map (\<lambda>e. fst (ai_enemy seed campos delta obstacles e)) prev)"

definition damageDealt :: "real \<Rightarrow> vec3 \<Rightarrow> real \<Rightarrow> Obstacle list \<Rightarrow> Enemy list \<Rightarrow> real" where
  "damageDealt seed campos delta obstacles prev =
     sum_list (map (\<lambda>e. snd (ai_enemy seed campos delta obstacles e)) prev)"

definition take_damage :: "real \<Rightarrow> GameState \<Rightarrow> GameState" where
  "take_damage dmg g =
     (if dmg > 0 then
        (let nh = max 0 (health g - dmg)
         in if nh = 0 \<and> isPlaying g then g\<lparr>health := 0, isPlaying := False\<rparr>
            else g\<lparr>health := nh\<rparr>)
      else g)"

section \<open>The game controller\<close>

text \<open>
  The state the controller works on: the world seed and the game state it is given, the
  actor list, the two timestamps it keeps between frames, and the audio cues it has
  emitted so far, oldest first. A state update is taken as applied at once, in program
  order, and the closure of a frame as holding the current game state.
\<close>

datatype Cue = CueShoot | CueReload | CueEmpty | CueBuy | CueHit

record Sim =
  seed :: real
  gameState :: GameState
  enemies :: "Enemy list"
  lastShot :: real
  lastSpawn :: real
  cues :: "Cue list"

definition ENEMY_SPAWN_RATE :: real where "ENEMY_SPAWN_RATE = 2000"

text \<open>
  \<open>reload\<close> tests the ammunition of the game state its closure holds (\<open>seen\<close>), and sets
  the ammunition of the current state. There is no timer in it.
\<close>

definition reload :: "GameState \<Rightarrow> Sim \<Rightarrow> Sim" where
  "reload seen s =
     (if ammo seen < MAX_AMMO
      then s\<lparr>gameState := (gameState s)\<lparr>ammo := MAX_AMMO\<rparr>, cues := cues s @ [CueReload]\<rparr>
      else s)"

text \<open>The three messages the shop can show; each names one purchase.\<close>

datatype ShopMessage = UpgradeDmg | BuyHealth | BuyAmmo

definition handleShopAction :: "ShopMessage \<Rightarrow> Sim \<Rightarrow> Sim" where
  "handleShopAction shopMessage s =
     (let prev = gameState s
      in if shopMessage = BuyAmmo \<and> gold prev \<ge> 50
         then s\<lparr>gameState := prev\<lparr>gold := gold prev - 50, ammo := MAX_AMMO\<rparr>,
                cues := cues s @ [CueBuy]\<rparr>
         else if shopMessage = BuyHealth \<and> gold prev \<ge> 100
         then s\<lparr>gameState := prev\<lparr>gold := gold prev - 100, health := 100\<rparr>,
                cues := cues s @ [CueBuy]\<rparr>
         else if shopMessage = UpgradeDmg \<and> gold prev \<ge> 500
         then s\<lparr>gameState := prev\<lparr>gold := gold prev - 500,
                                      damageMultiplier := damageMultiplier prev + 0.5\<rparr>,
                cues := cues s @ [CueBuy]\<rparr>
         else s\<lparr>cues := cues s @ [CueEmpty]\<rparr>)"

text \<open>
  What one frame reads from outside the controller: the clock, the mouse button, the
  camera after the movement step, the obstacle list, and the four random draws of a
  spawn (the last one already printed as the new actor's id).
\<close>

record FrameInput =
  f_time :: real
  f_delta :: real
  f_mouseDown :: bool
  f_camera :: camera
  f_obstacles :: "Obstacle list"
  f_rand_angle :: real
  f_rand_dist :: real
  f_rand_type :: real
  f_rand_id :: string

definition award :: "EnemyConfig option \<Rightarrow> GameState \<Rightarrow> GameState" where
  "award r g =
     (case r of None \<Rightarrow> g
      | Some cfg \<Rightarrow> g\<lparr>score := score g + cfg_score cfg, gold := gold g + cfg_gold cfg\<rparr>)"

text \<open>
  The shooting logic of a frame. The fire attempt is the outer condition; with
  ammunition it fires and resolves the hitscan, without it it plays the empty cue and
  calls \<open>reload\<close>.
\<close>

definition shooting :: "FrameInput \<Rightarrow> Sim \<Rightarrow> Sim" where
  "shooting inp s =
     (if f_mouseDown inp \<and> f_time inp - lastShot s > FIRE_RATE then
        (if ammo (gameState s) > 0 then
           (let g1 = (gameState s)\<lparr>ammo := ammo (gameState s) - 1\<rparr>;
                mult = damageMultiplier (gameState s);
                prev = enemies s;
                hid = hitId (scan_all (seed s) (f_camera inp) prev);
                g2 = award (kill_reward (seed s) (f_camera inp) mult (f_time inp) prev) g1
            in s\<lparr>lastShot := f_time inp,
                 gameState := g2,
                 enemies := nextEnemies (seed s) (f_camera inp) mult (f_time inp) prev,
                 cues := cues s @ [CueShoot] @ (if truthy_id hid then [CueHit] else [])\<rparr>)
         else
           (let s1 = s\<lparr>cues := cues s @ [CueEmpty]\<rparr>
            in if ammo (gameState s) = 0 then reload (gameState s) s1 else s1))
      else s)"

definition spawn_type :: "real \<Rightarrow> EnemyType" where
  "spawn_type rand =
     (if rand < 0.2 then Villager
      else if rand > 0.8 then Heavy
      else if rand < 0.4 then Peasant
      else Knight)"

definition spawned :: "real \<Rightarrow> FrameInput \<Rightarrow> Enemy" where
  "spawned sd inp =
     (let angle = f_rand_angle inp * pi * 2;
          dist = 30 + f_rand_dist inp * 20;
          ex = vx (cam_position (f_camera inp)) + cos angle * dist;
          ez = vz (cam_position (f_camera inp)) + sin angle * dist;
          ey = getTerrainHeight ex ez sd;
          ty = spawn_type (f_rand_type inp);
          cfg = ENEMY_CONFIG ty
      in \<lparr>e_id = f_rand_id inp, e_type = ty,
          e_position = \<lparr>vx = ex, vy = ey, vz = ez\<rparr>,
          hp = cfg_hp cfg, maxHp = cfg_hp cfg, speed = cfg_speed cfg,
          isAttacking = False, isDead = False, deadTime = None, velocity = None\<rparr>)"

definition spawning :: "FrameInput \<Rightarrow> Sim \<Rightarrow> Sim" where
  "spawning inp s =
     (if f_time inp - lastSpawn s > ENEMY_SPAWN_RATE
      then s\<lparr>lastSpawn := f_time inp, enemies := enemies s @ [spawned (seed s) inp]\<rparr>
      else s)"

definition enemy_logic :: "FrameInput \<Rightarrow> Sim \<Rightarrow> Sim" where
  "enemy_logic inp s =
     (let campos = cam_position (f_camera inp);
          prev = enemies s
      in s\<lparr>enemies :=
             ai_next (seed s) campos (f_delta inp) (f_time inp) (f_obstacles inp) prev,
           gameState :=
             take_damage (damageDealt (seed s) campos (f_delta inp) (f_obstacles inp) prev)
               (gameState s)\<rparr>)"

definition frame :: "FrameInput \<Rightarrow> Sim \<Rightarrow> Sim" where
  "frame inp s = enemy_logic inp (spawning inp (shooting inp s))"

text \<open>
  What can happen to the controller: a frame, the reload key (whose handler may hold an
  older game state than the current one), the shop key, and the start of a game with a
  freshly drawn seed. The controller exists only while a game is being played, and the
  start button only while none is.
\<close>

datatype Event =
  Frame FrameInput
| ReloadKey GameState
| ShopKey ShopMessage
| StartGame real

definition fresh_game :: GameState where
  "fresh_game =
     \<lparr>score = 0, gold = 0, health = 100, wave = 1, isPlaying = True,
      ammo = MAX_AMMO, damageMultiplier = 1\<rparr>"

definition initial :: Sim where
  "initial =
     \<lparr>seed = 123, gameState = fresh_game\<lparr>isPlaying := False\<rparr>,
      enemies = [], lastShot = 0, lastSpawn = 0, cues = []\<rparr>"

definition startGame :: "real \<Rightarrow> Sim \<Rightarrow> Sim" where
  "startGame newSeed s =
     \<lparr>seed = newSeed, gameState = fresh_game,
      enemies = [], lastShot = 0, lastSpawn = 0, cues = cues s\<rparr>"

fun step :: "Sim \<Rightarrow> Event \<Rightarrow> Sim" where
  "step s (Frame inp) = (if isPlaying (gameState s) then frame inp s else s)"
| "step s (ReloadKey seen) = (if isPlaying (gameState s) then reload seen s else s)"
| "step s (ShopKey m) = (if isPlaying (gameState s) then handleShopAction m s else s)"
| "step s (StartGame newSeed) = (if isPlaying (gameState s) then s else startGame newSeed s)"

definition run :: "Event list \<Rightarrow> Sim" where
  "run evs = foldl step initial evs"

section \<open>The hitscan as the specification words it\<close>

text \<open>
  An actor qualifies for a shot when it is not dead and the squared distance of its
  torso point to the ray is below the square of its hit radius (twice its scale). Its
  camera distance is the distance of that point to the camera. The shot reaches 100
  units: an actor is in range when it qualifies at a camera distance below 100.
  \<open>scan_post\<close> is what the first pass has established after the actors \<open>xs\<close>.
\<close>

definition qualifies :: "real \<Rightarrow> camera \<Rightarrow> Enemy \<Rightarrow> bool" where
  "qualifies sd cam e =
     (\<not> isDead e \<and>
      distanceSqToPoint (setFromCamera cam) (torso sd e)
        < (2 * cfg_scale (ENEMY_CONFIG (e_type e)))\<^sup>2)"

definition camera_distance :: "real \<Rightarrow> camera \<Rightarrow> Enemy \<Rightarrow> real" where
  "camera_distance sd cam e = distanceTo (cam_position cam) (torso sd e)"

definition in_range :: "real \<Rightarrow> camera \<Rightarrow> Enemy \<Rightarrow> bool" where
  "in_range sd cam e = (qualifies sd cam e \<and> camera_distance sd cam e < 100)"

definition scan_post :: "real \<Rightarrow> camera \<Rightarrow> scan \<Rightarrow> Enemy list \<Rightarrow> scan \<Rightarrow> bool" where
  "scan_post sd cam st0 xs st =
     (minDist st \<le> minDist st0
      \<and> (\<forall>e \<in> set xs. qualifies sd cam e \<longrightarrow> minDist st \<le> camera_distance sd cam e)
      \<and> ((st = st0
           \<and> (\<forall>e \<in> set xs. qualifies sd cam e \<longrightarrow> minDist st0 \<le> camera_distance sd cam e))
          \<or> (\<exists>e \<in> set xs. qualifies sd cam e \<and> camera_distance sd cam e < minDist st0
               \<and> st = \<lparr>minDist = camera_distance sd cam e, hitId = Some (e_id e),
                        hitPoint = torso sd e\<rparr>)))"

section \<open>Invariants of the controller\<close>

text \<open>
  What holds of every actor at all times: its hp lies between 0 and its maximum, and it
  is dead exactly when its hp is 0. What holds of the controller's state: the damage
  multiplier is at least 1, the ammunition lies between 0 and \<open>MAX_AMMO\<close>, and every
  actor is as above. \<open>shot_from\<close> and \<open>moved_from\<close> are the actor lists a shot and
  the per-frame actor update produce from a state.
\<close>

definition hp_ok :: "Enemy \<Rightarrow> bool" where
  "hp_ok e = (0 \<le> hp e \<and> hp e \<le> maxHp e \<and> (isDead e \<longleftrightarrow> hp e = 0))"

definition sim_inv :: "Sim \<Rightarrow> bool" where
  "sim_inv s =
     (1 \<le> damageMultiplier (gameState s)
      \<and> 0 \<le> ammo (gameState s) \<and> ammo (gameState s) \<le> MAX_AMMO
      \<and> (\<forall>e \<in> set (enemies s). hp_ok e))"

definition shot_from :: "Sim \<Rightarrow> camera \<Rightarrow> real \<Rightarrow> Enemy list" where
  "shot_from s cam t = nextEnemies (seed s) cam (damageMultiplier (gameState s)) t (enemies s)"

definition moved_from :: "Sim \<Rightarrow> vec3 \<Rightarrow> real \<Rightarrow> real \<Rightarrow> Obstacle list \<Rightarrow> Enemy list" where
  "moved_from s campos delta t obstacles = ai_next (seed s) campos delta t obstacles (enemies s)"

text \<open>
  The id of a new actor is the print of a random number. \<open>tokens\<close> lists the prints the
  frames of a sequence of events carry, and \<open>ids\<close> the ids of the actors of a state.
\<close>

fun event_token :: "Event \<Rightarrow> string list" where
  "event_token (Frame inp) = [f_rand_id inp]"
| "event_token (ReloadKey seen) = []"
| "event_token (ShopKey m) = []"
| "event_token (StartGame newSeed) = []"

definition tokens :: "Event list \<Rightarrow> string list" where
  "tokens evs = concat (map event_token evs)"

definition ids :: "Sim \<Rightarrow> string list" where
  "ids s = map e_id (enemies s)"

section \<open>Attackers\<close>

text \<open>
  An actor attacks the player in a frame when it is alive, is not a villager, and its
  planar distance to the player is below 1.5.
\<close>

definition attacks :: "vec3 \<Rightarrow> Enemy \<Rightarrow> bool" where
  "attacks campos e =
     (\<not> isDead e \<and> e_type e \<noteq> Villager
      \<and> distanceTo (planar campos) (planar (e_position e)) < 1.5)"

section \<open>The earlier variant: reload with a delay\<close>

text \<open>
  The earlier controller keeps the ammunition and a reloading flag in references.
  \<open>reload\<close> sets the flag and starts a timer of 1500 ms whose callback refills the
  ammunition and clears the flag; the shooting logic is guarded by the flag. The pending
  timers are kept by their due times; a timeout event at a time runs the callbacks that
  are due by then. \<open>shotsFired\<close> counts the passes through the firing branch.
\<close>

record Gun01 =
  ammoRef :: int
  isReloading :: bool
  lastShotTime :: real
  timers :: "real list"
  shotsFired :: nat

definition RELOAD_DELAY :: real where "RELOAD_DELAY = 1500"

definition reload01 :: "real \<Rightarrow> Gun01 \<Rightarrow> Gun01" where
  "reload01 now g = g\<lparr>isReloading := True, timers := timers g @ [now + RELOAD_DELAY]\<rparr>"

definition refill01 :: "Gun01 \<Rightarrow> Gun01" where
  "refill01 g = g\<lparr>ammoRef := MAX_AMMO, isReloading := False\<rparr>"

definition onReload01 :: "real \<Rightarrow> Gun01 \<Rightarrow> Gun01" where
  "onReload01 now g =
     (if ammoRef g < MAX_AMMO \<and> \<not> isReloading g then reload01 now g else g)"

definition shooting01 :: "bool \<Rightarrow> real \<Rightarrow> Gun01 \<Rightarrow> Gun01" where
  "shooting01 mouseDown time g =
     (if mouseDown \<and> \<not> isReloading g \<and> time - lastShotTime g > FIRE_RATE then
        (if ammoRef g > 0
         then g\<lparr>lastShotTime := time, ammoRef := ammoRef g - 1,
                shotsFired := Suc (shotsFired g)\<rparr>
         else if ammoRef g = 0 then reload01 time g else g)
      else g)"

definition run_timers :: "real \<Rightarrow> Gun01 \<Rightarrow> Gun01" where
  "run_timers now g =
     (if \<exists>d \<in> set (timers g). d \<le> now
      then (refill01 g)\<lparr>timers := filter (\<lambda>d. \<not> d \<le> now) (timers g)\<rparr>
      else g)"

datatype Event01 = Frame01 bool real | KeyR01 real | Timeout01 real

fun event_time :: "Event01 \<Rightarrow> real" where
  "event_time (Frame01 mouseDown t) = t"
| "event_time (KeyR01 t) = t"
| "event_time (Timeout01 t) = t"

fun step01 :: "Gun01 \<Rightarrow> Event01 \<Rightarrow> Gun01" where
  "step01 g (Frame01 mouseDown t) = shooting01 mouseDown t g"
| "step01 g (KeyR01 t) = onReload01 t g"
| "step01 g (Timeout01 t) = run_timers t g"

section \<open>The earlier variant: the actor update\<close>

text \<open>
  The earlier controller has its own table of actor kinds (no gold), and its collision
  test knows circles only, with a cutoff of 20. Its per-frame update does not skip dead
  actors and does not add up damage: it raises one flag, \<open>takingDamage\<close>, when some
  actor that is not a villager is within its attack range (1.5 times its scale), and
  after the pass hands 0.5 to the damage handler once if the flag is up. The handler
  ends the game when the health would reach 0 and otherwise lowers it. A villager far
  from the player wanders on a random draw below 0.05, in the direction of a second
  draw; the two draws of the actor at position \<open>i\<close> are \<open>draws i\<close>.
\<close>

record EnemyConfig01 =
  c01_hp :: real
  c01_speed :: real
  c01_score :: int
  c01_scale :: real

fun ENEMY_CONFIG01 :: "EnemyType \<Rightarrow> EnemyConfig01" where
  "ENEMY_CONFIG01 Peasant = \<lparr>c01_hp = 40, c01_speed = 7, c01_score = 50, c01_scale = 0.8\<rparr>"
| "ENEMY_CONFIG01 Knight = \<lparr>c01_hp = 100, c01_speed = 4, c01_score = 100, c01_scale = 1.0\<rparr>"
| "ENEMY_CONFIG01 Heavy = \<lparr>c01_hp = 300, c01_speed = 2.5, c01_score = 300, c01_scale = 1.4\<rparr>"
| "ENEMY_CONFIG01 Villager =
     \<lparr>c01_hp = 30, c01_speed = 5, c01_score = - 100, c01_scale = 0.8\<rparr>"

fun checkCollision01 :: "vec3 \<Rightarrow> Obstacle list \<Rightarrow> real \<Rightarrow> bool" where
  "checkCollision01 position [] radius = False"
| "checkCollision01 position (obs # rest) radius =
     (let dx = vx position - vx (o_position obs);
          dz = vz position - vz (o_position obs)
      in if \<bar>dx\<bar> > 20 \<or> \<bar>dz\<bar> > 20 then checkCollision01 position rest radius
         else
           (let distSq = dx * dx + dz * dz;
                minDist = o_radius obs + radius
            in if distSq < minDist * minDist then True
               else checkCollision01 position rest radius))"

definition moved01 :: "Obstacle list \<Rightarrow> vec3 \<Rightarrow> Enemy \<Rightarrow> Enemy" where
  "moved01 obstacles nextPos e =
     (if \<not> checkCollision01 nextPos obstacles 0.5
      then e\<lparr>e_position := \<lparr>vx = vx nextPos, vy = 0, vz = vz nextPos\<rparr>, isAttacking := False\<rparr>
      else e\<lparr>isAttacking := False\<rparr>)"

definition ai_enemy01 ::
  "vec3 \<Rightarrow> real \<Rightarrow> Obstacle list \<Rightarrow> real \<times> real \<Rightarrow> Enemy \<Rightarrow> Enemy \<times> bool" where
  "ai_enemy01 campos delta obstacles draws e =
     (let eVec = planar (e_position e);
          pVec = planar campos;
          dist = distanceTo eVec pVec
      in if e_type e = Villager then
           (if dist < 10 then
              (let dir = normalize (v_sub eVec pVec);
                   moveVec = multiplyScalar dir (speed e * delta);
                   nextPos = v_add (planar (e_position e)) moveVec
               in (moved01 obstacles nextPos e, False))
            else if fst draws < 0.05 then
              (let angle = snd draws * pi * 2;
                   moveVec = multiplyScalar \<lparr>vx = cos angle, vy = 0, vz = sin angle\<rparr>
                               (speed e * delta * 0.5);
                   nextPos = v_add (planar (e_position e)) moveVec
               in (moved01 obstacles nextPos e, False))
            else (e\<lparr>isAttacking := False\<rparr>, False))
         else
           (let config = ENEMY_CONFIG01 (e_type e);
                attackRange = 1.5 * c01_scale config
            in if dist > attackRange then
                 (let dir = normalize (v_sub pVec eVec);
                      moveVec = multiplyScalar dir (speed e * delta);
                      nextPos = v_add eVec moveVec
                  in (moved01 obstacles nextPos e, False))
               else (e\<lparr>isAttacking := True\<rparr>, True)))"

definition ai_results01 ::
  "vec3 \<Rightarrow> real \<Rightarrow> Obstacle list \<Rightarrow> (nat \<Rightarrow> real \<times> real) \<Rightarrow> Enemy list \<Rightarrow> (Enemy \<times> bool) list" where
  "ai_results01 campos delta obstacles draws prev =
     map (\<lambda>(i, e). ai_enemy01 campos delta obstacles (draws i) e) (enumerate 0 prev)"

definition takingDamage01 ::
  "vec3 \<Rightarrow> real \<Rightarrow> Obstacle list \<Rightarrow> (nat \<Rightarrow> real \<times> real) \<Rightarrow> Enemy list \<Rightarrow> bool" where
  "takingDamage01 campos delta obstacles draws prev =
     (True \<in> snd ` set (ai_results01 campos delta obstacles draws prev))"

definition handleDamage01 :: "real \<Rightarrow> GameState \<Rightarrow> GameState" where
  "handleDamage01 amount prev =
     (let newHp = max 0 (health prev - amount)
      in if newHp = 0 then prev\<lparr>isPlaying := False\<rparr> else prev\<lparr>health := newHp\<rparr>)"

definition enemy_logic01 ::
  "vec3 \<Rightarrow> real \<Rightarrow> Obstacle list \<Rightarrow> (nat \<Rightarrow> real \<times> real) \<Rightarrow> Enemy list \<times> GameState
     \<Rightarrow> Enemy list \<times> GameState" where
  "enemy_logic01 campos delta obstacles draws st =
     (map fst (ai_results01 campos delta obstacles draws (fst st)),
      if takingDamage01 campos delta obstacles draws (fst st)
      then handleDamage01 0.5 (snd st) else snd st)"

definition attacks01 :: "vec3 \<Rightarrow> Enemy \<Rightarrow> bool" where
  "attacks01 campos e =
     (e_type e \<noteq> Villager
      \<and> distanceTo (planar (e_position e)) (planar campos)
          \<le> 1.5 * c01_scale (ENEMY_CONFIG01 (e_type e)))"

section \<open>Chunk streaming, final variant\<close>

text \<open>
  The streaming component keeps the set of loaded chunk keys and the obstacle list
  (\<open>liveObstacles\<close> here, the state \<open>obstacles\<close> of the application). A
  frame visits the chunks around the camera, x outermost, and generates those whose key
  is not loaded yet. Nothing is ever removed.
\<close>

definition chunk_key :: "int \<Rightarrow> int \<Rightarrow> string" where
  "chunk_key xx zz = show_int xx @ '':'' @ show_int zz"

definition active_coords :: "int \<Rightarrow> int \<Rightarrow> (int \<times> int) list" where
  "active_coords cx cz =
     concat (map (\<lambda>xx. map (\<lambda>zz. (xx, zz)) [cz - RENDER_DISTANCE .. cz + RENDER_DISTANCE])
               [cx - RENDER_DISTANCE .. cx + RENDER_DISTANCE])"

definition chunk_of :: "real \<Rightarrow> int" where
  "chunk_of p = \<lfloor>p / CHUNK_SIZE\<rfloor>"

record World =
  loadedChunks :: "string set"
  liveObstacles :: "Obstacle list"

record loading =
  ld_loaded :: "string set"
  ld_newObs :: "Obstacle list"
  ld_hasNew :: bool

definition load_chunk :: "real \<Rightarrow> loading \<Rightarrow> int \<times> int \<Rightarrow> loading" where
  "load_chunk sd st c =
     (let key = chunk_key (fst c) (snd c)
      in if key \<notin> ld_loaded st
         then \<lparr>ld_loaded = insert key (ld_loaded st),
               ld_newObs = ld_newObs st @ generateChunk (fst c) (snd c) sd,
               ld_hasNew = True\<rparr>
         else st)"

definition WorldGen :: "bool \<Rightarrow> real \<Rightarrow> vec3 \<Rightarrow> World \<Rightarrow> World" where
  "WorldGen playing sd campos w =
     (if \<not> playing then w
      else
        (let cx = chunk_of (vx campos);
             cz = chunk_of (vz campos);
             st = foldl (load_chunk sd)
                    \<lparr>ld_loaded = loadedChunks w, ld_newObs = [], ld_hasNew = False\<rparr>
                    (active_coords cx cz)
         in \<lparr>loadedChunks = ld_loaded st,
             liveObstacles =
               (if ld_hasNew st then liveObstacles w @ ld_newObs st else liveObstacles w)\<rparr>))"

section \<open>Chunk streaming, earlier variant\<close>

subsection \<open>Splitting an id and reading its numbers\<close>

text \<open>
  \<open>split_colon\<close> cuts a string at every colon. \<open>parseInt\<close> skips leading white space,
  reads an optional sign, takes base 16 after a \<open>0x\<close> prefix and base 10 otherwise, and
  reads the longest run of digits of that base; with no digit the result is not a
  number, here \<open>None\<close>. An absent array element reads as not a number too. A string
  here is a list of code units below 256; the white space among them is the tab, the
  line feed, the vertical tab, the form feed, the carriage return, the space and the
  no-break space.
\<close>

fun split_colon :: "string \<Rightarrow> string list" where
  "split_colon [] = [[]]"
| "split_colon (c # cs) =
     (if c = CHR '':'' then [] # split_colon cs
      else (case split_colon cs of [] \<Rightarrow> [[c]] | f # fs \<Rightarrow> (c # f) # fs))"

definition is_white :: "char \<Rightarrow> bool" where
  "is_white c = (of_char c \<in> {9, 10, 11, 12, 13, 32, 160 :: nat})"

definition digit_value :: "char \<Rightarrow> nat option" where
  "digit_value c =
     (let n = (of_char c :: nat)
      in if 48 \<le> n \<and> n \<le> 57 then Some (n - 48)
         else if 97 \<le> n \<and> n \<le> 122 then Some (n - 87)
         else if 65 \<le> n \<and> n \<le> 90 then Some (n - 55)
         else None)"

definition is_digit_of :: "nat \<Rightarrow> char \<Rightarrow> bool" where
  "is_digit_of radix c = (case digit_value c of None \<Rightarrow> False | Some d \<Rightarrow> d < radix)"

definition digits_value :: "nat \<Rightarrow> string \<Rightarrow> nat" where
  "digits_value radix ds = foldl (\<lambda>a c. a * radix + the (digit_value c)) 0 ds"

definition parseInt :: "string \<Rightarrow> int option" where
  "parseInt str =
     (let s1 = dropWhile is_white str;
          negative = (case s1 of [] \<Rightarrow> False | c # r \<Rightarrow> c = CHR ''-'');
          s2 = (case s1 of [] \<Rightarrow> []
                | c # r \<Rightarrow> if c = CHR ''-'' \<or> c = CHR ''+'' then r else s1);
          hex = (case s2 of a # b # r \<Rightarrow> a = CHR ''0'' \<and> (b = CHR ''x'' \<or> b = CHR ''X'')
                 | _ \<Rightarrow> False);
          radix = (if hex then 16 else 10);
          s3 = (if hex then drop 2 s2 else s2);
          ds = takeWhile (is_digit_of radix) s3
      in if ds = [] then None
         else Some ((if negative then - 1 else 1) * int (digits_value radix ds)))"

definition part :: "string list \<Rightarrow> nat \<Rightarrow> string option" where
  "part parts i = (if i < length parts then Some (parts ! i) else None)"

definition parseInt_part :: "string option \<Rightarrow> int option" where
  "parseInt_part p = (case p of None \<Rightarrow> None | Some str \<Rightarrow> parseInt str)"

definition print_part :: "string option \<Rightarrow> string" where
  "print_part p = (case p of None \<Rightarrow> ''undefined'' | Some str \<Rightarrow> str)"

subsection \<open>The generator of the earlier variant\<close>

definition noise01 :: "real \<Rightarrow> real \<Rightarrow> real" where
  "noise01 xx zz =
     (let sn = sin (xx * 12.9898 + zz * 78.233);
          s = sn * 43758.5453123
      in s - Math_floor s)"

definition smoothNoise01 :: "real \<Rightarrow> real \<Rightarrow> real" where
  "smoothNoise01 xx zz =
     (let i = Math_floor xx;
          j = Math_floor zz;
          f = xx - i;
          g = zz - j;
          a = noise01 i j;
          b = noise01 (i + 1) j;
          c = noise01 i (j + 1);
          d = noise01 (i + 1) (j + 1);
          u = f * f * f * (f * (f * 6 - 15) + 10);
          v = g * g * g * (g * (g * 6 - 15) + 10)
      in (1 - u) * (1 - v) * a + u * (1 - v) * b + (1 - u) * v * c + u * v * d)"

definition getTerrainHeight01 :: "real \<Rightarrow> real \<Rightarrow> real" where
  "getTerrainHeight01 xx zz =
     (let amp = 10;
          freq = 0.02;
          y1 = 0 + smoothNoise01 (xx * freq) (zz * freq) * amp;
          y2 = y1 + smoothNoise01 (xx * freq * 2) (zz * freq * 2) * (amp / 2);
          y3 = y2 + smoothNoise01 (xx * freq * 4) (zz * freq * 4) * (amp / 4)
      in y3 powr 1.2)"

definition chunkSeed01 :: "int \<Rightarrow> int \<Rightarrow> int" where
  "chunkSeed01 chunkX chunkZ =
     sint ((word_of_int (round_double (chunkX * 73856093))
            XOR word_of_int (round_double (chunkZ * 19349663))) :: 32 word)"

definition house01 :: "int \<Rightarrow> int \<Rightarrow> int \<Rightarrow> real \<Rightarrow> real \<Rightarrow> nat \<Rightarrow> Obstacle" where
  "house01 chunkX chunkZ chunkSeed worldX worldZ i =
     (let lx = (getRand chunkSeed (int i * 30) - 0.5) * (CHUNK_SIZE * 0.6);
          lz = (getRand chunkSeed (int i * 30 + 1) - 0.5) * (CHUNK_SIZE * 0.6);
          wx = worldX + lx;
          wz = worldZ + lz;
          yy = getTerrainHeight01 wx wz
      in \<lparr>o_id = chunk_key chunkX chunkZ @ '':house:'' @ show_nat i, o_type = House,
          o_position = \<lparr>vx = wx, vy = yy, vz = wz\<rparr>,
          o_rotation = getRand chunkSeed (int i * 30 + 2) * pi * 2,
          o_scale = unit_scale, o_radius = 2.5, o_dims = None\<rparr>)"

definition tree01 ::
  "int \<Rightarrow> int \<Rightarrow> int \<Rightarrow> real \<Rightarrow> real \<Rightarrow> bool \<Rightarrow> Obstacle list \<Rightarrow> nat \<Rightarrow> Obstacle list" where
  "tree01 chunkX chunkZ chunkSeed worldX worldZ isVillage houses i =
     (let lx = getRand chunkSeed (int i * 10) * CHUNK_SIZE - (CHUNK_SIZE / 2);
          lz = getRand chunkSeed (int i * 10 + 1) * CHUNK_SIZE - (CHUNK_SIZE / 2);
          wx = worldX + lx;
          wz = worldZ + lz;
          yy = getTerrainHeight01 wx wz;
          tooClose =
            (isVillage \<and>
             (\<exists>h \<in> set houses. o_type h = House \<and>
                sqrt ((wx - vx (o_position h)) * (wx - vx (o_position h))
                      + (wz - vz (o_position h)) * (wz - vz (o_position h))) < 4))
      in if tooClose then []
         else [\<lparr>o_id = chunk_key chunkX chunkZ @ '':tree:'' @ show_nat i, o_type = Tree,
                 o_position = \<lparr>vx = wx, vy = yy, vz = wz\<rparr>,
                 o_rotation = getRand chunkSeed (int i * 10 + 2) * pi,
                 o_scale = \<lparr>vx = 1 + getRand chunkSeed (int i) * 0.5,
                            vy = 1 + getRand chunkSeed (int i + 5),
                            vz = 1 + getRand chunkSeed (int i) * 0.5\<rparr>,
                 o_radius = 1, o_dims = None\<rparr>])"

definition rock01 :: "int \<Rightarrow> int \<Rightarrow> int \<Rightarrow> real \<Rightarrow> real \<Rightarrow> nat \<Rightarrow> Obstacle" where
  "rock01 chunkX chunkZ chunkSeed worldX worldZ i =
     (let lx = getRand chunkSeed (int i * 20 + 50) * CHUNK_SIZE - (CHUNK_SIZE / 2);
          lz = getRand chunkSeed (int i * 20 + 51) * CHUNK_SIZE - (CHUNK_SIZE / 2);
          wx = worldX + lx;
          wz = worldZ + lz;
          yy = getTerrainHeight01 wx wz
      in \<lparr>o_id = chunk_key chunkX chunkZ @ '':rock:'' @ show_nat i, o_type = Rock,
          o_position = \<lparr>vx = wx, vy = yy, vz = wz\<rparr>,
          o_rotation = getRand chunkSeed (int i * 20 + 52) * pi,
          o_scale = unit_scale, o_radius = 1.5, o_dims = None\<rparr>)"

definition ruin01 :: "int \<Rightarrow> int \<Rightarrow> int \<Rightarrow> real \<Rightarrow> real \<Rightarrow> Obstacle" where
  "ruin01 chunkX chunkZ chunkSeed worldX worldZ =
     (let lx = getRand chunkSeed 101 * CHUNK_SIZE - (CHUNK_SIZE / 2);
          lz = getRand chunkSeed 102 * CHUNK_SIZE - (CHUNK_SIZE / 2);
          wx = worldX + lx;
          wz = worldZ + lz;
          yy = getTerrainHeight01 wx wz
      in \<lparr>o_id = chunk_key chunkX chunkZ @ '':ruin'', o_type = Ruin,
          o_position = \<lparr>vx = wx, vy = yy, vz = wz\<rparr>,
          o_rotation = getRand chunkSeed 103 * pi,
          o_scale = \<lparr>vx = 1 + getRand chunkSeed 104, vy = 1 + getRand chunkSeed 105,
                     vz = 1 + getRand chunkSeed 104\<rparr>,
          o_radius = 3.5, o_dims = None\<rparr>)"

definition generateChunk01 :: "int \<Rightarrow> int \<Rightarrow> Obstacle list" where
  "generateChunk01 chunkX chunkZ =
     (let chunkSeed = chunkSeed01 chunkX chunkZ;
          worldX = of_int chunkX * CHUNK_SIZE;
          worldZ = of_int chunkZ * CHUNK_SIZE;
          isVillage = (getRand chunkSeed 999 > 0.95);
          houses =
            (if isVillage then
               map (house01 chunkX chunkZ chunkSeed worldX worldZ)
                 [0..<nat (4 + \<lfloor>getRand chunkSeed 888 * 4\<rfloor>)]
             else []);
          treeCount = (if isVillage then 2 else nat (\<lfloor>getRand chunkSeed 1 * 10\<rfloor> + 2));
          trees =
            concat (map (tree01 chunkX chunkZ chunkSeed worldX worldZ isVillage houses)
                      [0..<treeCount]);
          rockCount = nat (\<lfloor>getRand chunkSeed 2 * 5\<rfloor> + 2);
          rocks = map (rock01 chunkX chunkZ chunkSeed worldX worldZ) [0..<rockCount];
          ruin =
            (if \<not> isVillage \<and> getRand chunkSeed 100 > 0.85
             then [ruin01 chunkX chunkZ chunkSeed worldX worldZ] else [])
      in houses @ trees @ rocks @ ruin)"

subsection \<open>The world generator of the earlier variant\<close>

text \<open>
  It acts only when the player's chunk has changed. It visits the chunks around the
  player, records every key as active and generates the chunks not loaded yet; and only
  when that produced at least one obstacle, it filters the old obstacles by the chunk
  coordinate read from their ids, rebuilds the loaded set from the ids that remain,
  adds the active keys, and appends the new obstacles.
\<close>

record Streamer01 =
  loadedChunks01 :: "string set"
  lastChunk :: "(int \<times> int) option"
  obstacles01 :: "Obstacle list"

record loading01 =
  ld_activeKeys :: "string set"
  ld_loaded01 :: "string set"
  ld_newObstacles :: "Obstacle list"

definition load_chunk01 :: "loading01 \<Rightarrow> int \<times> int \<Rightarrow> loading01" where
  "load_chunk01 st c =
     (let key = chunk_key (fst c) (snd c);
          st1 = st\<lparr>ld_activeKeys := insert key (ld_activeKeys st)\<rparr>
      in if key \<notin> ld_loaded01 st
         then st1\<lparr>ld_loaded01 := insert key (ld_loaded01 st),
                  ld_newObstacles := ld_newObstacles st @ generateChunk01 (fst c) (snd c)\<rparr>
         else st1)"

definition keeps :: "int \<Rightarrow> int \<Rightarrow> Obstacle \<Rightarrow> bool" where
  "keeps chunkX chunkZ obs =
     (let parts = split_colon (o_id obs);
          cx = parseInt_part (part parts 0);
          cz = parseInt_part (part parts 1)
      in case cx of None \<Rightarrow> False
         | Some a \<Rightarrow>
             (case cz of None \<Rightarrow> False
              | Some b \<Rightarrow>
                  \<bar>a - chunkX\<bar> \<le> RENDER_DISTANCE + 1 \<and> \<bar>b - chunkZ\<bar> \<le> RENDER_DISTANCE + 1))"

definition id_key :: "Obstacle \<Rightarrow> string" where
  "id_key obs =
     (let parts = split_colon (o_id obs)
      in print_part (part parts 0) @ '':'' @ print_part (part parts 1))"

definition WorldGenerator :: "vec3 \<Rightarrow> Streamer01 \<Rightarrow> Streamer01" where
  "WorldGenerator player s =
     (let chunkX = chunk_of (vx player);
          chunkZ = chunk_of (vz player)
      in if lastChunk s = Some (chunkX, chunkZ) then s
         else
           (let st = foldl load_chunk01
                       \<lparr>ld_activeKeys = {}, ld_loaded01 = loadedChunks01 s,
                        ld_newObstacles = []\<rparr>
                       (active_coords chunkX chunkZ);
                s1 = s\<lparr>lastChunk := Some (chunkX, chunkZ), loadedChunks01 := ld_loaded01 st\<rparr>
            in if ld_newObstacles st \<noteq> []
               then
                 (let filtered = filter (keeps chunkX chunkZ) (obstacles01 s);
                      currentLoaded = id_key ` set filtered
                  in s1\<lparr>loadedChunks01 := currentLoaded \<union> ld_activeKeys st,
                        obstacles01 := filtered @ ld_newObstacles st\<rparr>)
               else s1))"

section \<open>Chunk ownership and the active keys\<close>

text \<open>
  An obstacle is owned by a chunk when its id starts with the chunk's key and a colon.
  The active keys are the keys of the chunks within \<open>RENDER_DISTANCE\<close> of a chunk, and
  the fresh obstacles are those the earlier world generator generates on entering it.
  \<open>is_dec\<close> holds of the ten decimal digits.
\<close>

definition is_dec :: "char \<Rightarrow> bool" where
  "is_dec c = (\<exists>d < 10. c = digit_char d)"

definition owned_by :: "int \<Rightarrow> int \<Rightarrow> Obstacle \<Rightarrow> bool" where
  "owned_by xx zz obs = (\<exists>rest. o_id obs = chunk_key xx zz @ CHR '':'' # rest)"

definition keys_of :: "(int \<times> int) list \<Rightarrow> string set" where
  "keys_of cs = (\<lambda>c. chunk_key (fst c) (snd c)) ` set cs"

definition active_keys :: "int \<Rightarrow> int \<Rightarrow> string set" where
  "active_keys cx cz = keys_of (active_coords cx cz)"

definition fresh_obstacles :: "Streamer01 \<Rightarrow> int \<Rightarrow> int \<Rightarrow> Obstacle list" where
  "fresh_obstacles s cx cz =
     ld_newObstacles
       (foldl load_chunk01
          \<lparr>ld_activeKeys = {}, ld_loaded01 = loadedChunks01 s, ld_newObstacles = []\<rparr>
          (active_coords cx cz))"

section \<open>Histories of the earlier world generator\<close>

text \<open>
  The earlier variant mounts its world generator with an empty set of loaded keys, no
  last chunk and an empty obstacle list (\<open>useRef(new Set())\<close>, \<open>useRef(null)\<close>,
  \<open>useState([])\<close>), and nothing else writes the obstacle list. A history is the list
  of player positions seen by the frames so far; \<open>stream01\<close> is the state after it.
  \<open>stream_inv\<close> collects what holds of every such state: each obstacle is owned by a
  chunk, the loaded keys are exactly the keys read from the ids, the owning chunks of
  any two obstacles are at most five apart on either axis, and the active keys of the
  last chunk are loaded while every obstacle is within its eviction radius.
\<close>

definition start01 :: Streamer01 where
  "start01 = \<lparr>loadedChunks01 = {}, lastChunk = None, obstacles01 = []\<rparr>"

definition stream01 :: "vec3 list \<Rightarrow> Streamer01" where
  "stream01 ps = foldl (\<lambda>s p. WorldGenerator p s) start01 ps"

definition spread_ok :: "Obstacle list \<Rightarrow> bool" where
  "spread_ok obs =
     (\<forall>a \<in> set obs. \<forall>b \<in> set obs. \<forall>xa za xb zb.
        owned_by xa za a \<and> owned_by xb zb b \<longrightarrow> \<bar>xa - xb\<bar> \<le> 5 \<and> \<bar>za - zb\<bar> \<le> 5)"

definition stream_inv :: "Streamer01 \<Rightarrow> bool" where
  "stream_inv s =
     ((\<forall>obs \<in> set (obstacles01 s). \<exists>xx zz. owned_by xx zz obs)
      \<and> loadedChunks01 s = id_key ` set (obstacles01 s)
      \<and> spread_ok (obstacles01 s)
      \<and> (case lastChunk s of
            None \<Rightarrow> obstacles01 s = []
          | Some c \<Rightarrow> active_keys (fst c) (snd c) \<subseteq> loadedChunks01 s
                     \<and> (\<forall>obs \<in> set (obstacles01 s). keeps (fst c) (snd c) obs)))"

section \<open>Concrete inputs\<close>

text \<open>The obstacles, actors and frames at which the results below are evaluated.\<close>

definition w_wall :: Obstacle where
  "w_wall = \<lparr>o_id = ''0:0:b0:wall:fl'', o_type = Wall,
     o_position = \<lparr>vx = 0, vy = 0, vz = 0\<rparr>, o_rotation = 0, o_scale = unit_scale,
     o_radius = 1, o_dims = Some \<lparr>dw = 4, dd = 1, dh = 5\<rparr>\<rparr>"

definition w_tree :: Obstacle where
  "w_tree = \<lparr>o_id = ''0:0:tree:0'', o_type = Tree,
     o_position = \<lparr>vx = 10, vy = 0, vz = 0\<rparr>, o_rotation = 0, o_scale = unit_scale,
     o_radius = 1, o_dims = None\<rparr>"

definition w_far :: Obstacle where
  "w_far = \<lparr>o_id = ''9:9:tree:0'', o_type = Tree,
     o_position = \<lparr>vx = 20, vy = 0, vz = 0\<rparr>, o_rotation = 0, o_scale = unit_scale,
     o_radius = 30, o_dims = None\<rparr>"

definition w_point :: vec3 where
  "w_point = \<lparr>vx = 2.2, vy = 0, vz = 0.5\<rparr>"

definition w_roof :: Obstacle where
  "w_roof = \<lparr>o_id = ''0:0:b0:roof'', o_type = Roof,
     o_position = \<lparr>vx = 0, vy = 5, vz = 0\<rparr>, o_rotation = 0,
     o_scale = \<lparr>vx = 9, vy = 4, vz = 9\<rparr>, o_radius = 0, o_dims = None\<rparr>"

definition w_knight :: Enemy where
  "w_knight = \<lparr>e_id = ''0.42'', e_type = Knight,
     e_position = \<lparr>vx = 0, vy = 0, vz = 0\<rparr>, hp = 100, maxHp = 100, speed = 4,
     isAttacking = False, isDead = False, deadTime = None, velocity = None\<rparr>"

definition w_heavy :: Enemy where
  "w_heavy = \<lparr>e_id = ''0.17'', e_type = Heavy,
     e_position = \<lparr>vx = 0, vy = 0, vz = 0\<rparr>, hp = 300, maxHp = 300, speed = 2.5,
     isAttacking = False, isDead = False, deadTime = None, velocity = None\<rparr>"

definition w_villager :: Enemy where
  "w_villager = \<lparr>e_id = ''0.77'', e_type = Villager,
     e_position = \<lparr>vx = 0, vy = 0, vz = 0\<rparr>, hp = 30, maxHp = 30, speed = 5,
     isAttacking = False, isDead = False, deadTime = None, velocity = None\<rparr>"

definition cam_above :: "real \<Rightarrow> camera" where
  "cam_above h =
     \<lparr>cam_position = \<lparr>vx = 0, vy = h, vz = 0\<rparr>,
      cam_origin = \<lparr>vx = 0, vy = h, vz = 0\<rparr>,
      cam_direction = \<lparr>vx = 0, vy = - 1, vz = 0\<rparr>\<rparr>"

definition w_frame_idle :: FrameInput where
  "w_frame_idle =
     \<lparr>f_time = 150, f_delta = 0, f_mouseDown = True, f_camera = cam_above 10,
      f_obstacles = [], f_rand_angle = 0, f_rand_dist = 0, f_rand_type = 0.5,
      f_rand_id = ''0.5''\<rparr>"

definition w_sim_empty :: Sim where
  "w_sim_empty =
     \<lparr>seed = 0, gameState = fresh_game\<lparr>ammo := 0\<rparr>, enemies = [w_villager],
      lastShot = 0, lastSpawn = 0, cues = []\<rparr>"

definition w_frame_spawn :: FrameInput where
  "w_frame_spawn =
     \<lparr>f_time = 2001, f_delta = 0, f_mouseDown = False,
      f_camera = \<lparr>cam_position = \<lparr>vx = - 30, vy = 1.7, vz = 0\<rparr>,
                  cam_origin = \<lparr>vx = - 30, vy = 1.7, vz = 0\<rparr>,
                  cam_direction = \<lparr>vx = 1, vy = 0, vz = 0\<rparr>\<rparr>,
      f_obstacles = [], f_rand_angle = 0, f_rand_dist = 0, f_rand_type = 0.1,
      f_rand_id = ''0.77''\<rparr>"

definition w_frame_kill :: FrameInput where
  "w_frame_kill =
     \<lparr>f_time = 2200, f_delta = 0, f_mouseDown = True, f_camera = cam_above 10,
      f_obstacles = [], f_rand_angle = 0, f_rand_dist = 0, f_rand_type = 0.5,
      f_rand_id = ''0.5''\<rparr>"

definition w_dead_villager :: Enemy where
  "w_dead_villager =
     w_villager\<lparr>hp := 0, isDead := True, deadTime := Some 2200,
                velocity := Some \<lparr>vx = 0, vy = - 4, vz = 0\<rparr>\<rparr>"

definition w_frame_melee :: FrameInput where
  "w_frame_melee =
     \<lparr>f_time = 100, f_delta = 0, f_mouseDown = False,
      f_camera = \<lparr>cam_position = \<lparr>vx = 1, vy = 1.7, vz = 0\<rparr>,
                  cam_origin = \<lparr>vx = 1, vy = 1.7, vz = 0\<rparr>,
                  cam_direction = \<lparr>vx = - 1, vy = 0, vz = 0\<rparr>\<rparr>,
      f_obstacles = [], f_rand_angle = 0, f_rand_dist = 0, f_rand_type = 0.5,
      f_rand_id = ''0.5''\<rparr>"

definition w_sim_melee :: "real \<Rightarrow> Sim" where
  "w_sim_melee h =
     \<lparr>seed = 0, gameState = fresh_game\<lparr>health := h\<rparr>, enemies = [w_knight, w_heavy],
      lastShot = 0, lastSpawn = 0, cues = []\<rparr>"

definition w_frame_next :: FrameInput where
  "w_frame_next =
     \<lparr>f_time = 166, f_delta = 0.016, f_mouseDown = True, f_camera = cam_above 10,
      f_obstacles = [], f_rand_angle = 0, f_rand_dist = 0, f_rand_type = 0.5,
      f_rand_id = ''0.5''\<rparr>"

definition w_gun_empty :: Gun01 where
  "w_gun_empty =
     \<lparr>ammoRef = 0, isReloading = False, lastShotTime = 0, timers = [], shotsFired = 30\<rparr>"

definition w_distant :: Obstacle where
  "w_distant = \<lparr>o_id = ''9:9:tree:0'', o_type = Tree,
     o_position = \<lparr>vx = 570, vy = 0, vz = 570\<rparr>, o_rotation = 0, o_scale = unit_scale,
     o_radius = 1, o_dims = None\<rparr>"

definition w_near :: Obstacle where
  "w_near = \<lparr>o_id = ''1:-1:rock:0'', o_type = Rock,
     o_position = \<lparr>vx = 90, vy = 0, vz = - 30\<rparr>, o_rotation = 0, o_scale = unit_scale,
     o_radius = 1.5, o_dims = None\<rparr>"

definition w_world :: World where
  "w_world = \<lparr>loadedChunks = active_keys 0 0 \<union> {''9:9''}, liveObstacles = [w_distant]\<rparr>"

definition w_cleared :: World where
  "w_cleared = \<lparr>loadedChunks = {}, liveObstacles = []\<rparr>"

definition w_origin :: vec3 where
  "w_origin = \<lparr>vx = 0, vy = 1.7, vz = 0\<rparr>"

definition w_streamer :: Streamer01 where
  "w_streamer = \<lparr>loadedChunks01 = {}, lastChunk = None, obstacles01 = [w_distant, w_near]\<rparr>"

text \<open>
  A camera standing at the origin at the player's height over the ground there, looking
  level, rendered where it stands; a frame that fires with it; and actors for it: the
  corpse of a knight, a live villager behind a corpse, a live villager behind a corpse
  that carries the same id, a knight 120 units away with the camera turned onto its
  torso, and a heavy actor that carries the knight's id.
\<close>

definition cam_level :: camera where
  "cam_level =
     \<lparr>cam_position = \<lparr>vx = 0, vy = 1.7, vz = 0\<rparr>,
      cam_origin = \<lparr>vx = 0, vy = 1.7, vz = 0\<rparr>,
      cam_direction = \<lparr>vx = 1, vy = 0, vz = 0\<rparr>\<rparr>"

definition w_frame_level :: FrameInput where
  "w_frame_level =
     \<lparr>f_time = 4500, f_delta = 0.016, f_mouseDown = True, f_camera = cam_level,
      f_obstacles = [], f_rand_angle = 0, f_rand_dist = 0, f_rand_type = 0.5,
      f_rand_id = ''0.5''\<rparr>"

definition w_dead_knight :: Enemy where
  "w_dead_knight =
     w_knight\<lparr>hp := 0, isDead := True, deadTime := Some 2200,
             velocity := Some \<lparr>vx = 8, vy = 4, vz = 0\<rparr>\<rparr>"

definition w_sim_guarded :: Sim where
  "w_sim_guarded =
     \<lparr>seed = 0, gameState = fresh_game, enemies = [w_dead_knight, w_villager],
      lastShot = 2200, lastSpawn = 4001, cues = []\<rparr>"

definition w_sim_twins :: Sim where
  "w_sim_twins =
     \<lparr>seed = 0, gameState = fresh_game\<lparr>score := - 100, ammo := 29\<rparr>,
      enemies = [w_dead_villager, w_villager],
      lastShot = 2200, lastSpawn = 4001, cues = []\<rparr>"

definition w_far_knight :: Enemy where
  "w_far_knight = \<lparr>e_id = ''0.42'', e_type = Knight,
     e_position = \<lparr>vx = 120, vy = getTerrainHeight 120 0 0, vz = 0\<rparr>,
     hp = 100, maxHp = 100, speed = 4,
     isAttacking = False, isDead = False, deadTime = None, velocity = None\<rparr>"

definition cam_aimed :: camera where
  "cam_aimed =
     \<lparr>cam_position = \<lparr>vx = 0, vy = 1.7, vz = 0\<rparr>,
      cam_origin = \<lparr>vx = 0, vy = 1.7, vz = 0\<rparr>,
      cam_direction = normalize (v_sub (torso 0 w_far_knight) \<lparr>vx = 0, vy = 1.7, vz = 0\<rparr>)\<rparr>"

definition w_twin :: Enemy where
  "w_twin = w_heavy\<lparr>e_id := ''0.42''\<rparr>"

definition w_draws :: "nat \<Rightarrow> real \<times> real" where
  "w_draws i = (1, 0)"

section \<open>Collision: results\<close>

lemma checkCollision_Cons:
  "checkCollision p (obs # rest) r = (blocked_by p r obs \<or> checkCollision p rest r)"
  by (auto simp: blocked_by_def beyond_cutoff_def footprint_hit_def footprint_of_def
      planar_offset_def inverse_rotate_def Let_def power2_eq_square
      split: option.splits)

lemma checkCollision_iff:
  "checkCollision p obstacles r = (\<exists>obs \<in> set obstacles. blocked_by p r obs)"
  by (induction obstacles) (simp_all add: checkCollision_Cons del: checkCollision.simps(2))

lemma checkCollision_single:
  "checkCollision p [obs] r = blocked_by p r obs"
  by (simp add: checkCollision_Cons del: checkCollision.simps(2))

text \<open>
  Claim C6. \<open>checkCollision\<close> is true exactly when some obstacle of the list blocks on
  its own. A wall with \<open>dims\<close> blocks iff it is within the broad-phase cutoff and the
  point's planar offset, turned back by the wall's yaw, satisfies
  \<open>|localX| < w/2 + r\<close> and \<open>|localZ| < d/2 + r\<close>. An obstacle tested as a circle (not
  a wall with \<open>dims\<close>, radius positive) blocks iff it is within the cutoff and the squared
  planar distance is below \<open>(R + r)\<^sup>2\<close>. An obstacle beyond the cutoff (more than 15
  units away on the x or the z axis) never blocks.
\<close>

theorem checkCollision_semantics:
  "(checkCollision p obstacles r \<longleftrightarrow> (\<exists>obs \<in> set obstacles. checkCollision p [obs] r))
   \<and> (o_type w = Wall \<and> o_dims w = Some dm \<longrightarrow>
        (checkCollision p [w] r \<longleftrightarrow>
           \<not> beyond_cutoff p w
           \<and> \<bar>fst (inverse_rotate (o_rotation w) (planar_offset p w))\<bar> < dw dm / 2 + r
           \<and> \<bar>snd (inverse_rotate (o_rotation w) (planar_offset p w))\<bar> < dd dm / 2 + r))
   \<and> (\<not> (o_type c = Wall \<and> o_dims c \<noteq> None) \<and> o_radius c > 0 \<longrightarrow>
        (checkCollision p [c] r \<longleftrightarrow>
           \<not> beyond_cutoff p c
           \<and> (fst (planar_offset p c))\<^sup>2 + (snd (planar_offset p c))\<^sup>2 < (o_radius c + r)\<^sup>2))
   \<and> (beyond_cutoff p far \<longrightarrow> \<not> checkCollision p [far] r)"
proof (intro conjI impI)
  show "checkCollision p obstacles r \<longleftrightarrow> (\<exists>obs \<in> set obstacles. checkCollision p [obs] r)"
    by (simp add: checkCollision_iff)
next
  assume "o_type w = Wall \<and> o_dims w = Some dm"
  then show "checkCollision p [w] r \<longleftrightarrow>
           \<not> beyond_cutoff p w
           \<and> \<bar>fst (inverse_rotate (o_rotation w) (planar_offset p w))\<bar> < dw dm / 2 + r
           \<and> \<bar>snd (inverse_rotate (o_rotation w) (planar_offset p w))\<bar> < dd dm / 2 + r"
    by (simp add: checkCollision_single blocked_by_def footprint_hit_def footprint_of_def
        del: checkCollision.simps(2))
next
  assume "\<not> (o_type c = Wall \<and> o_dims c \<noteq> None) \<and> o_radius c > 0"
  then show "checkCollision p [c] r \<longleftrightarrow>
           \<not> beyond_cutoff p c
           \<and> (fst (planar_offset p c))\<^sup>2 + (snd (planar_offset p c))\<^sup>2 < (o_radius c + r)\<^sup>2"
    by (auto simp add: checkCollision_single blocked_by_def footprint_hit_def footprint_of_def
        simp del: checkCollision.simps(2) split: option.splits)
next
  assume "beyond_cutoff p far"
  then show "\<not> checkCollision p [far] r"
    by (simp add: checkCollision_single blocked_by_def del: checkCollision.simps(2))
qed

theorem checkCollision_semantics_witness:
  "o_type w_wall = Wall \<and> o_dims w_wall = Some \<lparr>dw = 4, dd = 1, dh = 5\<rparr>
   \<and> checkCollision w_point [w_wall] 0.5
   \<and> \<not> (o_type w_tree = Wall \<and> o_dims w_tree \<noteq> None) \<and> o_radius w_tree > 0
   \<and> \<not> checkCollision w_point [w_tree] 0.5
   \<and> beyond_cutoff w_point w_far \<and> \<not> checkCollision w_point [w_far] 0.5
   \<and> checkCollision w_point [w_far, w_tree, w_wall] 0.5"
  using checkCollision_semantics [of w_point "[w_far, w_tree, w_wall]" "0.5" w_wall
      "\<lparr>dw = 4, dd = 1, dh = 5\<rparr>" w_tree w_far]
  by (simp add: w_wall_def w_tree_def w_far_def w_point_def beyond_cutoff_def
      planar_offset_def inverse_rotate_def power2_eq_square del: checkCollision.simps(2))

section \<open>Zero-radius obstacles\<close>

lemma zero_radius_not_blocked:
  "o_type z \<noteq> Wall \<Longrightarrow> o_radius z = 0 \<Longrightarrow> \<not> blocked_by p r z"
  by (simp add: blocked_by_def footprint_hit_def footprint_of_def)

lemma roof_parts:
  "bt \<noteq> Market \<Longrightarrow> roof \<in> set (generateBuilding bt xx zz yy rot pre) \<Longrightarrow>
   o_type roof = Roof \<Longrightarrow> o_radius roof = 0"
  by (cases bt) (auto simp: Let_def placed_wall_def)

lemma has_roof:
  "bt \<noteq> Market \<Longrightarrow> \<exists>roof \<in> set (generateBuilding bt xx zz yy rot pre). o_type roof = Roof"
  by (cases bt) (auto simp: Let_def)

text \<open>
  Claim C9. An obstacle that is not a wall and has radius 0 never makes \<open>checkCollision\<close>
  true: removing all such obstacles from the list leaves the result as it is. The
  cottage and the tower emitted by \<open>generateBuilding\<close> have a roof part, every roof part
  of theirs has radius 0 and does not block on its own, and testing against the building
  with or without its roof parts gives the same result.
\<close>

theorem zero_radius_never_blocks:
  "(checkCollision p obstacles r
      = checkCollision p (filter (\<lambda>obs. \<not> (o_type obs \<noteq> Wall \<and> o_radius obs = 0)) obstacles) r)
   \<and> (o_type z \<noteq> Wall \<and> o_radius z = 0 \<longrightarrow> \<not> checkCollision p [z] r)
   \<and> (bt \<noteq> Market \<longrightarrow>
        (\<exists>roof \<in> set (generateBuilding bt xx zz yy rot pre). o_type roof = Roof)
        \<and> (\<forall>roof \<in> set (generateBuilding bt xx zz yy rot pre).
              o_type roof = Roof \<longrightarrow> o_radius roof = 0 \<and> \<not> checkCollision p [roof] r)
        \<and> (checkCollision p (obstacles @ generateBuilding bt xx zz yy rot pre) r
              = checkCollision p
                  (obstacles @ filter (\<lambda>obs. o_type obs \<noteq> Roof)
                     (generateBuilding bt xx zz yy rot pre)) r))"
proof (intro conjI impI ballI)
  show "checkCollision p obstacles r
      = checkCollision p (filter (\<lambda>obs. \<not> (o_type obs \<noteq> Wall \<and> o_radius obs = 0)) obstacles) r"
    using zero_radius_not_blocked [of _ p r] by (auto simp: checkCollision_iff)
next
  assume "o_type z \<noteq> Wall \<and> o_radius z = 0"
  then show "\<not> checkCollision p [z] r"
    by (simp add: checkCollision_single zero_radius_not_blocked del: checkCollision.simps(2))
next
  assume "bt \<noteq> Market"
  then show "\<exists>roof \<in> set (generateBuilding bt xx zz yy rot pre). o_type roof = Roof"
    by (rule has_roof)
next
  fix roof
  assume bt: "bt \<noteq> Market" and mem: "roof \<in> set (generateBuilding bt xx zz yy rot pre)"
    and ty: "o_type roof = Roof"
  from roof_parts [OF bt mem ty] show "o_radius roof = 0" .
  with ty show "\<not> checkCollision p [roof] r"
    by (simp add: checkCollision_single zero_radius_not_blocked del: checkCollision.simps(2))
next
  assume bt: "bt \<noteq> Market"
  have "\<not> blocked_by p r obs"
    if "obs \<in> set (generateBuilding bt xx zz yy rot pre)" "o_type obs = Roof" for obs
    using roof_parts [OF bt that] that(2) by (simp add: zero_radius_not_blocked)
  then show "checkCollision p (obstacles @ generateBuilding bt xx zz yy rot pre) r
      = checkCollision p
          (obstacles @ filter (\<lambda>obs. o_type obs \<noteq> Roof) (generateBuilding bt xx zz yy rot pre)) r"
    by (auto simp: checkCollision_iff)
qed

theorem zero_radius_never_blocks_witness:
  "o_type w_roof \<noteq> Wall \<and> o_radius w_roof = 0
   \<and> w_roof \<in> set (generateBuilding Cottage 0 0 0 0 ''0:0:b0'')
   \<and> \<not> checkCollision \<lparr>vx = 0, vy = 0, vz = 0\<rparr> [w_roof] 0.5
   \<and> \<not> checkCollision \<lparr>vx = 0, vy = 0, vz = 0\<rparr> (generateBuilding Cottage 0 0 0 0 ''0:0:b0'') 0.5
   \<and> checkCollision \<lparr>vx = 3, vy = 0, vz = 4\<rparr> (generateBuilding Cottage 0 0 0 0 ''0:0:b0'') 0.5"
  using zero_radius_never_blocks [of "\<lparr>vx = 0, vy = 0, vz = 0\<rparr>" "[]" "0.5" w_roof Cottage
      0 0 0 0 "''0:0:b0''"]
  by (simp add: w_roof_def Let_def WALL_HEIGHT_def placed_wall_def unit_scale_def)

section \<open>Hitscan: results\<close>

lemma scan_enemy_eq:
  "scan_enemy sd cam st e =
     (if qualifies sd cam e \<and> camera_distance sd cam e < minDist st
      then \<lparr>minDist = camera_distance sd cam e, hitId = Some (e_id e), hitPoint = torso sd e\<rparr>
      else st)"
  by (simp add: scan_enemy_def qualifies_def camera_distance_def Let_def power2_eq_square)

lemma scan_post_snoc:
  assumes "scan_post sd cam st0 xs st"
  shows "scan_post sd cam st0 (xs @ [x]) (scan_enemy sd cam st x)"
proof (cases "qualifies sd cam x \<and> camera_distance sd cam x < minDist st")
  case True
  with assms show ?thesis
    unfolding scan_post_def scan_enemy_eq by fastforce
next
  case False
  with assms show ?thesis
    unfolding scan_post_def scan_enemy_eq by fastforce
qed

lemma scan_fold_post:
  "scan_post sd cam st0 xs (foldl (scan_enemy sd cam) st0 xs)"
proof (induction xs rule: rev_induct)
  case Nil
  show ?case by (simp add: scan_post_def)
next
  case (snoc x xs)
  then show ?case by (simp add: scan_post_snoc)
qed

lemmas scan_fold = scan_fold_post [unfolded scan_post_def]

lemma scan_all_none:
  assumes "\<forall>e \<in> set prev. \<not> in_range sd cam e"
  shows "hitId (scan_all sd cam prev) = None"
proof -
  from scan_fold [of sd cam "scan_start cam" prev] assms
  have "scan_all sd cam prev = scan_start cam"
    unfolding scan_all_def in_range_def by (fastforce simp: scan_start_def)
  then show ?thesis by (simp add: scan_start_def)
qed

lemma scan_all_some:
  assumes "\<exists>e \<in> set prev. in_range sd cam e"
  shows "\<exists>e \<in> set prev. in_range sd cam e
           \<and> hitId (scan_all sd cam prev) = Some (e_id e)
           \<and> minDist (scan_all sd cam prev) = camera_distance sd cam e
           \<and> hitPoint (scan_all sd cam prev) = torso sd e
           \<and> (\<forall>e' \<in> set prev. qualifies sd cam e' \<longrightarrow>
                 camera_distance sd cam e \<le> camera_distance sd cam e')"
proof -
  from scan_fold [of sd cam "scan_start cam" prev]
  have a: "\<forall>e \<in> set prev. qualifies sd cam e \<longrightarrow>
            minDist (scan_all sd cam prev) \<le> camera_distance sd cam e"
    and b: "(scan_all sd cam prev = scan_start cam
        \<and> (\<forall>e \<in> set prev. qualifies sd cam e \<longrightarrow> 100 \<le> camera_distance sd cam e))
       \<or> (\<exists>e \<in> set prev. qualifies sd cam e \<and> camera_distance sd cam e < 100
            \<and> scan_all sd cam prev
                = \<lparr>minDist = camera_distance sd cam e, hitId = Some (e_id e),
                   hitPoint = torso sd e\<rparr>)"
    unfolding scan_all_def by (simp_all add: scan_start_def)
  from assms b obtain e where e: "e \<in> set prev" "qualifies sd cam e"
    "camera_distance sd cam e < 100"
    "scan_all sd cam prev
       = \<lparr>minDist = camera_distance sd cam e, hitId = Some (e_id e), hitPoint = torso sd e\<rparr>"
    unfolding in_range_def by fastforce
  with a show ?thesis
    unfolding in_range_def by (intro bexI [of _ e]) auto
qed

lemma apply_hit_other:
  "Some (e_id e) \<noteq> hid \<Longrightarrow> apply_hit hid mult t cam e = e"
  by (simp add: apply_hit_def)

lemma nextEnemies_length:
  "length (nextEnemies sd cam mult t prev) = length prev"
  by (simp add: nextEnemies_def)

lemma nextEnemies_nth:
  "k < length prev \<Longrightarrow>
   nextEnemies sd cam mult t prev ! k
     = apply_hit (hitId (scan_all sd cam prev)) mult t cam (prev ! k)"
  by (simp add: nextEnemies_def)

lemma nextEnemies_miss:
  assumes "\<forall>e \<in> set prev. \<not> in_range sd cam e"
  shows "nextEnemies sd cam mult t prev = prev"
  using scan_all_none [OF assms]
  by (simp add: nextEnemies_def apply_hit_def map_idI)

lemma hp_apply_hit:
  "hp (apply_hit (Some (e_id e)) mult t cam e) = max 0 (hp e - 35 * mult)"
  by (simp add: apply_hit_def Let_def max_def)

text \<open>
  Claim C2, amended. The ray is that of the camera's last rendered pose, and the
  camera distance is measured from the camera's current position. For actors with
  distinct ids, a shot keeps the list's length and order. When no actor is in range
  (qualifying, at a camera distance below 100) the list is unchanged. Otherwise exactly one position \<open>k\<close> changes: the actor there is in
  range, no qualifying actor is nearer to the camera, its hp becomes
  \<open>max 0 (hp - 35 * multiplier)\<close> (with the death fields set when that is 0), and
  every other actor is the same record as before.
\<close>

theorem hitscan_single_target:
  assumes "distinct (map e_id prev)"
  shows "length (nextEnemies sd cam mult t prev) = length prev
    \<and> ((\<forall>e \<in> set prev. \<not> in_range sd cam e) \<longrightarrow> nextEnemies sd cam mult t prev = prev)
    \<and> ((\<exists>e \<in> set prev. in_range sd cam e) \<longrightarrow>
         (\<exists>k < length prev.
             in_range sd cam (prev ! k)
             \<and> (\<forall>e \<in> set prev. qualifies sd cam e \<longrightarrow>
                   camera_distance sd cam (prev ! k) \<le> camera_distance sd cam e)
             \<and> hp (nextEnemies sd cam mult t prev ! k) = max 0 (hp (prev ! k) - 35 * mult)
             \<and> nextEnemies sd cam mult t prev ! k
                 = (if hp (prev ! k) - 35 * mult \<le> 0
                    then (prev ! k)\<lparr>hp := 0, isDead := True, deadTime := Some t,
                                    velocity := Some (launch_velocity cam)\<rparr>
                    else (prev ! k)\<lparr>hp := hp (prev ! k) - 35 * mult\<rparr>)
             \<and> (\<forall>j < length prev. j \<noteq> k \<longrightarrow> nextEnemies sd cam mult t prev ! j = prev ! j)))"
proof (intro conjI impI)
  show "length (nextEnemies sd cam mult t prev) = length prev"
    by (rule nextEnemies_length)
next
  assume "\<forall>e \<in> set prev. \<not> in_range sd cam e"
  then show "nextEnemies sd cam mult t prev = prev"
    by (rule nextEnemies_miss)
next
  assume "\<exists>e \<in> set prev. in_range sd cam e"
  from scan_all_some [OF this] obtain e where e: "e \<in> set prev" "in_range sd cam e"
    "hitId (scan_all sd cam prev) = Some (e_id e)"
    "\<forall>e' \<in> set prev. qualifies sd cam e' \<longrightarrow>
        camera_distance sd cam e \<le> camera_distance sd cam e'"
    by blast
  from e(1) obtain k where k: "k < length prev" "prev ! k = e"
    by (auto simp: in_set_conv_nth)
  have others: "nextEnemies sd cam mult t prev ! j = prev ! j"
    if "j < length prev" "j \<noteq> k" for j
  proof -
    from assms that k(1) have "e_id (prev ! j) \<noteq> e_id (prev ! k)"
      using nth_eq_iff_index_eq [of "map e_id prev" j k] by simp
    with that(1) k(2) e(3) show ?thesis
      by (simp add: nextEnemies_nth apply_hit_other)
  qed
  have hit: "nextEnemies sd cam mult t prev ! k = apply_hit (Some (e_id e)) mult t cam e"
    using k e(3) by (simp add: nextEnemies_nth)
  show "\<exists>k < length prev.
             in_range sd cam (prev ! k)
             \<and> (\<forall>e \<in> set prev. qualifies sd cam e \<longrightarrow>
                   camera_distance sd cam (prev ! k) \<le> camera_distance sd cam e)
             \<and> hp (nextEnemies sd cam mult t prev ! k) = max 0 (hp (prev ! k) - 35 * mult)
             \<and> nextEnemies sd cam mult t prev ! k
                 = (if hp (prev ! k) - 35 * mult \<le> 0
                    then (prev ! k)\<lparr>hp := 0, isDead := True, deadTime := Some t,
                                    velocity := Some (launch_velocity cam)\<rparr>
                    else (prev ! k)\<lparr>hp := hp (prev ! k) - 35 * mult\<rparr>)
             \<and> (\<forall>j < length prev. j \<noteq> k \<longrightarrow> nextEnemies sd cam mult t prev ! j = prev ! j)"
  proof (intro exI [of _ k] conjI allI impI)
    show "k < length prev" by (rule k(1))
    show "in_range sd cam (prev ! k)" using k(2) e(2) by simp
    show "\<forall>e \<in> set prev. qualifies sd cam e \<longrightarrow>
            camera_distance sd cam (prev ! k) \<le> camera_distance sd cam e"
      using k(2) e(4) by simp
    show "hp (nextEnemies sd cam mult t prev ! k) = max 0 (hp (prev ! k) - 35 * mult)"
      using hit k(2) by (simp add: hp_apply_hit)
    show "nextEnemies sd cam mult t prev ! k
                 = (if hp (prev ! k) - 35 * mult \<le> 0
                    then (prev ! k)\<lparr>hp := 0, isDead := True, deadTime := Some t,
                                    velocity := Some (launch_velocity cam)\<rparr>
                    else (prev ! k)\<lparr>hp := hp (prev ! k) - 35 * mult\<rparr>)"
      using hit k(2) by (simp add: apply_hit_def Let_def)
    show "nextEnemies sd cam mult t prev ! j = prev ! j" if "j < length prev" "j \<noteq> k" for j
      using that by (rule others)
  qed
qed

lemma smoothNoise_origin: "smoothNoise 0 0 0 = 0"
  by (simp add: smoothNoise_def noise_def Math_floor_def js_rem_def Let_def)

lemma getTerrainHeight_origin: "getTerrainHeight 0 0 0 = 0"
  by (simp add: getTerrainHeight_def getRoadInfluence_def smoothNoise_origin Let_def)

lemma torso_origin:
  "vx (e_position e) = 0 \<Longrightarrow> vz (e_position e) = 0 \<Longrightarrow>
   torso 0 e = \<lparr>vx = 0, vy = 0.9 * cfg_scale (ENEMY_CONFIG (e_type e)), vz = 0\<rparr>"
  by (simp add: torso_def getTerrainHeight_origin Let_def)

lemma distanceTo_vertical:
  "distanceTo \<lparr>vx = a, vy = h, vz = c\<rparr> \<lparr>vx = a, vy = yy, vz = c\<rparr> = \<bar>h - yy\<bar>"
  by (simp add: distanceTo_def distanceToSquared_def v_dot_def v_sub_def)

lemma ray_down_distance:
  "yy \<le> h \<Longrightarrow>
   distanceSqToPoint (setFromCamera (cam_above h)) \<lparr>vx = 0, vy = yy, vz = 0\<rparr> = 0"
  by (simp add: distanceSqToPoint_def setFromCamera_def cam_above_def ray_at_def
      distanceToSquared_def v_dot_def v_sub_def v_add_def multiplyScalar_def Let_def)

lemma cam_above_position: "cam_position (cam_above h) = \<lparr>vx = 0, vy = h, vz = 0\<rparr>"
  by (simp add: cam_above_def)

lemma ray_level_distance:
  "distanceSqToPoint (setFromCamera cam_level) \<lparr>vx = 0, vy = yy, vz = 0\<rparr> = (1.7 - yy)\<^sup>2"
  by (simp add: distanceSqToPoint_def setFromCamera_def cam_level_def ray_at_def
      distanceToSquared_def v_dot_def v_sub_def v_add_def multiplyScalar_def Let_def
      power2_eq_square)

lemma cam_level_position: "cam_position cam_level = \<lparr>vx = 0, vy = 1.7, vz = 0\<rparr>"
  by (simp add: cam_level_def)

lemma launch_level: "launch_velocity cam_level = \<lparr>vx = 8, vy = 4, vz = 0\<rparr>"
  by (simp add: launch_velocity_def setFromCamera_def cam_level_def normalize_def
      v_length_def v_dot_def multiplyScalar_def v_add_def Let_def)

lemma aim_on_target:
  assumes "p \<noteq> c"
  shows "distanceSqToPoint \<lparr>origin = c, direction = normalize (v_sub p c)\<rparr> p = 0"
proof -
  let ?d = "v_sub p c"
  let ?S = "v_dot ?d ?d"
  let ?L = "v_length ?d"
  have S0: "0 \<le> ?S" by (simp add: v_dot_def)
  have "?S \<noteq> 0"
  proof
    assume "?S = 0"
    then have "vx p - vx c = 0 \<and> vy p - vy c = 0 \<and> vz p - vz c = 0"
      by (simp add: v_dot_def v_sub_def sum_squares_eq_zero_iff add_nonneg_eq_0_iff)
    then have "p = c" by simp
    with assms show False by simp
  qed
  with S0 have Lpos: "0 < ?L" by (simp add: v_length_def)
  have LL: "?L * ?L = ?S" using S0 by (simp add: v_length_def)
  have n: "normalize ?d = multiplyScalar ?d (1 / ?L)"
    using Lpos by (simp add: normalize_def Let_def)
  have dot: "v_dot ?d (normalize ?d) = ?L"
  proof -
    have "v_dot ?d (normalize ?d) = ?S / ?L"
      unfolding n by (simp add: v_dot_def multiplyScalar_def add_divide_distrib)
    also have "\<dots> = ?L" using Lpos LL by (simp add: field_simps)
    finally show ?thesis .
  qed
  have rescale: "multiplyScalar (normalize ?d) ?L = ?d"
    unfolding n using Lpos by (simp add: multiplyScalar_def)
  have hit: "ray_at \<lparr>origin = c, direction = normalize ?d\<rparr> ?L = p"
    by (simp add: ray_at_def rescale) (simp add: v_add_def v_sub_def)
  from Lpos dot hit show ?thesis
    by (simp add: distanceSqToPoint_def Let_def distanceToSquared_def v_dot_def v_sub_def)
qed

lemma far_torso:
  "torso 0 w_far_knight = \<lparr>vx = 120, vy = getTerrainHeight 120 0 0 + 0.9, vz = 0\<rparr>"
  by (simp add: torso_def w_far_knight_def Let_def)

lemma aimed_ray_distance:
  "distanceSqToPoint (setFromCamera cam_aimed) (torso 0 w_far_knight) = 0"
proof -
  have "torso 0 w_far_knight \<noteq> \<lparr>vx = 0, vy = 1.7, vz = 0\<rparr>"
    by (simp add: far_torso)
  from aim_on_target [OF this] show ?thesis
    by (simp add: setFromCamera_def cam_aimed_def)
qed

lemma aimed_camera_distance:
  "100 \<le> distanceTo (cam_position cam_aimed) (torso 0 w_far_knight)"
proof -
  let ?h = "1.7 - (getTerrainHeight 120 0 0 + 0.9)"
  have "distanceTo (cam_position cam_aimed) (torso 0 w_far_knight)
      = sqrt (120 * 120 + ?h * ?h)"
    by (simp add: distanceTo_def distanceToSquared_def v_dot_def v_sub_def cam_aimed_def
        far_torso)
  moreover have "sqrt (100 * 100) \<le> sqrt (120 * 120 + ?h * ?h)"
    by (rule real_sqrt_le_mono) (simp add: add_increasing2)
  ultimately show ?thesis by simp
qed

lemmas shot_eval =
  scan_all_def scan_start_def scan_enemy_def nextEnemies_def apply_hit_def torso_origin
  ray_down_distance distanceTo_vertical cam_above_position Let_def
  w_knight_def w_heavy_def w_villager_def

text \<open>
  Claim C2 as stated fails in two ways. A live knight 120 units from the camera, with
  the ray through its torso point, qualifies, yet the shot leaves it, and every actor,
  as it was: the scan starts at a camera distance of 100. And when a second actor
  carries the id of the actor hit, both lose hp by the one shot.
\<close>

theorem hitscan_out_of_range_counterexample:
  "\<not> isDead w_far_knight
   \<and> distanceSqToPoint (setFromCamera cam_aimed) (torso 0 w_far_knight)
       < (2 * cfg_scale (ENEMY_CONFIG (e_type w_far_knight)))\<^sup>2
   \<and> 100 \<le> distanceTo (cam_position cam_aimed) (torso 0 w_far_knight)
   \<and> nextEnemies 0 cam_aimed 1 0 [w_far_knight] = [w_far_knight]
   \<and> e_id w_twin = e_id w_knight
   \<and> nextEnemies 0 cam_level 1 0 [w_knight, w_twin] = [w_knight\<lparr>hp := 65\<rparr>, w_twin\<lparr>hp := 265\<rparr>]"
proof -
  have a: "\<not> isDead w_far_knight" by (simp add: w_far_knight_def)
  have b: "distanceSqToPoint (setFromCamera cam_aimed) (torso 0 w_far_knight)
       < (2 * cfg_scale (ENEMY_CONFIG (e_type w_far_knight)))\<^sup>2"
    unfolding aimed_ray_distance by (simp add: w_far_knight_def)
  note c = aimed_camera_distance
  from c have "scan_all 0 cam_aimed [w_far_knight] = scan_start cam_aimed"
    by (simp add: scan_all_def scan_enemy_def scan_start_def Let_def)
  then have d: "nextEnemies 0 cam_aimed 1 0 [w_far_knight] = [w_far_knight]"
    by (simp add: nextEnemies_def apply_hit_def scan_start_def)
  have e: "e_id w_twin = e_id w_knight" by (simp add: w_twin_def w_knight_def)
  have "hitId (scan_all 0 cam_level [w_knight, w_twin]) = Some ''0.42''"
    by (simp add: scan_all_def scan_start_def scan_enemy_def torso_origin ray_level_distance
        distanceTo_vertical cam_level_position Let_def w_knight_def w_heavy_def w_twin_def
        power2_eq_square)
  then have f: "nextEnemies 0 cam_level 1 0 [w_knight, w_twin]
      = [w_knight\<lparr>hp := 65\<rparr>, w_twin\<lparr>hp := 265\<rparr>]"
    by (simp add: nextEnemies_def apply_hit_def Let_def)
      (simp add: w_knight_def w_heavy_def w_twin_def)
  from a b c d e f show ?thesis by blast
qed

theorem hitscan_single_target_witness:
  "distinct (map e_id [w_knight, w_heavy, w_villager])
   \<and> in_range 0 cam_level w_heavy
   \<and> camera_distance 0 cam_level w_heavy < camera_distance 0 cam_level w_knight
   \<and> nextEnemies 0 cam_level 1 0 [w_knight, w_heavy, w_villager]
       = [w_knight, w_heavy\<lparr>hp := 265\<rparr>, w_villager]"
  using hitscan_single_target [of "[w_knight, w_heavy, w_villager]" 0 cam_level 1 0]
  by (simp add: scan_all_def scan_start_def scan_enemy_def nextEnemies_def apply_hit_def
      torso_origin ray_level_distance distanceTo_vertical cam_level_position Let_def
      w_knight_def w_heavy_def w_villager_def in_range_def qualifies_def camera_distance_def
      power2_eq_square)

section \<open>Ammunition and the invariants of the controller\<close>

lemma hp_ok_apply_hit:
  "0 \<le> mult \<Longrightarrow> hp_ok e \<Longrightarrow> hp_ok (apply_hit hid mult t cam e)"
  by (auto simp: hp_ok_def apply_hit_def Let_def)

lemma ai_enemy_dead: "isDead e \<Longrightarrow> ai_enemy sd campos delta obstacles e = (e, 0)"
  by (simp add: ai_enemy_def)

lemma ai_enemy_keeps:
  "hp (fst (ai_enemy sd campos delta obstacles e)) = hp e
   \<and> maxHp (fst (ai_enemy sd campos delta obstacles e)) = maxHp e
   \<and> isDead (fst (ai_enemy sd campos delta obstacles e)) = isDead e
   \<and> e_id (fst (ai_enemy sd campos delta obstacles e)) = e_id e
   \<and> e_type (fst (ai_enemy sd campos delta obstacles e)) = e_type e"
  by (simp add: ai_enemy_def Let_def)

lemma hp_ok_ai: "hp_ok e \<Longrightarrow> hp_ok (fst (ai_enemy sd campos delta obstacles e))"
  by (simp add: hp_ok_def ai_enemy_keeps)

lemma hp_ok_spawned: "hp_ok (spawned sd inp)"
  by (simp add: hp_ok_def spawned_def spawn_type_def Let_def)

lemma sim_inv_initial: "sim_inv initial"
  by (simp add: sim_inv_def initial_def fresh_game_def MAX_AMMO_def)

lemma award_fields:
  "ammo (award r g) = ammo g \<and> damageMultiplier (award r g) = damageMultiplier g
   \<and> health (award r g) = health g \<and> isPlaying (award r g) = isPlaying g"
  by (simp add: award_def split: option.splits)

lemma take_damage_fields:
  "ammo (take_damage d g) = ammo g \<and> damageMultiplier (take_damage d g) = damageMultiplier g
   \<and> score (take_damage d g) = score g \<and> gold (take_damage d g) = gold g"
  by (simp add: take_damage_def Let_def)

lemma sim_inv_reload: "sim_inv s \<Longrightarrow> sim_inv (reload seen s)"
  by (simp add: sim_inv_def reload_def MAX_AMMO_def)

lemma sim_inv_shop: "sim_inv s \<Longrightarrow> sim_inv (handleShopAction m s)"
  by (simp add: sim_inv_def handleShopAction_def Let_def MAX_AMMO_def)

lemma sim_inv_shooting:
  assumes "sim_inv s"
  shows "sim_inv (shooting inp s)"
proof (cases "f_mouseDown inp \<and> f_time inp - lastShot s > FIRE_RATE")
  case False
  then have "shooting inp s = s" by (auto simp: shooting_def)
  with assms show ?thesis by simp
next
  case fire: True
  show ?thesis
  proof (cases "ammo (gameState s) > 0")
    case True
    from assms have "0 \<le> damageMultiplier (gameState s)"
      by (simp add: sim_inv_def)
    with assms fire True show ?thesis
      by (simp add: shooting_def sim_inv_def Let_def award_fields nextEnemies_def
          hp_ok_apply_hit)
  next
    case False
    with assms have "ammo (gameState s) = 0" by (simp add: sim_inv_def)
    with fire assms show ?thesis
      using sim_inv_reload [of "s\<lparr>cues := cues s @ [CueEmpty]\<rparr>" "gameState s"]
      by (simp add: shooting_def sim_inv_def Let_def)
  qed
qed

lemma sim_inv_spawning: "sim_inv s \<Longrightarrow> sim_inv (spawning inp s)"
  by (simp add: sim_inv_def spawning_def hp_ok_spawned)

lemma sim_inv_enemy_logic: "sim_inv s \<Longrightarrow> sim_inv (enemy_logic inp s)"
  by (auto simp: sim_inv_def enemy_logic_def Let_def take_damage_fields ai_next_def hp_ok_ai)

lemma sim_inv_frame: "sim_inv s \<Longrightarrow> sim_inv (frame inp s)"
  by (simp add: frame_def sim_inv_enemy_logic sim_inv_spawning sim_inv_shooting)

lemma sim_inv_startGame: "sim_inv (startGame sd s)"
  by (simp add: sim_inv_def startGame_def fresh_game_def MAX_AMMO_def)

lemma sim_inv_step: "sim_inv s \<Longrightarrow> sim_inv (step s ev)"
  by (cases ev) (simp_all add: sim_inv_frame sim_inv_reload sim_inv_shop sim_inv_startGame)

lemma sim_inv_foldl: "sim_inv s \<Longrightarrow> sim_inv (foldl step s evs)"
  by (induction evs arbitrary: s) (simp_all add: sim_inv_step)

lemma sim_inv_run: "sim_inv (run evs)"
  unfolding run_def by (rule sim_inv_foldl [OF sim_inv_initial])

lemma shooting_empty:
  assumes "f_mouseDown inp" "f_time inp - lastShot s > FIRE_RATE" "ammo (gameState s) = 0"
  shows "shooting inp s
       = s\<lparr>gameState := (gameState s)\<lparr>ammo := MAX_AMMO\<rparr>,
            cues := cues s @ [CueEmpty, CueReload]\<rparr>"
  using assms by (simp add: shooting_def reload_def Let_def MAX_AMMO_def)

text \<open>
  Claim C7. After every sequence of events (frames with or without a fire attempt,
  reload keys, shop keys, game starts) the ammunition count lies in \<open>[0, MAX_AMMO]\<close>.
  A fire attempt (button down, more than \<open>FIRE_RATE\<close> since the last shot) with
  ammunition 0 changes only two things: the ammunition becomes \<open>MAX_AMMO\<close> and the cues
  emitted are the empty cue followed by the reload cue. The actor list is untouched (no
  hitscan, no damage), and neither the shot cue nor the hit cue is emitted.
\<close>

theorem ammo_bounds_empty_fire:
  "0 \<le> ammo (gameState (run evs)) \<and> ammo (gameState (run evs)) \<le> MAX_AMMO
   \<and> (f_mouseDown inp \<and> f_time inp - lastShot s > FIRE_RATE \<and> ammo (gameState s) = 0 \<longrightarrow>
        shooting inp s
          = s\<lparr>gameState := (gameState s)\<lparr>ammo := MAX_AMMO\<rparr>,
               cues := cues s @ [CueEmpty, CueReload]\<rparr>
        \<and> enemies (shooting inp s) = enemies s
        \<and> ammo (gameState (shooting inp s)) = MAX_AMMO
        \<and> CueShoot \<notin> set (drop (length (cues s)) (cues (shooting inp s)))
        \<and> CueHit \<notin> set (drop (length (cues s)) (cues (shooting inp s))))"
proof (intro conjI impI)
  from sim_inv_run [of evs]
  show "0 \<le> ammo (gameState (run evs))" "ammo (gameState (run evs)) \<le> MAX_AMMO"
    by (simp_all add: sim_inv_def)
next
  assume a: "f_mouseDown inp \<and> f_time inp - lastShot s > FIRE_RATE \<and> ammo (gameState s) = 0"
  then have eq: "shooting inp s
       = s\<lparr>gameState := (gameState s)\<lparr>ammo := MAX_AMMO\<rparr>,
            cues := cues s @ [CueEmpty, CueReload]\<rparr>"
    by (simp add: shooting_empty)
  show "shooting inp s
       = s\<lparr>gameState := (gameState s)\<lparr>ammo := MAX_AMMO\<rparr>,
            cues := cues s @ [CueEmpty, CueReload]\<rparr>"
    by (rule eq)
  show "enemies (shooting inp s) = enemies s" by (simp add: eq)
  show "ammo (gameState (shooting inp s)) = MAX_AMMO" by (simp add: eq)
  show "CueShoot \<notin> set (drop (length (cues s)) (cues (shooting inp s)))" by (simp add: eq)
  show "CueHit \<notin> set (drop (length (cues s)) (cues (shooting inp s)))" by (simp add: eq)
qed

lemma scan_nil: "hitId (scan_all sd cam []) = None"
  by (simp add: scan_all_def scan_start_def)

theorem ammo_bounds_empty_fire_witness:
  "ammo (gameState (run [StartGame 0, Frame w_frame_idle])) = 29
   \<and> f_mouseDown w_frame_idle \<and> f_time w_frame_idle - lastShot w_sim_empty > FIRE_RATE
   \<and> ammo (gameState w_sim_empty) = 0
   \<and> ammo (gameState (shooting w_frame_idle w_sim_empty)) = 30
   \<and> enemies (shooting w_frame_idle w_sim_empty) = [w_villager]
   \<and> cues (shooting w_frame_idle w_sim_empty) = [CueEmpty, CueReload]"
  using ammo_bounds_empty_fire [of "[StartGame 0, Frame w_frame_idle]" w_frame_idle w_sim_empty]
  by (simp add: run_def initial_def startGame_def fresh_game_def frame_def shooting_def
      spawning_def enemy_logic_def w_frame_idle_def w_sim_empty_def FIRE_RATE_def
      MAX_AMMO_def ENEMY_SPAWN_RATE_def Let_def scan_nil kill_reward_def truthy_id_def
      award_def nextEnemies_def ai_next_def damageDealt_def take_damage_def)

section \<open>Actor health and death\<close>

lemma apply_hit_dead:
  assumes "0 \<le> mult" "isDead e" "hp e = 0"
  shows "isDead (apply_hit hid mult t cam e) \<and> hp (apply_hit hid mult t cam e) = 0
    \<and> e_position (apply_hit hid mult t cam e) = e_position e
    \<and> isAttacking (apply_hit hid mult t cam e) = isAttacking e"
  using assms by (simp add: apply_hit_def Let_def)

lemma apply_hit_hp_le:
  "0 \<le> mult \<Longrightarrow> 0 \<le> hp e \<Longrightarrow> hp (apply_hit hid mult t cam e) \<le> hp e"
  by (simp add: apply_hit_def Let_def)

lemma dead_pass_through:
  "filter isDead (ai_next sd campos delta t obstacles prev)
     = filter (still_listed t) (filter isDead prev)"
proof (induction prev)
  case Nil
  show ?case by (simp add: ai_next_def)
next
  case (Cons e prev)
  show ?case
  proof (cases "isDead e")
    case True
    with Cons show ?thesis by (simp add: ai_next_def ai_enemy_dead)
  next
    case False
    then have "\<not> isDead (fst (ai_enemy sd campos delta obstacles e))"
      by (simp add: ai_enemy_keeps)
    with False Cons show ?thesis by (simp add: ai_next_def)
  qed
qed

text \<open>
  Claim C3. After every sequence of events every actor has \<open>0 \<le> hp \<le> maxHp\<close> and is
  dead exactly when its hp is 0. A shot from such a state keeps the list's length; each
  actor's hp does not increase, stays at or above 0, and the actor is dead afterwards
  exactly when its hp is then 0 (so the death transition happens when, and only when, a
  shot brings the hp to 0); an actor that was dead before the shot is still dead, still
  at hp 0, and has the same position and the same attacking flag. The per-frame actor
  update changes neither hp nor the dead flag of any actor, returns a dead actor as it
  is (not moved, flags untouched), and so the dead actors after it are the dead actors
  before it, less those whose despawn time has passed.
\<close>

theorem hp_invariant_one_shot_death:
  "(\<forall>e \<in> set (enemies (run evs)). 0 \<le> hp e \<and> hp e \<le> maxHp e \<and> (isDead e \<longleftrightarrow> hp e = 0))
   \<and> length (shot_from (run evs) cam t) = length (enemies (run evs))
   \<and> (\<forall>k < length (enemies (run evs)).
         0 \<le> hp (shot_from (run evs) cam t ! k)
         \<and> hp (shot_from (run evs) cam t ! k) \<le> hp (enemies (run evs) ! k)
         \<and> (isDead (shot_from (run evs) cam t ! k) \<longleftrightarrow> hp (shot_from (run evs) cam t ! k) = 0)
         \<and> (isDead (enemies (run evs) ! k) \<longrightarrow>
               isDead (shot_from (run evs) cam t ! k)
               \<and> hp (shot_from (run evs) cam t ! k) = 0
               \<and> e_position (shot_from (run evs) cam t ! k) = e_position (enemies (run evs) ! k)
               \<and> isAttacking (shot_from (run evs) cam t ! k)
                   = isAttacking (enemies (run evs) ! k)))
   \<and> (\<forall>e. hp (fst (ai_enemy sd campos delta obstacles e)) = hp e
           \<and> isDead (fst (ai_enemy sd campos delta obstacles e)) = isDead e
           \<and> (isDead e \<longrightarrow> fst (ai_enemy sd campos delta obstacles e) = e))
   \<and> filter isDead (moved_from (run evs) campos delta t obstacles)
       = filter (still_listed t) (filter isDead (enemies (run evs)))"
proof -
  let ?s = "run evs"
  let ?mult = "damageMultiplier (gameState ?s)"
  let ?hid = "hitId (scan_all (seed ?s) cam (enemies ?s))"
  from sim_inv_run [of evs] have mult: "0 \<le> ?mult" and ok: "\<forall>e \<in> set (enemies ?s). hp_ok e"
    by (simp_all add: sim_inv_def)
  have nth: "shot_from ?s cam t ! k = apply_hit ?hid ?mult t cam (enemies ?s ! k)"
    if "k < length (enemies ?s)" for k
    using that by (simp add: shot_from_def nextEnemies_def)
  have one: "\<forall>e \<in> set (enemies ?s). 0 \<le> hp e \<and> hp e \<le> maxHp e \<and> (isDead e \<longleftrightarrow> hp e = 0)"
    using ok by (simp add: hp_ok_def)
  have two: "length (shot_from ?s cam t) = length (enemies ?s)"
    by (simp add: shot_from_def nextEnemies_def)
  have three: "0 \<le> hp (shot_from ?s cam t ! k)
         \<and> hp (shot_from ?s cam t ! k) \<le> hp (enemies ?s ! k)
         \<and> (isDead (shot_from ?s cam t ! k) \<longleftrightarrow> hp (shot_from ?s cam t ! k) = 0)
         \<and> (isDead (enemies ?s ! k) \<longrightarrow>
               isDead (shot_from ?s cam t ! k)
               \<and> hp (shot_from ?s cam t ! k) = 0
               \<and> e_position (shot_from ?s cam t ! k) = e_position (enemies ?s ! k)
               \<and> isAttacking (shot_from ?s cam t ! k) = isAttacking (enemies ?s ! k))"
    if k: "k < length (enemies ?s)" for k
  proof -
    from ok k have e: "hp_ok (enemies ?s ! k)" by simp
    from hp_ok_apply_hit [OF mult e, of ?hid t cam]
    have a: "0 \<le> hp (shot_from ?s cam t ! k)"
      "isDead (shot_from ?s cam t ! k) \<longleftrightarrow> hp (shot_from ?s cam t ! k) = 0"
      by (simp_all add: nth [OF k] hp_ok_def)
    from e have "0 \<le> hp (enemies ?s ! k)" by (simp add: hp_ok_def)
    from apply_hit_hp_le [OF mult this, of ?hid t cam]
    have b: "hp (shot_from ?s cam t ! k) \<le> hp (enemies ?s ! k)"
      by (simp add: nth [OF k])
    have c: "isDead (shot_from ?s cam t ! k)
               \<and> hp (shot_from ?s cam t ! k) = 0
               \<and> e_position (shot_from ?s cam t ! k) = e_position (enemies ?s ! k)
               \<and> isAttacking (shot_from ?s cam t ! k) = isAttacking (enemies ?s ! k)"
      if d: "isDead (enemies ?s ! k)"
    proof -
      from e d have "hp (enemies ?s ! k) = 0" by (simp add: hp_ok_def)
      from apply_hit_dead [OF mult d this, of ?hid t cam] show ?thesis
        by (simp add: nth [OF k])
    qed
    from a b c show ?thesis by blast
  qed
  have four: "\<forall>e. hp (fst (ai_enemy sd campos delta obstacles e)) = hp e
           \<and> isDead (fst (ai_enemy sd campos delta obstacles e)) = isDead e
           \<and> (isDead e \<longrightarrow> fst (ai_enemy sd campos delta obstacles e) = e)"
    by (simp add: ai_enemy_keeps ai_enemy_dead)
  have five: "filter isDead (moved_from ?s campos delta t obstacles)
       = filter (still_listed t) (filter isDead (enemies ?s))"
    by (simp add: moved_from_def dead_pass_through)
  from one two three four five show ?thesis by blast
qed

lemma enemies_shooting:
  "enemies (shooting inp s)
     = (if f_mouseDown inp \<and> f_time inp - lastShot s > FIRE_RATE \<and> ammo (gameState s) > 0
        then shot_from s (f_camera inp) (f_time inp) else enemies s)"
  by (simp add: shooting_def shot_from_def reload_def Let_def)

lemma enemies_enemy_logic:
  "enemies (enemy_logic inp s)
     = moved_from s (cam_position (f_camera inp)) (f_delta inp) (f_time inp) (f_obstacles inp)"
  by (simp add: enemy_logic_def moved_from_def Let_def)

lemma run_snoc: "run (evs @ [ev]) = step (run evs) ev"
  by (simp add: run_def)

lemma run_start: "run [StartGame sd]
    = \<lparr>seed = sd, gameState = fresh_game, enemies = [], lastShot = 0, lastSpawn = 0, cues = []\<rparr>"
  by (simp add: run_def initial_def startGame_def fresh_game_def)

lemma distanceTo_planar_x:
  "distanceTo \<lparr>vx = a, vy = 0, vz = 0\<rparr> \<lparr>vx = b, vy = 0, vz = 0\<rparr> = \<bar>a - b\<bar>"
  by (simp add: distanceTo_def distanceToSquared_def v_dot_def v_sub_def)

lemma shooting_idle: "\<not> f_mouseDown inp \<Longrightarrow> shooting inp s = s"
  by (simp add: shooting_def)

lemma spawn_at_origin:
  "spawned 0 w_frame_spawn = w_villager"
  by (simp add: spawned_def spawn_type_def getTerrainHeight_origin w_frame_spawn_def
      w_villager_def Let_def)

lemma villager_far:
  "ai_enemy 0 \<lparr>vx = - 30, vy = 1.7, vz = 0\<rparr> 0 [] w_villager = (w_villager, 0)"
  by (simp add: ai_enemy_def planar_def grounded_def distanceTo_planar_x
      getTerrainHeight_origin w_villager_def Let_def)

lemma still_listed_live: "\<not> isDead e \<Longrightarrow> still_listed t e"
  by (simp add: still_listed_def)

lemma w_villager_live: "\<not> isDead w_villager"
  by (simp add: w_villager_def)

lemma run_spawn:
  "run [StartGame 0, Frame w_frame_spawn]
    = \<lparr>seed = 0, gameState = fresh_game, enemies = [w_villager], lastShot = 0,
       lastSpawn = 2001, cues = []\<rparr>"
proof -
  let ?s0 = "\<lparr>seed = 0, gameState = fresh_game, enemies = [], lastShot = 0, lastSpawn = 0,
              cues = []\<rparr>"
  have a: "shooting w_frame_spawn ?s0 = ?s0"
    by (rule shooting_idle) (simp add: w_frame_spawn_def)
  have b: "spawning w_frame_spawn ?s0 = ?s0\<lparr>lastSpawn := 2001, enemies := [w_villager]\<rparr>"
    by (simp add: spawning_def spawn_at_origin ENEMY_SPAWN_RATE_def)
      (simp add: w_frame_spawn_def)
  have c: "enemy_logic w_frame_spawn (?s0\<lparr>lastSpawn := 2001, enemies := [w_villager]\<rparr>)
      = ?s0\<lparr>lastSpawn := 2001, enemies := [w_villager]\<rparr>"
    by (simp add: enemy_logic_def ai_next_def damageDealt_def take_damage_def Let_def
        w_frame_spawn_def villager_far still_listed_live w_villager_live)
  have "isPlaying (gameState (run [StartGame 0]))"
    by (simp add: run_start fresh_game_def)
  then have "run [StartGame 0, Frame w_frame_spawn] = frame w_frame_spawn (run [StartGame 0])"
    using run_snoc [of "[StartGame 0]" "Frame w_frame_spawn"] by simp
  also have "\<dots> = ?s0\<lparr>lastSpawn := 2001, enemies := [w_villager]\<rparr>"
    unfolding run_start frame_def a b c ..
  finally show ?thesis by simp
qed

lemma launch_down: "launch_velocity (cam_above h) = \<lparr>vx = 0, vy = - 4, vz = 0\<rparr>"
  by (simp add: launch_velocity_def setFromCamera_def cam_above_def normalize_def
      v_length_def v_dot_def multiplyScalar_def v_add_def Let_def)

lemma scan_villager:
  "hitId (scan_all 0 (cam_above 10) [w_villager]) = Some ''0.77''"
  by (simp add: shot_eval)

lemma shot_kills_villager:
  "nextEnemies 0 (cam_above 10) 1 2200 [w_villager] = [w_dead_villager]"
  by (simp add: nextEnemies_def scan_villager apply_hit_def launch_down Let_def
      w_dead_villager_def) (simp add: w_villager_def)

lemma w_dead_villager_dead: "isDead w_dead_villager \<and> deadTime w_dead_villager = Some 2200"
  by (simp add: w_dead_villager_def)

lemma reward_villager:
  "kill_reward 0 (cam_above 10) 1 2200 [w_villager] = Some (ENEMY_CONFIG Villager)"
  by (simp add: kill_reward_def scan_villager truthy_id_def shot_kills_villager Let_def)
    (simp add: w_villager_def w_dead_villager_def)

lemma run_kill:
  "run [StartGame 0, Frame w_frame_spawn, Frame w_frame_kill]
    = \<lparr>seed = 0, gameState = fresh_game\<lparr>score := - 100, ammo := 29\<rparr>,
       enemies = [w_dead_villager], lastShot = 2200, lastSpawn = 2001,
       cues = [CueShoot, CueHit]\<rparr>"
proof -
  let ?s1 = "\<lparr>seed = 0, gameState = fresh_game, enemies = [w_villager], lastShot = 0,
       lastSpawn = 2001, cues = []\<rparr>"
  let ?s2 = "\<lparr>seed = 0, gameState = fresh_game\<lparr>score := - 100, ammo := 29\<rparr>,
       enemies = [w_dead_villager], lastShot = 2200, lastSpawn = 2001,
       cues = [CueShoot, CueHit]\<rparr>"
  have a: "shooting w_frame_kill ?s1 = ?s2"
    by (simp add: shooting_def w_frame_kill_def FIRE_RATE_def fresh_game_def MAX_AMMO_def
        Let_def scan_villager truthy_id_def shot_kills_villager reward_villager award_def)
  have b: "spawning w_frame_kill ?s2 = ?s2"
    by (simp add: spawning_def w_frame_kill_def ENEMY_SPAWN_RATE_def)
  have c: "enemy_logic w_frame_kill ?s2 = ?s2"
    by (simp add: enemy_logic_def ai_next_def damageDealt_def take_damage_def Let_def
        ai_enemy_dead w_dead_villager_dead still_listed_def w_frame_kill_def)
  have "isPlaying (gameState (run [StartGame 0, Frame w_frame_spawn]))"
    by (simp add: run_spawn fresh_game_def)
  then have "run [StartGame 0, Frame w_frame_spawn, Frame w_frame_kill]
      = frame w_frame_kill (run [StartGame 0, Frame w_frame_spawn])"
    using run_snoc [of "[StartGame 0, Frame w_frame_spawn]" "Frame w_frame_kill"] by simp
  also have "\<dots> = ?s2"
    unfolding run_spawn frame_def a b c ..
  finally show ?thesis .
qed

theorem hp_invariant_one_shot_death_witness:
  "enemies (run [StartGame 0, Frame w_frame_spawn]) = [w_villager]
   \<and> hp w_villager = 30
   \<and> enemies (run [StartGame 0, Frame w_frame_spawn, Frame w_frame_kill]) = [w_dead_villager]
   \<and> isDead w_dead_villager \<and> hp w_dead_villager = 0
   \<and> shot_from (run [StartGame 0, Frame w_frame_spawn, Frame w_frame_kill]) (cam_above 10) 2400
       = [w_dead_villager]
   \<and> moved_from (run [StartGame 0, Frame w_frame_spawn, Frame w_frame_kill])
        \<lparr>vx = 1, vy = 0, vz = 0\<rparr> 1 2400 [] = [w_dead_villager]
   \<and> moved_from (run [StartGame 0, Frame w_frame_spawn, Frame w_frame_kill])
        \<lparr>vx = 1, vy = 0, vz = 0\<rparr> 1 5300 [] = []"
  using hp_invariant_one_shot_death [of "[StartGame 0, Frame w_frame_spawn, Frame w_frame_kill]"
      "cam_above 10" 2400 0 "\<lparr>vx = 1, vy = 0, vz = 0\<rparr>" 1 "[]"]
  by (simp add: run_spawn run_kill shot_from_def moved_from_def nextEnemies_def scan_all_def
      scan_start_def scan_enemy_def apply_hit_def ai_next_def ai_enemy_dead still_listed_def
      w_dead_villager_def w_villager_def)

section \<open>Kill rewards\<close>

lemma apply_hit_id: "e_id (apply_hit hid mult t cam e) = e_id e"
  by (simp add: apply_hit_def Let_def)

text \<open>
  Every actor's id is one of the prints drawn so far, and no update changes an id. So
  when the prints of a sequence of events are distinct and none is empty, the actors
  after it have distinct ids, none of them empty.
\<close>

lemma ids_shooting: "ids (shooting inp s) = ids s"
  by (simp add: ids_def enemies_shooting shot_from_def nextEnemies_def apply_hit_id)

lemma ids_spawning:
  "ids (spawning inp s) = ids s \<or> ids (spawning inp s) = ids s @ [f_rand_id inp]"
  by (simp add: ids_def spawning_def spawned_def Let_def)

lemma ids_moved:
  assumes "distinct (ids s)"
  shows "distinct (ids (enemy_logic inp s)) \<and> set (ids (enemy_logic inp s)) \<subseteq> set (ids s)"
proof -
  let ?g = "\<lambda>e. fst (ai_enemy (seed s) (cam_position (f_camera inp)) (f_delta inp)
                      (f_obstacles inp) e)"
  have same: "map e_id (map ?g (enemies s)) = ids s"
    by (simp add: ids_def ai_enemy_keeps)
  have en: "ids (enemy_logic inp s)
      = map e_id (filter (still_listed (f_time inp)) (map ?g (enemies s)))"
    by (simp add: ids_def enemy_logic_def ai_next_def Let_def)
  from assms same have "distinct (map e_id (map ?g (enemies s)))" by simp
  then have "distinct (map e_id (filter (still_listed (f_time inp)) (map ?g (enemies s))))"
    by (rule distinct_map_filter)
  moreover have "set (map e_id (filter (still_listed (f_time inp)) (map ?g (enemies s))))
      \<subseteq> set (map e_id (map ?g (enemies s)))"
    by auto
  ultimately show ?thesis unfolding en same by simp
qed

lemma ids_step:
  assumes "distinct (ids s)" "set (ids s) \<subseteq> T" "set (event_token ev) \<inter> T = {}"
  shows "distinct (ids (step s ev)) \<and> set (ids (step s ev)) \<subseteq> T \<union> set (event_token ev)"
proof (cases ev)
  case (Frame inp)
  show ?thesis
  proof (cases "isPlaying (gameState s)")
    case False
    with assms Frame show ?thesis by auto
  next
    case True
    let ?s2 = "spawning inp (shooting inp s)"
    from assms(3) Frame have new: "f_rand_id inp \<notin> T" by simp
    from ids_spawning [of inp "shooting inp s"]
    have "distinct (ids ?s2) \<and> set (ids ?s2) \<subseteq> T \<union> {f_rand_id inp}"
    proof
      assume "ids ?s2 = ids (shooting inp s)"
      with assms show ?thesis by (auto simp: ids_shooting)
    next
      assume "ids ?s2 = ids (shooting inp s) @ [f_rand_id inp]"
      with assms new show ?thesis by (auto simp: ids_shooting)
    qed
    with ids_moved [of ?s2 inp]
    have "distinct (ids (enemy_logic inp ?s2))"
      "set (ids (enemy_logic inp ?s2)) \<subseteq> T \<union> {f_rand_id inp}"
      by auto
    with True Frame show ?thesis by (simp add: frame_def)
  qed
next
  case (ReloadKey seen)
  with assms show ?thesis by (auto simp: ids_def reload_def)
next
  case (ShopKey m)
  with assms show ?thesis by (auto simp: ids_def handleShopAction_def Let_def)
next
  case (StartGame newSeed)
  with assms show ?thesis by (auto simp: ids_def startGame_def)
qed

lemma ids_run:
  assumes "distinct (tokens evs)"
  shows "distinct (ids (run evs)) \<and> set (ids (run evs)) \<subseteq> set (tokens evs)"
  using assms
proof (induction evs rule: rev_induct)
  case Nil
  show ?case by (simp add: run_def ids_def initial_def tokens_def)
next
  case (snoc ev evs)
  from snoc.prems have d: "distinct (tokens evs)"
    and fresh: "set (event_token ev) \<inter> set (tokens evs) = {}"
    by (auto simp: tokens_def)
  from snoc.IH [OF d] have "distinct (ids (run evs))" "set (ids (run evs)) \<subseteq> set (tokens evs)"
    by simp_all
  from ids_step [OF this fresh] show ?case
    by (simp add: run_snoc tokens_def)
qed

lemma run_ids_proper:
  assumes "distinct (tokens evs)" "[] \<notin> set (tokens evs)"
  shows "distinct (map e_id (enemies (run evs)))"
    and "\<forall>e \<in> set (enemies (run evs)). e_id e \<noteq> []"
proof -
  from ids_run [OF assms(1)]
  have d: "distinct (ids (run evs))" and sub: "set (ids (run evs)) \<subseteq> set (tokens evs)"
    by simp_all
  from d show "distinct (map e_id (enemies (run evs)))" by (simp add: ids_def)
  from sub assms(2) have "[] \<notin> set (ids (run evs))" by blast
  then show "\<forall>e \<in> set (enemies (run evs)). e_id e \<noteq> []"
    unfolding ids_def set_map by (metis imageI)
qed

lemma find_first_key:
  "k < length xs \<Longrightarrow> \<forall>j < k. f (xs ! j) \<noteq> f (xs ! k) \<Longrightarrow>
   find (\<lambda>e. Some (f e) = Some (f (xs ! k))) xs = Some (xs ! k)"
proof (induction xs arbitrary: k)
  case Nil
  then show ?case by simp
next
  case (Cons x xs)
  show ?case
  proof (cases k)
    case 0
    then show ?thesis by simp
  next
    case (Suc j)
    from Cons.prems(2) Suc have "f ((x # xs) ! 0) \<noteq> f ((x # xs) ! Suc j)" by blast
    then have ne: "f x \<noteq> f (xs ! j)" by simp
    have "\<forall>i < j. f (xs ! i) \<noteq> f (xs ! j)"
    proof (intro allI impI)
      fix i assume "i < j"
      then have "Suc i < k" using Suc by simp
      with Cons.prems(2) have "f ((x # xs) ! Suc i) \<noteq> f ((x # xs) ! k)" by blast
      then show "f (xs ! i) \<noteq> f (xs ! j)" using Suc by simp
    qed
    moreover from Cons.prems(1) Suc have "j < length xs" by simp
    ultimately have "find (\<lambda>e. Some (f e) = Some (f (xs ! j))) xs = Some (xs ! j)"
      by (rule Cons.IH [rotated])
    with ne Suc show ?thesis by simp
  qed
qed

text \<open>
  Claim C10, amended. When a shot takes a villager that had hp left to hp 0, and the
  villager's id is not the empty string and no actor before it in the list carries the
  same id, the score after the shot is the score before it minus 100, the villager's
  configured score value, and the gold is unchanged, the villager's configured gold
  being 0. Both conditions hold of every actor after a sequence of events whose prints
  are distinct and not empty (\<open>run_ids_proper\<close>).
\<close>

theorem villager_kill_penalty:
  assumes k: "k < length (enemies s)"
    and first: "\<forall>j < k. e_id (enemies s ! j) \<noteq> e_id (enemies s ! k)"
    and ty: "e_type (enemies s ! k) = Villager"
    and named: "e_id (enemies s ! k) \<noteq> []"
    and alive: "hp (enemies s ! k) > 0"
    and killed: "hp (enemies (shooting inp s) ! k) = 0"
  shows "score (gameState (shooting inp s)) = score (gameState s) - 100
       \<and> gold (gameState (shooting inp s)) = gold (gameState s)
       \<and> cfg_score (ENEMY_CONFIG Villager) = - 100
       \<and> cfg_gold (ENEMY_CONFIG Villager) = 0"
proof -
  let ?prev = "enemies s"
  let ?cam = "f_camera inp"
  let ?mult = "damageMultiplier (gameState s)"
  let ?t = "f_time inp"
  let ?ne = "nextEnemies (seed s) ?cam ?mult ?t ?prev"
  let ?hid = "hitId (scan_all (seed s) ?cam ?prev)"
  have fired: "f_mouseDown inp \<and> f_time inp - lastShot s > FIRE_RATE \<and> ammo (gameState s) > 0"
  proof (rule ccontr)
    assume "\<not> ?thesis"
    then have "enemies (shooting inp s) = enemies s"
      by (auto simp: enemies_shooting)
    with alive killed show False by simp
  qed
  then have nxt: "enemies (shooting inp s) = ?ne"
    by (simp add: enemies_shooting shot_from_def)
  have nth: "?ne ! k = apply_hit ?hid ?mult ?t ?cam (?prev ! k)"
    using k by (simp add: nextEnemies_def)
  have hid: "?hid = Some (e_id (?prev ! k))"
  proof (rule ccontr)
    assume "\<not> ?thesis"
    then have "?ne ! k = ?prev ! k"
      unfolding nth by (simp add: apply_hit_other)
    with alive killed nxt show False by simp
  qed
  have f1: "find (\<lambda>e. Some (e_id e) = ?hid) ?prev = Some (?prev ! k)"
    unfolding hid by (rule find_first_key [OF k first])
  have ids: "e_id (?ne ! j) = e_id (?prev ! j)" if "j < length ?prev" for j
    using that by (simp add: nextEnemies_def apply_hit_id)
  have k': "k < length ?ne" using k by (simp add: nextEnemies_length)
  have first': "\<forall>j < k. e_id (?ne ! j) \<noteq> e_id (?ne ! k)"
    using first k by (simp add: ids)
  from find_first_key [OF k' first']
  have f2: "find (\<lambda>e. Some (e_id e) = ?hid) ?ne = Some (?ne ! k)"
    unfolding hid using k by (simp add: ids)
  have "hp (?ne ! k) = 0" using killed nxt by simp
  with f1 f2 alive named ty hid
  have reward: "kill_reward (seed s) ?cam ?mult ?t ?prev = Some (ENEMY_CONFIG Villager)"
    by (simp add: kill_reward_def truthy_id_def Let_def)
  from fired have "gameState (shooting inp s)
      = award (kill_reward (seed s) ?cam ?mult ?t ?prev)
          ((gameState s)\<lparr>ammo := ammo (gameState s) - 1\<rparr>)"
    by (simp add: shooting_def Let_def)
  with reward show ?thesis by (simp add: award_def)
qed

lemma scan_level_villager:
  "isDead c \<Longrightarrow> hitId (scan_all 0 cam_level [c, w_villager]) = Some ''0.77''"
  by (simp add: scan_all_def scan_start_def scan_enemy_def torso_origin ray_level_distance
      distanceTo_vertical cam_level_position Let_def w_villager_def power2_eq_square)

lemma shot_level_after_corpse:
  "isDead c \<Longrightarrow>
   nextEnemies 0 cam_level 1 t [c, w_villager]
     = [apply_hit (Some ''0.77'') 1 t cam_level c,
        w_villager\<lparr>hp := 0, isDead := True, deadTime := Some t,
                   velocity := Some \<lparr>vx = 8, vy = 4, vz = 0\<rparr>\<rparr>]"
  by (simp add: nextEnemies_def scan_level_villager)
    (simp add: apply_hit_def launch_level Let_def w_villager_def)

lemma twins_shot:
  "enemies (shooting w_frame_level w_sim_twins)
     = [w_dead_villager\<lparr>deadTime := Some 4500, velocity := Some \<lparr>vx = 8, vy = 4, vz = 0\<rparr>\<rparr>,
        w_villager\<lparr>hp := 0, isDead := True, deadTime := Some 4500,
                   velocity := Some \<lparr>vx = 8, vy = 4, vz = 0\<rparr>\<rparr>]"
proof -
  have "enemies (shooting w_frame_level w_sim_twins)
      = nextEnemies 0 cam_level 1 4500 [w_dead_villager, w_villager]"
    by (simp add: enemies_shooting shot_from_def w_frame_level_def w_sim_twins_def
        fresh_game_def FIRE_RATE_def)
  also have "\<dots> = [apply_hit (Some ''0.77'') 1 4500 cam_level w_dead_villager,
        w_villager\<lparr>hp := 0, isDead := True, deadTime := Some 4500,
                   velocity := Some \<lparr>vx = 8, vy = 4, vz = 0\<rparr>\<rparr>]"
    by (rule shot_level_after_corpse) (simp add: w_dead_villager_def)
  also have "apply_hit (Some ''0.77'') 1 4500 cam_level w_dead_villager
      = w_dead_villager\<lparr>deadTime := Some 4500, velocity := Some \<lparr>vx = 8, vy = 4, vz = 0\<rparr>\<rparr>"
    by (simp add: apply_hit_def launch_level Let_def w_dead_villager_def w_villager_def)
  finally show ?thesis .
qed

lemma twins_reward:
  "kill_reward 0 cam_level 1 4500 [w_dead_villager, w_villager] = None"
proof -
  have "hitId (scan_all 0 cam_level [w_dead_villager, w_villager]) = Some ''0.77''"
    by (rule scan_level_villager) (simp add: w_dead_villager_def)
  moreover have "find (\<lambda>e. Some (e_id e) = Some ''0.77'') [w_dead_villager, w_villager]
      = Some w_dead_villager"
    by (simp add: w_dead_villager_def w_villager_def)
  moreover have "hp w_dead_villager = 0" by (simp add: w_dead_villager_def)
  ultimately show ?thesis
    by (simp add: kill_reward_def truthy_id_def Let_def split: option.splits)
qed

text \<open>
  Claim C10 as stated fails when an id is repeated: the reward looks for the first actor
  with the recorded id, and with a corpse of the same id before the villager it finds
  the corpse, whose hp was 0 already. The villager dies and the score stays as it was.
\<close>

theorem repeated_id_no_penalty_counterexample:
  "e_type (enemies w_sim_twins ! 1) = Villager
   \<and> hp (enemies w_sim_twins ! 1) = 30
   \<and> hp (enemies (shooting w_frame_level w_sim_twins) ! 1) = 0
   \<and> score (gameState w_sim_twins) = - 100
   \<and> score (gameState (shooting w_frame_level w_sim_twins)) = - 100"
proof -
  have a: "e_type (enemies w_sim_twins ! 1) = Villager" "hp (enemies w_sim_twins ! 1) = 30"
    "score (gameState w_sim_twins) = - 100"
    by (simp_all add: w_sim_twins_def w_villager_def fresh_game_def)
  have b: "hp (enemies (shooting w_frame_level w_sim_twins) ! 1) = 0"
    by (simp add: twins_shot)
  have "gameState (shooting w_frame_level w_sim_twins)
      = award (kill_reward 0 cam_level 1 4500 [w_dead_villager, w_villager])
          ((gameState w_sim_twins)\<lparr>ammo := ammo (gameState w_sim_twins) - 1\<rparr>)"
    by (simp add: shooting_def Let_def w_frame_level_def w_sim_twins_def fresh_game_def
        FIRE_RATE_def)
  then have c: "score (gameState (shooting w_frame_level w_sim_twins)) = - 100"
    by (simp add: twins_reward award_def w_sim_twins_def fresh_game_def)
  from a b c show ?thesis by simp
qed

lemma guarded_shot:
  "enemies (shooting w_frame_level w_sim_guarded)
     = [apply_hit (Some ''0.77'') 1 4500 cam_level w_dead_knight,
        w_villager\<lparr>hp := 0, isDead := True, deadTime := Some 4500,
                   velocity := Some \<lparr>vx = 8, vy = 4, vz = 0\<rparr>\<rparr>]"
proof -
  have "enemies (shooting w_frame_level w_sim_guarded)
      = nextEnemies 0 cam_level 1 4500 [w_dead_knight, w_villager]"
    by (simp add: enemies_shooting shot_from_def w_frame_level_def w_sim_guarded_def
        fresh_game_def FIRE_RATE_def MAX_AMMO_def)
  also have "\<dots> = [apply_hit (Some ''0.77'') 1 4500 cam_level w_dead_knight,
        w_villager\<lparr>hp := 0, isDead := True, deadTime := Some 4500,
                   velocity := Some \<lparr>vx = 8, vy = 4, vz = 0\<rparr>\<rparr>]"
    by (rule shot_level_after_corpse) (simp add: w_dead_knight_def)
  finally show ?thesis .
qed

theorem villager_kill_penalty_witness:
  "(1::nat) < length (enemies w_sim_guarded)
   \<and> e_id (enemies w_sim_guarded ! 0) \<noteq> e_id (enemies w_sim_guarded ! 1)
   \<and> e_type (enemies w_sim_guarded ! 1) = Villager
   \<and> hp (enemies w_sim_guarded ! 1) = 30
   \<and> hp (enemies (shooting w_frame_level w_sim_guarded) ! 1) = 0
   \<and> score (gameState w_sim_guarded) = 0
   \<and> score (gameState (shooting w_frame_level w_sim_guarded)) = - 100
   \<and> gold (gameState (shooting w_frame_level w_sim_guarded)) = 0"
proof -
  have a: "(1::nat) < length (enemies w_sim_guarded)"
    "e_id (enemies w_sim_guarded ! 0) \<noteq> e_id (enemies w_sim_guarded ! 1)"
    "e_type (enemies w_sim_guarded ! 1) = Villager"
    "e_id (enemies w_sim_guarded ! 1) \<noteq> []"
    "hp (enemies w_sim_guarded ! 1) = 30"
    "score (gameState w_sim_guarded) = 0" "gold (gameState w_sim_guarded) = 0"
    by (simp_all add: w_sim_guarded_def w_villager_def w_dead_knight_def w_knight_def
        fresh_game_def)
  have b: "hp (enemies (shooting w_frame_level w_sim_guarded) ! 1) = 0"
    by (simp add: guarded_shot)
  have first: "\<forall>j < 1. e_id (enemies w_sim_guarded ! j) \<noteq> e_id (enemies w_sim_guarded ! 1)"
    using a(2) by simp
  from villager_kill_penalty [of 1 w_sim_guarded w_frame_level, OF a(1) first a(3) a(4) _ b]
    a(5,6,7)
  have "score (gameState (shooting w_frame_level w_sim_guarded)) = - 100"
    "gold (gameState (shooting w_frame_level w_sim_guarded)) = 0"
    by simp_all
  with a b show ?thesis by simp
qed

section \<open>Attack damage\<close>

lemma ai_enemy_attack:
  "attacks campos e \<Longrightarrow>
   ai_enemy sd campos delta obstacles e
     = (e\<lparr>isAttacking := True, e_position := grounded sd (planar (e_position e))\<rparr>, 0.2)"
  by (simp add: attacks_def ai_enemy_def Let_def)

lemma ai_enemy_no_attack:
  "\<not> attacks campos e \<Longrightarrow> snd (ai_enemy sd campos delta obstacles e) = 0"
  by (auto simp: attacks_def ai_enemy_def Let_def)

lemma damageDealt_count:
  "damageDealt sd campos delta obstacles prev
     = 0.2 * real (length (filter (attacks campos) prev))"
proof (induction prev)
  case Nil
  show ?case by (simp add: damageDealt_def)
next
  case (Cons e prev)
  then have ih: "sum_list (map (\<lambda>e. snd (ai_enemy sd campos delta obstacles e)) prev)
      = 0.2 * real (length (filter (attacks campos) prev))"
    by (simp add: damageDealt_def)
  show ?case
  proof (cases "attacks campos e")
    case True
    with ih show ?thesis
      by (simp add: damageDealt_def ai_enemy_attack algebra_simps)
  next
    case False
    with ih show ?thesis
      by (simp add: damageDealt_def ai_enemy_no_attack)
  qed
qed

lemma health_take_damage:
  "health (take_damage d g) = (if d > 0 then max 0 (health g - d) else health g)"
  by (simp add: take_damage_def Let_def)

lemma ai_enemy01_flag:
  "snd (ai_enemy01 campos delta obstacles d e) = attacks01 campos e"
  by (auto simp: ai_enemy01_def attacks01_def Let_def)

lemma ai_enemy01_attack:
  "attacks01 campos e \<Longrightarrow> ai_enemy01 campos delta obstacles d e = (e\<lparr>isAttacking := True\<rparr>, True)"
  by (auto simp: ai_enemy01_def attacks01_def Let_def)

lemma takingDamage01_iff:
  "takingDamage01 campos delta obstacles draws prev \<longleftrightarrow> (\<exists>e \<in> set prev. attacks01 campos e)"
proof -
  have "snd ` set (ai_results01 campos delta obstacles draws prev)
      = attacks01 campos ` set prev"
  proof -
    have "map snd (ai_results01 campos delta obstacles draws prev)
        = map (\<lambda>p. attacks01 campos (snd p)) (enumerate 0 prev)"
      by (simp add: ai_results01_def ai_enemy01_flag split_def)
    also have "\<dots> = map (attacks01 campos) (map snd (enumerate 0 prev))"
      by (simp only: map_map comp_def)
    also have "\<dots> = map (attacks01 campos) prev" by simp
    finally have "set (map snd (ai_results01 campos delta obstacles draws prev))
        = set (map (attacks01 campos) prev)" by simp
    then show ?thesis by simp
  qed
  then show ?thesis by (auto simp: takingDamage01_def)
qed

lemma health_handleDamage01:
  "health (handleDamage01 amount g)
     = (if health g - amount \<le> 0 then health g else health g - amount)"
  by (simp add: handleDamage01_def Let_def max_def)

lemma health_enemy_logic01:
  "health (snd (enemy_logic01 campos delta obstacles draws (prev, g)))
     = (if filter (attacks01 campos) prev = [] then health g
        else if health g \<le> 0.5 then health g
        else health g - 0.5)"
  by (auto simp: enemy_logic01_def takingDamage01_iff health_handleDamage01 filter_empty_conv)

text \<open>
  Claim C8, amended. In the final variant the damage total of a frame's actor update is
  0.2 times the number of attackers (live non-villagers nearer than 1.5 to the player):
  each attacker is marked attacking, adds 0.2 and stays in the list, and no other actor
  adds anything. With no attacker the player's health is unchanged; with \<open>k\<close> attackers it
  becomes \<open>max 0 (health - 0.2 * k)\<close>. In the earlier variant the damage does not add
  up: each attacker (a non-villager within 1.5 times its scale) is marked attacking and
  raises the one flag, and whatever the number of attackers the health goes down by 0.5
  once, or stays as it is when that would take it to 0 or below and the game ends.
\<close>

theorem attack_damage_stacks:
  "damageDealt sd campos delta obstacles prev
     = 0.2 * real (length (filter (attacks campos) prev))
   \<and> (\<forall>e \<in> set prev. attacks campos e \<longrightarrow>
         isAttacking (fst (ai_enemy sd campos delta obstacles e))
         \<and> snd (ai_enemy sd campos delta obstacles e) = 0.2
         \<and> fst (ai_enemy sd campos delta obstacles e)
             \<in> set (ai_next sd campos delta t obstacles prev))
   \<and> (\<forall>e \<in> set prev. \<not> attacks campos e \<longrightarrow> snd (ai_enemy sd campos delta obstacles e) = 0)
   \<and> health (gameState (enemy_logic inp s))
       = (if filter (attacks (cam_position (f_camera inp))) (enemies s) = []
          then health (gameState s)
          else max 0 (health (gameState s)
                 - 0.2 * real (length (filter (attacks (cam_position (f_camera inp)))
                                         (enemies s)))))
   \<and> (\<forall>e \<in> set prev. attacks01 campos e \<longrightarrow>
         ai_enemy01 campos delta obstacles d e = (e\<lparr>isAttacking := True\<rparr>, True))
   \<and> (\<forall>e \<in> set prev. \<not> attacks01 campos e \<longrightarrow>
         \<not> snd (ai_enemy01 campos delta obstacles d e))
   \<and> health (snd (enemy_logic01 campos delta obstacles draws (prev, g)))
       = (if filter (attacks01 campos) prev = [] then health g
          else if health g \<le> 0.5 then health g
          else health g - 0.5)"
proof (intro conjI ballI impI)
  show "damageDealt sd campos delta obstacles prev
     = 0.2 * real (length (filter (attacks campos) prev))"
    by (rule damageDealt_count)
next
  fix e assume e: "e \<in> set prev" "attacks campos e"
  from e(2) show "isAttacking (fst (ai_enemy sd campos delta obstacles e))"
    by (simp add: ai_enemy_attack)
  from e(2) show "snd (ai_enemy sd campos delta obstacles e) = 0.2"
    by (simp add: ai_enemy_attack)
  from e(2) have "\<not> isDead (fst (ai_enemy sd campos delta obstacles e))"
    by (simp add: ai_enemy_keeps attacks_def)
  with e(1) show "fst (ai_enemy sd campos delta obstacles e)
      \<in> set (ai_next sd campos delta t obstacles prev)"
    by (simp add: ai_next_def still_listed_def)
next
  fix e assume "e \<in> set prev" "\<not> attacks campos e"
  then show "snd (ai_enemy sd campos delta obstacles e) = 0"
    by (simp add: ai_enemy_no_attack)
next
  show "health (gameState (enemy_logic inp s))
       = (if filter (attacks (cam_position (f_camera inp))) (enemies s) = []
          then health (gameState s)
          else max 0 (health (gameState s)
                 - 0.2 * real (length (filter (attacks (cam_position (f_camera inp)))
                                         (enemies s)))))"
    by (simp add: enemy_logic_def Let_def health_take_damage damageDealt_count)
next
  fix e assume "e \<in> set prev" "attacks01 campos e"
  then show "ai_enemy01 campos delta obstacles d e = (e\<lparr>isAttacking := True\<rparr>, True)"
    by (simp add: ai_enemy01_attack)
next
  fix e assume "e \<in> set prev" "\<not> attacks01 campos e"
  then show "\<not> snd (ai_enemy01 campos delta obstacles d e)"
    by (simp add: ai_enemy01_flag)
next
  show "health (snd (enemy_logic01 campos delta obstacles draws (prev, g)))
       = (if filter (attacks01 campos) prev = [] then health g
          else if health g \<le> 0.5 then health g
          else health g - 0.5)"
    by (rule health_enemy_logic01)
qed

lemma melee_attackers:
  "filter (attacks (cam_position (f_camera w_frame_melee))) (enemies (w_sim_melee h))
     = [w_knight, w_heavy]"
  by (simp add: attacks_def w_frame_melee_def w_sim_melee_def planar_def distanceTo_planar_x
      w_knight_def w_heavy_def)

lemma melee_each:
  "attacks (cam_position (f_camera w_frame_melee)) w_knight"
  "attacks (cam_position (f_camera w_frame_melee)) w_heavy"
  by (simp_all add: attacks_def w_frame_melee_def planar_def distanceTo_planar_x
      w_knight_def w_heavy_def)

lemma melee_each01:
  "attacks01 (cam_position (f_camera w_frame_melee)) w_knight"
  "attacks01 (cam_position (f_camera w_frame_melee)) w_heavy"
  by (simp_all add: attacks01_def w_frame_melee_def planar_def distanceTo_planar_x
      w_knight_def w_heavy_def)

text \<open>
  Claim C8 as stated fails. In the earlier variant two attackers take 0.5 from a health
  of 100, not two times 0.5. In the final variant, at the floor of the health, two
  attackers take the 0.2 that is left, not two times 0.2.
\<close>

theorem attack_damage_once_counterexample:
  "attacks01 (cam_position (f_camera w_frame_melee)) w_knight
   \<and> attacks01 (cam_position (f_camera w_frame_melee)) w_heavy
   \<and> health fresh_game = 100
   \<and> health (snd (enemy_logic01 (cam_position (f_camera w_frame_melee)) 0 [] w_draws
                    ([w_knight, w_heavy], fresh_game))) = 99.5
   \<and> length (filter (attacks (cam_position (f_camera w_frame_melee)))
               (enemies (w_sim_melee 0.2))) = 2
   \<and> health (gameState (w_sim_melee 0.2)) = 0.2
   \<and> health (gameState (enemy_logic w_frame_melee (w_sim_melee 0.2))) = 0"
proof -
  have a: "health (snd (enemy_logic01 (cam_position (f_camera w_frame_melee)) 0 [] w_draws
                    ([w_knight, w_heavy], fresh_game))) = 99.5"
    by (simp add: health_enemy_logic01 melee_each01 fresh_game_def)
  have b: "length (filter (attacks (cam_position (f_camera w_frame_melee)))
               (enemies (w_sim_melee 0.2))) = 2"
    "health (gameState (w_sim_melee 0.2)) = 0.2"
    by (simp_all add: melee_attackers) (simp add: w_sim_melee_def)
  have c: "health (gameState (enemy_logic w_frame_melee (w_sim_melee 0.2))) = 0"
    by (simp add: melee_attackers enemy_logic_def Let_def health_take_damage damageDealt_count)
      (simp add: w_sim_melee_def)
  have d: "health fresh_game = 100" by (simp add: fresh_game_def)
  from melee_each01 a b c d show ?thesis by simp
qed

theorem attack_damage_stacks_witness:
  "attacks (cam_position (f_camera w_frame_melee)) w_knight
   \<and> attacks (cam_position (f_camera w_frame_melee)) w_heavy
   \<and> damageDealt 0 (cam_position (f_camera w_frame_melee)) 0 [] [w_knight, w_heavy] = 0.4
   \<and> isAttacking (fst (ai_enemy 0 (cam_position (f_camera w_frame_melee)) 0 [] w_knight))
   \<and> isAttacking (fst (ai_enemy 0 (cam_position (f_camera w_frame_melee)) 0 [] w_heavy))
   \<and> health (gameState (w_sim_melee 100)) = 100
   \<and> health (gameState (enemy_logic w_frame_melee (w_sim_melee 100))) = 99.6
   \<and> attacks01 (cam_position (f_camera w_frame_melee)) w_knight
   \<and> attacks01 (cam_position (f_camera w_frame_melee)) w_heavy
   \<and> isAttacking (fst (ai_enemy01 (cam_position (f_camera w_frame_melee)) 0 [] (1, 0) w_knight))
   \<and> isAttacking (fst (ai_enemy01 (cam_position (f_camera w_frame_melee)) 0 [] (1, 0) w_heavy))
   \<and> health (snd (enemy_logic01 (cam_position (f_camera w_frame_melee)) 0 [] w_draws
                    ([w_knight, w_heavy], fresh_game\<lparr>health := 0.3\<rparr>))) = 0.3"
proof -
  have h: "health (gameState (w_sim_melee 100)) = 100"
    "enemies (w_sim_melee 100) = [w_knight, w_heavy]"
    by (simp_all add: w_sim_melee_def)
  note inst = attack_damage_stacks [where sd = 0
      and campos = "cam_position (f_camera w_frame_melee)" and delta = 0 and obstacles = "[]"
      and prev = "[w_knight, w_heavy]" and t = 100 and inp = w_frame_melee
      and s = "w_sim_melee 100" and d = "(1, 0)" and draws = w_draws
      and g = "fresh_game\<lparr>health := 0.3\<rparr>"]
  from inst melee_each melee_each01 melee_attackers [of 100] h
  show ?thesis by simp
qed

section \<open>Reload\<close>

lemma step01_blocked:
  assumes "isReloading g" "\<forall>d \<in> set (timers g). T \<le> d" "event_time ev < T"
  shows "step01 g ev = g"
  using assms by (cases ev) (auto simp: shooting01_def onReload01_def run_timers_def)

lemma blocked_while_reloading:
  assumes "isReloading g" "\<forall>d \<in> set (timers g). T \<le> d" "\<forall>ev \<in> set evs. event_time ev < T"
  shows "foldl step01 g evs = g"
  using assms by (induction evs) (simp_all add: step01_blocked)

lemma reload_immediate:
  "ammo (gameState (reload seen s)) = (if ammo seen < MAX_AMMO then MAX_AMMO else ammo (gameState s))
   \<and> lastShot (reload seen s) = lastShot s \<and> enemies (reload seen s) = enemies s"
  by (simp add: reload_def)

lemma fire_with_ammo:
  assumes "f_mouseDown inp" "f_time inp - lastShot s > FIRE_RATE" "ammo (gameState s) > 0"
  shows "ammo (gameState (shooting inp s)) = ammo (gameState s) - 1
    \<and> lastShot (shooting inp s) = f_time inp
    \<and> CueShoot \<in> set (drop (length (cues s)) (cues (shooting inp s)))
    \<and> enemies (shooting inp s) = shot_from s (f_camera inp) (f_time inp)"
  using assms by (simp add: shooting_def Let_def award_fields shot_from_def)

text \<open>
  Claim C5, amended. In the final variant \<open>reload\<close> refills at once and blocks nothing:
  when the state its closure holds has less than \<open>MAX_AMMO\<close>, the ammunition is
  \<open>MAX_AMMO\<close> in the very state it returns, and the time of the last shot is untouched.
  So after a fire attempt at ammunition 0, or after the reload key, any fire attempt
  that is \<open>FIRE_RATE\<close> past the last shot fires (ammunition \<open>MAX_AMMO - 1\<close>, hit
  resolution run), however soon it comes. Only the earlier variant has the delay: after
  its \<open>reload\<close> at time \<open>now\<close>, every sequence of events before \<open>now + 1500\<close> leaves
  the state as it is (no shot, no refill), and the timeout at or after \<open>now + 1500\<close>
  refills the ammunition and clears the flag.
\<close>

theorem reload_is_immediate:
  "(ammo (gameState (reload seen s))
      = (if ammo seen < MAX_AMMO then MAX_AMMO else ammo (gameState s))
    \<and> lastShot (reload seen s) = lastShot s)
   \<and> (f_mouseDown inp1 \<and> f_time inp1 - lastShot s > FIRE_RATE \<and> ammo (gameState s) = 0
       \<and> f_mouseDown inp2 \<and> f_time inp2 - lastShot s > FIRE_RATE \<longrightarrow>
         ammo (gameState (shooting inp1 s)) = MAX_AMMO
         \<and> ammo (gameState (shooting inp2 (shooting inp1 s))) = MAX_AMMO - 1
         \<and> lastShot (shooting inp2 (shooting inp1 s)) = f_time inp2
         \<and> enemies (shooting inp2 (shooting inp1 s))
             = shot_from s (f_camera inp2) (f_time inp2))
   \<and> (ammo seen < MAX_AMMO \<and> f_mouseDown inp2 \<and> f_time inp2 - lastShot s > FIRE_RATE \<longrightarrow>
         ammo (gameState (shooting inp2 (reload seen s))) = MAX_AMMO - 1
         \<and> lastShot (shooting inp2 (reload seen s)) = f_time inp2)
   \<and> (\<not> isReloading g \<and> timers g = [] \<and> (\<forall>ev \<in> set evs. event_time ev < now + RELOAD_DELAY)
       \<and> now + RELOAD_DELAY \<le> t \<longrightarrow>
         foldl step01 (reload01 now g) evs = reload01 now g
         \<and> ammoRef (foldl step01 (reload01 now g) evs) = ammoRef g
         \<and> shotsFired (foldl step01 (reload01 now g) evs) = shotsFired g
         \<and> ammoRef (step01 (foldl step01 (reload01 now g) evs) (Timeout01 t)) = MAX_AMMO
         \<and> \<not> isReloading (step01 (foldl step01 (reload01 now g) evs) (Timeout01 t)))"
proof (intro conjI impI)
  show "ammo (gameState (reload seen s))
      = (if ammo seen < MAX_AMMO then MAX_AMMO else ammo (gameState s))"
    "lastShot (reload seen s) = lastShot s"
    by (simp_all add: reload_immediate)
next
  assume a: "f_mouseDown inp1 \<and> f_time inp1 - lastShot s > FIRE_RATE \<and> ammo (gameState s) = 0
       \<and> f_mouseDown inp2 \<and> f_time inp2 - lastShot s > FIRE_RATE"
  let ?s1 = "shooting inp1 s"
  from a have s1: "?s1 = s\<lparr>gameState := (gameState s)\<lparr>ammo := MAX_AMMO\<rparr>,
            cues := cues s @ [CueEmpty, CueReload]\<rparr>"
    by (simp add: shooting_empty)
  then show "ammo (gameState ?s1) = MAX_AMMO" by simp
  from s1 a have b: "f_mouseDown inp2" "f_time inp2 - lastShot ?s1 > FIRE_RATE"
    "ammo (gameState ?s1) > 0"
    by (simp_all add: MAX_AMMO_def)
  from fire_with_ammo [OF b] s1
  show "ammo (gameState (shooting inp2 ?s1)) = MAX_AMMO - 1"
    "lastShot (shooting inp2 ?s1) = f_time inp2"
    "enemies (shooting inp2 ?s1) = shot_from s (f_camera inp2) (f_time inp2)"
    by (simp_all add: shot_from_def)
next
  assume a: "ammo seen < MAX_AMMO \<and> f_mouseDown inp2 \<and> f_time inp2 - lastShot s > FIRE_RATE"
  then have b: "f_mouseDown inp2" "f_time inp2 - lastShot (reload seen s) > FIRE_RATE"
    "ammo (gameState (reload seen s)) > 0"
    by (simp_all add: reload_def MAX_AMMO_def)
  from fire_with_ammo [OF b] a
  show "ammo (gameState (shooting inp2 (reload seen s))) = MAX_AMMO - 1"
    "lastShot (shooting inp2 (reload seen s)) = f_time inp2"
    by (simp_all add: reload_def)
next
  assume a: "\<not> isReloading g \<and> timers g = []
       \<and> (\<forall>ev \<in> set evs. event_time ev < now + RELOAD_DELAY) \<and> now + RELOAD_DELAY \<le> t"
  let ?g1 = "reload01 now g"
  from a have "isReloading ?g1" "\<forall>d \<in> set (timers ?g1). now + RELOAD_DELAY \<le> d"
    by (simp_all add: reload01_def)
  from blocked_while_reloading [OF this] a
  have eq: "foldl step01 ?g1 evs = ?g1" by simp
  show "foldl step01 ?g1 evs = ?g1" by (rule eq)
  show "ammoRef (foldl step01 ?g1 evs) = ammoRef g"
    "shotsFired (foldl step01 ?g1 evs) = shotsFired g"
    unfolding eq by (simp_all add: reload01_def)
  from a show "ammoRef (step01 (foldl step01 ?g1 evs) (Timeout01 t)) = MAX_AMMO"
    "\<not> isReloading (step01 (foldl step01 ?g1 evs) (Timeout01 t))"
    unfolding eq by (simp_all add: reload01_def run_timers_def refill01_def)
qed

lemma empty_then_fire:
  "shooting w_frame_idle w_sim_empty
     = w_sim_empty\<lparr>gameState := fresh_game, cues := [CueEmpty, CueReload]\<rparr>"
  by (simp add: shooting_def reload_def w_frame_idle_def w_sim_empty_def FIRE_RATE_def
      MAX_AMMO_def fresh_game_def Let_def)

lemma shot_kills_villager_at:
  "nextEnemies 0 (cam_above 10) 1 t [w_villager]
     = [w_villager\<lparr>hp := 0, isDead := True, deadTime := Some t,
                   velocity := Some \<lparr>vx = 0, vy = - 4, vz = 0\<rparr>\<rparr>]"
  by (simp add: nextEnemies_def scan_villager apply_hit_def launch_down Let_def)
    (simp add: w_villager_def)

text \<open>
  Claim C5 as stated fails on the final variant: a fire attempt at ammunition 0 leaves
  the ammunition at \<open>MAX_AMMO\<close> in the same frame, and a fire attempt 16 ms later fires
  and kills.
\<close>

theorem reload_no_delay_counterexample:
  "ammo (gameState w_sim_empty) = 0
   \<and> ammo (gameState (shooting w_frame_idle w_sim_empty)) = MAX_AMMO
   \<and> f_time w_frame_next - f_time w_frame_idle = 16
   \<and> ammo (gameState (shooting w_frame_next (shooting w_frame_idle w_sim_empty))) = MAX_AMMO - 1
   \<and> enemies (shooting w_frame_next (shooting w_frame_idle w_sim_empty))
       = [w_villager\<lparr>hp := 0, isDead := True, deadTime := Some 166,
                     velocity := Some \<lparr>vx = 0, vy = - 4, vz = 0\<rparr>\<rparr>]"
proof -
  have a: "ammo (gameState w_sim_empty) = 0" "f_time w_frame_next - f_time w_frame_idle = 16"
    by (simp_all add: w_sim_empty_def w_frame_next_def w_frame_idle_def)
  have b: "ammo (gameState (shooting w_frame_idle w_sim_empty)) = MAX_AMMO"
    by (simp add: empty_then_fire fresh_game_def)
  have c: "f_mouseDown w_frame_next"
    "f_time w_frame_next - lastShot (shooting w_frame_idle w_sim_empty) > FIRE_RATE"
    "ammo (gameState (shooting w_frame_idle w_sim_empty)) > 0"
    unfolding empty_then_fire
    by (simp_all add: fresh_game_def w_frame_next_def w_sim_empty_def
        FIRE_RATE_def MAX_AMMO_def)
  have d: "shot_from (shooting w_frame_idle w_sim_empty) (f_camera w_frame_next)
      (f_time w_frame_next)
      = [w_villager\<lparr>hp := 0, isDead := True, deadTime := Some 166,
                     velocity := Some \<lparr>vx = 0, vy = - 4, vz = 0\<rparr>\<rparr>]"
    unfolding empty_then_fire
    by (simp add: shot_from_def w_sim_empty_def w_frame_next_def fresh_game_def
        shot_kills_villager_at)
  from fire_with_ammo [OF c] a b d show ?thesis by simp
qed

theorem reload_is_immediate_witness:
  "ammo (gameState w_sim_empty) < MAX_AMMO
   \<and> f_mouseDown w_frame_idle \<and> f_time w_frame_idle - lastShot w_sim_empty > FIRE_RATE
   \<and> ammo (gameState w_sim_empty) = 0
   \<and> f_mouseDown w_frame_next \<and> f_time w_frame_next - lastShot w_sim_empty > FIRE_RATE
   \<and> ammo (gameState (reload (gameState w_sim_empty) w_sim_empty)) = 30
   \<and> ammo (gameState (shooting w_frame_next (shooting w_frame_idle w_sim_empty))) = 29
   \<and> ammo (gameState (shooting w_frame_next (reload (gameState w_sim_empty) w_sim_empty))) = 29
   \<and> \<not> isReloading w_gun_empty \<and> timers w_gun_empty = []
   \<and> event_time (Frame01 True 300) < 150 + RELOAD_DELAY
   \<and> event_time (KeyR01 400) < 150 + RELOAD_DELAY
   \<and> 150 + RELOAD_DELAY \<le> (1650::real)
   \<and> shotsFired (foldl step01 (reload01 150 w_gun_empty) [Frame01 True 300, KeyR01 400]) = 30
   \<and> ammoRef (foldl step01 (reload01 150 w_gun_empty) [Frame01 True 300, KeyR01 400]) = 0
   \<and> ammoRef (step01 (foldl step01 (reload01 150 w_gun_empty) [Frame01 True 300, KeyR01 400])
        (Timeout01 1650)) = 30"
proof -
  have a: "ammo (gameState w_sim_empty) < MAX_AMMO"
    "f_mouseDown w_frame_idle" "f_time w_frame_idle - lastShot w_sim_empty > FIRE_RATE"
    "ammo (gameState w_sim_empty) = 0"
    "f_mouseDown w_frame_next" "f_time w_frame_next - lastShot w_sim_empty > FIRE_RATE"
    by (simp_all add: w_sim_empty_def w_frame_idle_def w_frame_next_def MAX_AMMO_def
        FIRE_RATE_def)
  have b: "\<not> isReloading w_gun_empty" "timers w_gun_empty = []"
    "event_time (Frame01 True 300) < 150 + RELOAD_DELAY"
    "event_time (KeyR01 400) < 150 + RELOAD_DELAY"
    "150 + RELOAD_DELAY \<le> (1650::real)"
    "ammoRef w_gun_empty = 0" "shotsFired w_gun_empty = 30"
    by (simp_all add: w_gun_empty_def RELOAD_DELAY_def)
  note inst = reload_is_immediate [of "gameState w_sim_empty" w_sim_empty w_frame_idle
      w_frame_next w_gun_empty "[Frame01 True 300, KeyR01 400]" 150 1650]
  from inst a have c: "ammo (gameState (reload (gameState w_sim_empty) w_sim_empty)) = 30"
    "ammo (gameState (shooting w_frame_next (shooting w_frame_idle w_sim_empty))) = 29"
    "ammo (gameState (shooting w_frame_next (reload (gameState w_sim_empty) w_sim_empty))) = 29"
    by (simp_all add: MAX_AMMO_def)
  from b have "\<not> isReloading w_gun_empty \<and> timers w_gun_empty = []
       \<and> (\<forall>ev \<in> set [Frame01 True 300, KeyR01 400]. event_time ev < 150 + RELOAD_DELAY)
       \<and> 150 + RELOAD_DELAY \<le> (1650::real)"
    by simp
  with inst b(6,7) have d:
    "shotsFired (foldl step01 (reload01 150 w_gun_empty) [Frame01 True 300, KeyR01 400]) = 30"
    "ammoRef (foldl step01 (reload01 150 w_gun_empty) [Frame01 True 300, KeyR01 400]) = 0"
    "ammoRef (step01 (foldl step01 (reload01 150 w_gun_empty) [Frame01 True 300, KeyR01 400])
        (Timeout01 1650)) = 30"
    by (simp_all add: MAX_AMMO_def reload01_def w_gun_empty_def shooting01_def onReload01_def
        run_timers_def refill01_def RELOAD_DELAY_def)
  from a b c d show ?thesis by blast
qed

section \<open>Chunk streaming: results\<close>

lemma of_char_digit: "d < 10 \<Longrightarrow> (of_char (digit_char d) :: nat) = 48 + d"
  by (simp add: digit_char_def)

lemma digit_value_digit: "d < 10 \<Longrightarrow> digit_value (digit_char d) = Some d"
  by (simp add: digit_value_def of_char_digit Let_def)

lemma digit_not_colon: "d < 10 \<Longrightarrow> digit_char d \<noteq> CHR '':''"
  using of_char_digit [of d] by (auto simp del: of_char_digit)

lemma digit_not_sign: "d < 10 \<Longrightarrow> digit_char d \<noteq> CHR ''-'' \<and> digit_char d \<noteq> CHR ''+''"
  using of_char_digit [of d] by auto

lemma digit_not_x: "d < 10 \<Longrightarrow> digit_char d \<noteq> CHR ''x'' \<and> digit_char d \<noteq> CHR ''X''"
  using of_char_digit [of d] by auto

lemma digit_not_white: "d < 10 \<Longrightarrow> \<not> is_white (digit_char d)"
  by (simp add: is_white_def of_char_digit)

lemma show_nat_dec: "\<forall>c \<in> set (show_nat n). is_dec c"
proof (induction n rule: show_nat.induct)
  case (1 n)
  show ?case
  proof (cases "n < 10")
    case True
    then have "is_dec (digit_char n)"
      unfolding is_dec_def by (intro exI [of _ n]) simp
    with True show ?thesis by (subst show_nat.simps) simp
  next
    case False
    with 1 have "\<forall>c \<in> set (show_nat (n div 10)). is_dec c" by simp
    moreover have "is_dec (digit_char (n mod 10))"
      unfolding is_dec_def by (rule exI [of _ "n mod 10"]) simp
    ultimately show ?thesis using False by (subst show_nat.simps) auto
  qed
qed

lemma show_nat_nonempty: "show_nat n \<noteq> []"
  by (subst show_nat.simps) simp

lemma show_nat_value: "digits_value 10 (show_nat n) = n"
proof (induction n rule: show_nat.induct)
  case (1 n)
  show ?case
  proof (cases "n < 10")
    case True
    then show ?thesis
      by (subst show_nat.simps) (simp add: digits_value_def digit_value_digit)
  next
    case False
    with 1 have "digits_value 10 (show_nat (n div 10)) = n div 10" by simp
    with False show ?thesis
      by (subst show_nat.simps) (simp add: digits_value_def digit_value_digit)
  qed
qed

lemma is_dec_facts:
  assumes "is_dec c"
  shows "is_digit_of 10 c" "c \<noteq> CHR '':''" "c \<noteq> CHR ''-''" "c \<noteq> CHR ''+''"
    "c \<noteq> CHR ''x''" "c \<noteq> CHR ''X''" "\<not> is_white c"
  using assms digit_not_colon digit_not_sign digit_not_x digit_not_white
  by (auto simp: is_dec_def is_digit_of_def digit_value_digit)

lemma parseInt_digits:
  assumes "\<forall>c \<in> set ds. is_dec c" "ds \<noteq> []"
  shows "parseInt ds = Some (int (digits_value 10 ds))"
proof -
  from assms obtain c r where ds: "ds = c # r" by (cases ds) auto
  with assms have c: "is_dec c" by simp
  have white: "dropWhile is_white ds = ds"
    using ds is_dec_facts(7) [OF c] by simp
  have nohex: "\<not> (case ds of a # b # r \<Rightarrow> a = CHR ''0'' \<and> (b = CHR ''x'' \<or> b = CHR ''X'')
                 | _ \<Rightarrow> False)"
  proof (cases r)
    case Nil
    with ds show ?thesis by simp
  next
    case (Cons b r')
    with ds assms have "is_dec b" by simp
    from is_dec_facts(5,6) [OF this] ds Cons show ?thesis by simp
  qed
  have all: "takeWhile (is_digit_of 10) ds = ds"
    using assms(1) is_dec_facts(1) by (simp add: takeWhile_eq_all_conv)
  from is_dec_facts(3,4) [OF c] ds have sign: "c \<noteq> CHR ''-''" "c \<noteq> CHR ''+''" by simp_all
  from sign ds have plain: "(case ds of [] \<Rightarrow> False | c # r \<Rightarrow> c = CHR ''-'') = False"
    "(case ds of [] \<Rightarrow> [] | c # r \<Rightarrow> if c = CHR ''-'' \<or> c = CHR ''+'' then r else ds) = ds"
    by simp_all
  show ?thesis
    by (simp add: parseInt_def Let_def white plain nohex all assms(2))
qed

lemma parseInt_show_nat: "parseInt (show_nat n) = Some (int n)"
  using parseInt_digits [OF show_nat_dec show_nat_nonempty, of n] by (simp add: show_nat_value)

lemma parseInt_negative:
  assumes "\<forall>c \<in> set ds. is_dec c" "ds \<noteq> []"
  shows "parseInt (CHR ''-'' # ds) = Some (- int (digits_value 10 ds))"
proof -
  from assms obtain c r where ds: "ds = c # r" by (cases ds) auto
  with assms have c: "is_dec c" by simp
  have nohex: "\<not> (case ds of a # b # r \<Rightarrow> a = CHR ''0'' \<and> (b = CHR ''x'' \<or> b = CHR ''X'')
                 | _ \<Rightarrow> False)"
  proof (cases r)
    case Nil
    with ds show ?thesis by simp
  next
    case (Cons b r')
    with ds assms have "is_dec b" by simp
    from is_dec_facts(5,6) [OF this] ds Cons show ?thesis by simp
  qed
  have all: "takeWhile (is_digit_of 10) ds = ds"
    using assms(1) is_dec_facts(1) by (simp add: takeWhile_eq_all_conv)
  have white: "\<not> is_white CHR ''-''" by (simp add: is_white_def)
  show ?thesis
    by (simp add: parseInt_def Let_def nohex all assms(2) white)
qed

lemma parseInt_show_int: "parseInt (show_int i) = Some i"
proof (cases "i < 0")
  case True
  from parseInt_negative [OF show_nat_dec show_nat_nonempty, of "nat (- i)"] True
  show ?thesis by (simp add: show_int_def show_nat_value)
next
  case False
  then show ?thesis by (simp add: show_int_def parseInt_show_nat)
qed

lemma show_int_no_colon: "CHR '':'' \<notin> set (show_int i)"
  using show_nat_dec is_dec_facts(2) by (auto simp: show_int_def)

lemma split_colon_nonempty: "split_colon str \<noteq> []"
  by (induction str) (auto split: list.splits)

lemma split_colon_field:
  "CHR '':'' \<notin> set a \<Longrightarrow> split_colon (a @ CHR '':'' # rest) = a # split_colon rest"
  by (induction a) (auto split: list.splits)

lemma split_colon_last:
  "CHR '':'' \<notin> set a \<Longrightarrow> split_colon a = [a]"
  by (induction a) (auto split: list.splits)

lemma owned_parts:
  assumes "owned_by xx zz obs"
  shows "part (split_colon (o_id obs)) 0 = Some (show_int xx)"
    and "part (split_colon (o_id obs)) (Suc 0) = Some (show_int zz)"
proof -
  from assms obtain rest where "o_id obs = show_int xx @ CHR '':'' # (show_int zz @ CHR '':'' # rest)"
    by (auto simp: owned_by_def chunk_key_def)
  then have "split_colon (o_id obs) = show_int xx # show_int zz # split_colon rest"
    by (simp add: split_colon_field show_int_no_colon)
  then show "part (split_colon (o_id obs)) 0 = Some (show_int xx)"
    and "part (split_colon (o_id obs)) (Suc 0) = Some (show_int zz)"
    by (simp_all add: part_def)
qed

lemma keeps_owned:
  "owned_by xx zz obs \<Longrightarrow>
   keeps cx cz obs \<longleftrightarrow> \<bar>xx - cx\<bar> \<le> RENDER_DISTANCE + 1 \<and> \<bar>zz - cz\<bar> \<le> RENDER_DISTANCE + 1"
  by (simp add: keeps_def owned_parts parseInt_part_def parseInt_show_int Let_def)

lemma id_key_owned: "owned_by xx zz obs \<Longrightarrow> id_key obs = chunk_key xx zz"
  by (simp add: id_key_def owned_parts print_part_def chunk_key_def Let_def)

lemma generateChunk01_owned:
  "obs \<in> set (generateChunk01 xx zz) \<Longrightarrow> owned_by xx zz obs"
  by (auto simp: generateChunk01_def Let_def owned_by_def house01_def tree01_def rock01_def
      ruin01_def split: if_splits)

lemma active_coords_mem:
  "c \<in> set (active_coords cx cz)
     \<longleftrightarrow> \<bar>fst c - cx\<bar> \<le> RENDER_DISTANCE \<and> \<bar>snd c - cz\<bar> \<le> RENDER_DISTANCE"
proof (cases c)
  case (Pair a b)
  have "(a, b) \<in> set (active_coords cx cz)
      \<longleftrightarrow> a \<in> {cx - RENDER_DISTANCE..cx + RENDER_DISTANCE}
          \<and> b \<in> {cz - RENDER_DISTANCE..cz + RENDER_DISTANCE}"
    by (force simp: active_coords_def)
  also have "\<dots> \<longleftrightarrow> \<bar>a - cx\<bar> \<le> RENDER_DISTANCE \<and> \<bar>b - cz\<bar> \<le> RENDER_DISTANCE"
    by auto
  finally show ?thesis using Pair by simp
qed

lemma seededRandom_nonneg: "0 \<le> seededRandom v"
  by (simp add: seededRandom_def Math_floor_def Let_def)

lemma generateChunk01_nonempty: "generateChunk01 xx zz \<noteq> []"
proof -
  have "0 \<le> getRand (chunkSeed01 xx zz) 2 * 5"
    by (simp add: getRand_def seededRandom_nonneg)
  then have "0 \<le> \<lfloor>getRand (chunkSeed01 xx zz) 2 * 5\<rfloor>"
    by (simp only: zero_le_floor)
  then have "0 < nat (\<lfloor>getRand (chunkSeed01 xx zz) 2 * 5\<rfloor> + 2)" by linarith
  then have "map (rock01 xx zz (chunkSeed01 xx zz) (of_int xx * CHUNK_SIZE) (of_int zz * CHUNK_SIZE))
      [0..<nat (\<lfloor>getRand (chunkSeed01 xx zz) 2 * 5\<rfloor> + 2)] \<noteq> []"
    by simp
  then show ?thesis by (simp add: generateChunk01_def Let_def)
qed

lemma fold01:
  "ld_activeKeys (foldl load_chunk01 st0 cs) = ld_activeKeys st0 \<union> keys_of cs
   \<and> ld_loaded01 (foldl load_chunk01 st0 cs) = ld_loaded01 st0 \<union> keys_of cs
   \<and> (\<forall>obs \<in> set (ld_newObstacles (foldl load_chunk01 st0 cs)).
         obs \<in> set (ld_newObstacles st0)
         \<or> (\<exists>c \<in> set cs. obs \<in> set (generateChunk01 (fst c) (snd c))))
   \<and> (ld_newObstacles (foldl load_chunk01 st0 cs) = []
         \<longleftrightarrow> ld_newObstacles st0 = [] \<and> keys_of cs \<subseteq> ld_loaded01 st0)"
proof (induction cs arbitrary: st0)
  case Nil
  show ?case by (simp add: keys_of_def)
next
  case (Cons c cs)
  let ?st1 = "load_chunk01 st0 c"
  have step: "ld_activeKeys ?st1 = insert (chunk_key (fst c) (snd c)) (ld_activeKeys st0)"
    "ld_loaded01 ?st1 = insert (chunk_key (fst c) (snd c)) (ld_loaded01 st0)"
    "ld_newObstacles ?st1
       = (if chunk_key (fst c) (snd c) \<in> ld_loaded01 st0 then ld_newObstacles st0
          else ld_newObstacles st0 @ generateChunk01 (fst c) (snd c))"
    by (auto simp: load_chunk01_def Let_def)
  have keys: "keys_of (c # cs) = insert (chunk_key (fst c) (snd c)) (keys_of cs)"
    by (simp add: keys_of_def)
  from Cons [of ?st1] show ?case
    unfolding foldl_Cons keys step
    using generateChunk01_nonempty [of "fst c" "snd c"]
    by (auto split: if_splits)
qed

lemma fresh_owned:
  assumes "obs \<in> set (fresh_obstacles s cx cz)"
  shows "\<exists>c \<in> set (active_coords cx cz). owned_by (fst c) (snd c) obs"
  using assms fold01 [of "\<lparr>ld_activeKeys = {}, ld_loaded01 = loadedChunks01 s,
      ld_newObstacles = []\<rparr>" "active_coords cx cz"]
  unfolding fresh_obstacles_def by (fastforce dest: generateChunk01_owned)

lemma fresh_keeps:
  assumes "obs \<in> set (fresh_obstacles s cx cz)"
  shows "keeps cx cz obs" "id_key obs \<in> active_keys cx cz"
proof -
  from fresh_owned [OF assms] obtain c where c: "c \<in> set (active_coords cx cz)"
    "owned_by (fst c) (snd c) obs" by blast
  from c(1) have "\<bar>fst c - cx\<bar> \<le> RENDER_DISTANCE + 1 \<and> \<bar>snd c - cz\<bar> \<le> RENDER_DISTANCE + 1"
    by (simp add: active_coords_mem)
  with c(2) show "keeps cx cz obs" by (simp add: keeps_owned)
  from c show "id_key obs \<in> active_keys cx cz"
    by (auto simp: id_key_owned active_keys_def keys_of_def)
qed

lemma WorldGenerator_changed:
  assumes "cx = chunk_of (vx player)" "cz = chunk_of (vz player)" "lastChunk s \<noteq> Some (cx, cz)"
  shows "WorldGenerator player s
    = (if fresh_obstacles s cx cz \<noteq> []
       then \<lparr>loadedChunks01 = id_key ` set (filter (keeps cx cz) (obstacles01 s)) \<union> active_keys cx cz,
             lastChunk = Some (cx, cz),
             obstacles01 = filter (keeps cx cz) (obstacles01 s) @ fresh_obstacles s cx cz\<rparr>
       else \<lparr>loadedChunks01 = loadedChunks01 s \<union> active_keys cx cz,
             lastChunk = Some (cx, cz), obstacles01 = obstacles01 s\<rparr>)"
  using assms fold01 [of "\<lparr>ld_activeKeys = {}, ld_loaded01 = loadedChunks01 s,
      ld_newObstacles = []\<rparr>" "active_coords cx cz"]
  by (simp add: WorldGenerator_def Let_def fresh_obstacles_def active_keys_def)

lemma fold_final:
  "ld_loaded (foldl (load_chunk sd) st0 cs) = ld_loaded st0 \<union> keys_of cs
   \<and> (\<exists>new. ld_newObs (foldl (load_chunk sd) st0 cs) = ld_newObs st0 @ new)
   \<and> (ld_hasNew (foldl (load_chunk sd) st0 cs)
         \<longleftrightarrow> ld_hasNew st0 \<or> \<not> keys_of cs \<subseteq> ld_loaded st0)
   \<and> (keys_of cs \<subseteq> ld_loaded st0 \<longrightarrow> foldl (load_chunk sd) st0 cs = st0)"
proof (induction cs arbitrary: st0)
  case Nil
  show ?case by (simp add: keys_of_def)
next
  case (Cons c cs)
  let ?st1 = "load_chunk sd st0 c"
  have step: "ld_loaded ?st1 = insert (chunk_key (fst c) (snd c)) (ld_loaded st0)"
    "ld_newObs ?st1
       = (if chunk_key (fst c) (snd c) \<in> ld_loaded st0 then ld_newObs st0
          else ld_newObs st0 @ generateChunk (fst c) (snd c) sd)"
    "ld_hasNew ?st1 = (ld_hasNew st0 \<or> chunk_key (fst c) (snd c) \<notin> ld_loaded st0)"
    "chunk_key (fst c) (snd c) \<in> ld_loaded st0 \<Longrightarrow> ?st1 = st0"
    by (auto simp: load_chunk_def Let_def)
  have keys: "keys_of (c # cs) = insert (chunk_key (fst c) (snd c)) (keys_of cs)"
    by (simp add: keys_of_def)
  from Cons [of ?st1] show ?case
    unfolding foldl_Cons keys
    by (auto simp: step split: if_splits)
qed

lemma WorldGen_grows:
  assumes playing
  shows "loadedChunks (WorldGen playing sd campos w)
      = loadedChunks w \<union> active_keys (chunk_of (vx campos)) (chunk_of (vz campos))"
    and "\<exists>new. liveObstacles (WorldGen playing sd campos w) = liveObstacles w @ new"
    and "active_keys (chunk_of (vx campos)) (chunk_of (vz campos)) \<subseteq> loadedChunks w
      \<Longrightarrow> WorldGen playing sd campos w = w"
  using assms fold_final [of sd "\<lparr>ld_loaded = loadedChunks w, ld_newObs = [], ld_hasNew = False\<rparr>"
      "active_coords (chunk_of (vx campos)) (chunk_of (vz campos))"]
  by (auto simp: WorldGen_def Let_def active_keys_def)

lemma parse_examples:
  "parseInt ''9'' = Some 9" "parseInt ''1'' = Some 1" "parseInt ''-1'' = Some (- 1)"
  by (simp_all add: parseInt_def is_white_def is_digit_of_def digit_value_def digits_value_def
      Let_def)

lemma keeps_examples:
  "\<not> keeps 0 0 w_distant" "keeps 0 0 w_near"
  "parseInt_part (part (split_colon (o_id w_distant)) 0) = Some 9"
  "parseInt_part (part (split_colon (o_id w_distant)) 1) = Some 9"
  by (simp_all add: keeps_def w_distant_def w_near_def part_def parseInt_part_def
      parse_examples RENDER_DISTANCE_def Let_def)

lemma fresh_none:
  "fresh_obstacles s cx cz = [] \<longleftrightarrow> active_keys cx cz \<subseteq> loadedChunks01 s"
  using fold01 [of "\<lparr>ld_activeKeys = {}, ld_loaded01 = loadedChunks01 s,
      ld_newObstacles = []\<rparr>" "active_coords cx cz"]
  by (simp add: fresh_obstacles_def active_keys_def)

text \<open>
  Keys determine their chunk, so an obstacle has one owner; from this the states
  reached by the earlier variant keep \<open>stream_inv\<close>: a visit that generates nothing
  finds every active key among the ids, which with the bound on the spread puts every
  obstacle within the eviction radius already.
\<close>

lemma show_int_inj:
  assumes "show_int a = show_int b"
  shows "a = b"
proof -
  have "Some a = parseInt (show_int a)" by (simp only: parseInt_show_int)
  also have "\<dots> = parseInt (show_int b)" by (simp only: assms)
  also have "\<dots> = Some b" by (simp only: parseInt_show_int)
  finally show ?thesis by simp
qed

lemma split_chunk_key: "split_colon (chunk_key xx zz) = [show_int xx, show_int zz]"
  by (simp add: chunk_key_def split_colon_field split_colon_last show_int_no_colon)

lemma chunk_key_inj:
  assumes "chunk_key xa za = chunk_key xb zb"
  shows "xa = xb \<and> za = zb"
proof -
  have "[show_int xa, show_int za] = split_colon (chunk_key xa za)"
    by (simp only: split_chunk_key)
  also have "\<dots> = split_colon (chunk_key xb zb)" by (simp only: assms)
  also have "\<dots> = [show_int xb, show_int zb]" by (simp only: split_chunk_key)
  finally have "show_int xa = show_int xb" "show_int za = show_int zb" by simp_all
  then show ?thesis by (blast dest: show_int_inj)
qed

lemma owned_unique:
  assumes "owned_by xa za obs" "owned_by xb zb obs"
  shows "xa = xb \<and> za = zb"
proof -
  from assms have "chunk_key xa za = chunk_key xb zb"
    using id_key_owned [of xa za obs] id_key_owned [of xb zb obs] by (simp only:)
  then show ?thesis by (rule chunk_key_inj)
qed

lemma active_key_mem:
  "chunk_key xx zz \<in> active_keys cx cz
     \<longleftrightarrow> \<bar>xx - cx\<bar> \<le> RENDER_DISTANCE \<and> \<bar>zz - cz\<bar> \<le> RENDER_DISTANCE"
proof
  assume "chunk_key xx zz \<in> active_keys cx cz"
  then obtain c where c: "c \<in> set (active_coords cx cz)"
    "chunk_key xx zz = chunk_key (fst c) (snd c)"
    by (auto simp: active_keys_def keys_of_def)
  from chunk_key_inj [OF c(2)] c(1) show
    "\<bar>xx - cx\<bar> \<le> RENDER_DISTANCE \<and> \<bar>zz - cz\<bar> \<le> RENDER_DISTANCE"
    by (simp add: active_coords_mem)
next
  assume "\<bar>xx - cx\<bar> \<le> RENDER_DISTANCE \<and> \<bar>zz - cz\<bar> \<le> RENDER_DISTANCE"
  then have "(xx, zz) \<in> set (active_coords cx cz)" by (simp add: active_coords_mem)
  then show "chunk_key xx zz \<in> active_keys cx cz"
    unfolding active_keys_def keys_of_def by force
qed

lemma active_coords_distinct: "distinct (active_coords cx cz)"
proof -
  have inj: "inj (\<lambda>zz. (xx, zz))" for xx :: int
    by (simp add: inj_def)
  show ?thesis
    unfolding active_coords_def
    by (rule distinct_concat) (auto simp: distinct_map inj_on_def)
qed

lemma active_keys_distinct:
  "distinct (map (\<lambda>c. chunk_key (fst c) (snd c)) (active_coords cx cz))"
proof -
  have "inj_on (\<lambda>c. chunk_key (fst c) (snd c)) (set (active_coords cx cz))"
    by (rule inj_onI) (auto dest: chunk_key_inj simp: prod_eq_iff)
  with active_coords_distinct show ?thesis by (simp add: distinct_map)
qed

lemma fold_appends:
  assumes "distinct (map (\<lambda>c. chunk_key (fst c) (snd c)) cs)"
  shows "ld_newObs (foldl (load_chunk sd) st0 cs)
     = ld_newObs st0
       @ concat (map (\<lambda>c. generateChunk (fst c) (snd c) sd)
                   (filter (\<lambda>c. chunk_key (fst c) (snd c) \<notin> ld_loaded st0) cs))"
  using assms
proof (induction cs arbitrary: st0)
  case Nil
  show ?case by simp
next
  case (Cons c cs)
  let ?st1 = "load_chunk sd st0 c"
  have step: "ld_loaded ?st1 = insert (chunk_key (fst c) (snd c)) (ld_loaded st0)"
    "ld_newObs ?st1
       = (if chunk_key (fst c) (snd c) \<in> ld_loaded st0 then ld_newObs st0
          else ld_newObs st0 @ generateChunk (fst c) (snd c) sd)"
    by (auto simp: load_chunk_def Let_def)
  from Cons.prems have d: "distinct (map (\<lambda>c. chunk_key (fst c) (snd c)) cs)"
    and notin: "chunk_key (fst c) (snd c) \<notin> (\<lambda>c. chunk_key (fst c) (snd c)) ` set cs"
    by simp_all
  have other: "chunk_key (fst e) (snd e) \<noteq> chunk_key (fst c) (snd c)" if "e \<in> set cs" for e
  proof
    assume eq: "chunk_key (fst e) (snd e) = chunk_key (fst c) (snd c)"
    have "chunk_key (fst c) (snd c) \<in> (\<lambda>c. chunk_key (fst c) (snd c)) ` set cs"
      by (rule image_eqI [where f = "\<lambda>c. chunk_key (fst c) (snd c)", OF eq [symmetric] that])
    with notin show False by (rule notE)
  qed
  have same: "filter (\<lambda>e. chunk_key (fst e) (snd e) \<notin> ld_loaded ?st1) cs
      = filter (\<lambda>e. chunk_key (fst e) (snd e) \<notin> ld_loaded st0) cs"
    by (rule filter_cong [OF refl]) (simp add: step other)
  from Cons.IH [OF d, of ?st1] show ?case
    unfolding foldl_Cons same by (simp add: step)
qed

lemma WorldGen_appends:
  "liveObstacles (WorldGen True sd campos w)
     = liveObstacles w
       @ concat (map (\<lambda>c. generateChunk (fst c) (snd c) sd)
                   (filter (\<lambda>c. chunk_key (fst c) (snd c) \<notin> loadedChunks w)
                      (active_coords (chunk_of (vx campos)) (chunk_of (vz campos)))))"
proof -
  let ?cs = "active_coords (chunk_of (vx campos)) (chunk_of (vz campos))"
  let ?init = "\<lparr>ld_loaded = loadedChunks w, ld_newObs = [], ld_hasNew = False\<rparr>"
  let ?fin = "foldl (load_chunk sd) ?init ?cs"
  have new: "ld_newObs ?fin
      = concat (map (\<lambda>c. generateChunk (fst c) (snd c) sd)
                   (filter (\<lambda>c. chunk_key (fst c) (snd c) \<notin> loadedChunks w) ?cs))"
    using fold_appends [OF active_keys_distinct, where sd = sd and ?st0.0 = ?init
        and cx1 = "chunk_of (vx campos)" and cz1 = "chunk_of (vz campos)"] by simp
  show ?thesis
  proof (cases "ld_hasNew ?fin")
    case True
    then show ?thesis by (simp add: WorldGen_def Let_def new)
  next
    case False
    with fold_final [of sd ?init ?cs] have "keys_of ?cs \<subseteq> loadedChunks w" by simp
    then have "filter (\<lambda>c. chunk_key (fst c) (snd c) \<notin> loadedChunks w) ?cs = []"
      by (auto simp: keys_of_def filter_empty_conv)
    with False show ?thesis by (simp add: WorldGen_def Let_def)
  qed
qed

lemma fold01_generated:
  "set (ld_newObstacles st0) \<subseteq> set (ld_newObstacles (foldl load_chunk01 st0 cs))
   \<and> (\<forall>c \<in> set cs. chunk_key (fst c) (snd c) \<notin> ld_loaded01 st0 \<longrightarrow>
         set (generateChunk01 (fst c) (snd c))
           \<subseteq> set (ld_newObstacles (foldl load_chunk01 st0 cs)))"
proof (induction cs arbitrary: st0)
  case Nil
  show ?case by simp
next
  case (Cons c cs)
  let ?st1 = "load_chunk01 st0 c"
  have step: "ld_loaded01 ?st1 = insert (chunk_key (fst c) (snd c)) (ld_loaded01 st0)"
    "ld_newObstacles ?st1
       = (if chunk_key (fst c) (snd c) \<in> ld_loaded01 st0 then ld_newObstacles st0
          else ld_newObstacles st0 @ generateChunk01 (fst c) (snd c))"
    by (auto simp: load_chunk01_def Let_def)
  from Cons [of ?st1]
  have ih1: "set (ld_newObstacles ?st1) \<subseteq> set (ld_newObstacles (foldl load_chunk01 ?st1 cs))"
    and ih2: "\<And>d. d \<in> set cs \<Longrightarrow> chunk_key (fst d) (snd d) \<notin> ld_loaded01 ?st1 \<Longrightarrow>
         set (generateChunk01 (fst d) (snd d))
           \<subseteq> set (ld_newObstacles (foldl load_chunk01 ?st1 cs))"
    by blast+
  have a: "set (ld_newObstacles st0) \<subseteq> set (ld_newObstacles ?st1)"
    by (auto simp: step)
  have b: "set (generateChunk01 (fst d) (snd d))
           \<subseteq> set (ld_newObstacles (foldl load_chunk01 ?st1 cs))"
    if d: "d \<in> set (c # cs)" "chunk_key (fst d) (snd d) \<notin> ld_loaded01 st0" for d
  proof (cases "chunk_key (fst d) (snd d) = chunk_key (fst c) (snd c)")
    case True
    from chunk_key_inj [OF this] have "fst d = fst c" "snd d = snd c" by simp_all
    with d(2) have "set (generateChunk01 (fst d) (snd d)) \<subseteq> set (ld_newObstacles ?st1)"
      by (auto simp: step)
    with ih1 show ?thesis by blast
  next
    case False
    with d have "d \<in> set cs" "chunk_key (fst d) (snd d) \<notin> ld_loaded01 ?st1"
      by (auto simp: step)
    then show ?thesis by (rule ih2)
  qed
  from a ih1 b show ?case by (auto simp del: set_ConsD)
qed

lemma fresh_covers:
  assumes "chunk_key xx zz \<in> active_keys cx cz" "chunk_key xx zz \<notin> loadedChunks01 s"
  shows "chunk_key xx zz \<in> id_key ` set (fresh_obstacles s cx cz)"
proof -
  from assms(1) have "(xx, zz) \<in> set (active_coords cx cz)"
    by (simp add: active_key_mem active_coords_mem)
  with assms(2) fold01_generated [of "\<lparr>ld_activeKeys = {}, ld_loaded01 = loadedChunks01 s,
      ld_newObstacles = []\<rparr>" "active_coords cx cz"]
  have sub: "set (generateChunk01 xx zz) \<subseteq> set (fresh_obstacles s cx cz)"
    unfolding fresh_obstacles_def by force
  from generateChunk01_nonempty [of xx zz] obtain obs where obs: "obs \<in> set (generateChunk01 xx zz)"
    by (cases "generateChunk01 xx zz") auto
  then have "id_key obs = chunk_key xx zz"
    by (simp add: id_key_owned generateChunk01_owned)
  with obs sub show ?thesis by force
qed

lemma spread_gives_radius:
  assumes sp: "spread_ok obs"
    and act: "active_keys cx cz \<subseteq> id_key ` set obs"
    and own: "\<forall>a \<in> set obs. \<exists>xx zz. owned_by xx zz a"
    and a: "a \<in> set obs"
  shows "keeps cx cz a"
proof -
  from own a obtain xa za where oa: "owned_by xa za a" by blast
  have corner: "\<exists>b \<in> set obs. owned_by (cx + dx) (cz + dz) b"
    if "\<bar>dx\<bar> \<le> RENDER_DISTANCE" "\<bar>dz\<bar> \<le> RENDER_DISTANCE" for dx dz
  proof -
    from that have "chunk_key (cx + dx) (cz + dz) \<in> active_keys cx cz"
      by (simp add: active_key_mem)
    with act obtain b where b: "b \<in> set obs" "id_key b = chunk_key (cx + dx) (cz + dz)"
      by force
    from own b(1) obtain xb zb where ob: "owned_by xb zb b" by blast
    from id_key_owned [OF ob] b(2) have "chunk_key xb zb = chunk_key (cx + dx) (cz + dz)"
      by simp
    from chunk_key_inj [OF this] ob b(1) show ?thesis by auto
  qed
  from corner [of 2 2] obtain b1 where b1: "b1 \<in> set obs" "owned_by (cx + 2) (cz + 2) b1"
    by (auto simp: RENDER_DISTANCE_def)
  from corner [of "- 2" "- 2"] obtain b2 where b2: "b2 \<in> set obs"
    "owned_by (cx + - 2) (cz + - 2) b2"
    by (auto simp: RENDER_DISTANCE_def)
  from sp a b1 oa have "\<bar>xa - (cx + 2)\<bar> \<le> 5 \<and> \<bar>za - (cz + 2)\<bar> \<le> 5"
    unfolding spread_ok_def by blast
  moreover from sp a b2 oa have "\<bar>xa - (cx + - 2)\<bar> \<le> 5 \<and> \<bar>za - (cz + - 2)\<bar> \<le> 5"
    unfolding spread_ok_def by blast
  ultimately have "\<bar>xa - cx\<bar> \<le> RENDER_DISTANCE + 1 \<and> \<bar>za - cz\<bar> \<le> RENDER_DISTANCE + 1"
    by (simp add: RENDER_DISTANCE_def) linarith
  with oa show ?thesis by (simp add: keeps_owned)
qed

lemma stream_inv_step:
  assumes inv: "stream_inv s"
  shows "stream_inv (WorldGenerator p s)"
proof -
  let ?cx = "chunk_of (vx p)"
  let ?cz = "chunk_of (vz p)"
  let ?O = "obstacles01 s"
  from inv have own: "\<forall>obs \<in> set ?O. \<exists>xx zz. owned_by xx zz obs"
    and loaded: "loadedChunks01 s = id_key ` set ?O"
    and spread: "spread_ok ?O"
    by (simp_all add: stream_inv_def)
  show ?thesis
  proof (cases "lastChunk s = Some (?cx, ?cz)")
    case True
    then have "WorldGenerator p s = s" by (simp add: WorldGenerator_def Let_def)
    with inv show ?thesis by simp
  next
    case changed: False
    note eq = WorldGenerator_changed [OF refl refl changed]
    show ?thesis
    proof (cases "fresh_obstacles s ?cx ?cz = []")
      case True
      then have act: "active_keys ?cx ?cz \<subseteq> loadedChunks01 s" by (simp only: fresh_none)
      then have l: "loadedChunks01 s \<union> active_keys ?cx ?cz = loadedChunks01 s" by blast
      have kept: "\<forall>a \<in> set ?O. keeps ?cx ?cz a"
        using spread_gives_radius [OF spread _ own] act loaded by simp
      have s': "WorldGenerator p s
          = \<lparr>loadedChunks01 = loadedChunks01 s, lastChunk = Some (?cx, ?cz),
             obstacles01 = ?O\<rparr>"
        unfolding eq using True l by simp
      show ?thesis
        unfolding s' stream_inv_def using own loaded spread act kept by simp
    next
      case False
      let ?F = "filter (keeps ?cx ?cz) ?O"
      let ?N = "fresh_obstacles s ?cx ?cz"
      have own': "\<forall>obs \<in> set (?F @ ?N). \<exists>xx zz. owned_by xx zz obs"
      proof
        fix obs assume "obs \<in> set (?F @ ?N)"
        then consider "obs \<in> set ?O" | "obs \<in> set ?N" by auto
        then show "\<exists>xx zz. owned_by xx zz obs"
        proof cases
          case 1
          with own show ?thesis by blast
        next
          case 2
          from fresh_owned [OF 2] show ?thesis by blast
        qed
      qed
      have sub: "id_key ` set ?N \<subseteq> active_keys ?cx ?cz"
        using fresh_keeps(2) by blast
      have cover: "active_keys ?cx ?cz \<subseteq> id_key ` set (?F @ ?N)"
      proof
        fix k assume k: "k \<in> active_keys ?cx ?cz"
        then obtain c where c: "c \<in> set (active_coords ?cx ?cz)" "k = chunk_key (fst c) (snd c)"
          by (auto simp: active_keys_def keys_of_def)
        show "k \<in> id_key ` set (?F @ ?N)"
        proof (cases "k \<in> loadedChunks01 s")
          case False
          with k c(2) fresh_covers [of "fst c" "snd c" ?cx ?cz s] show ?thesis by auto
        next
          case True
          with loaded obtain a where a: "a \<in> set ?O" "id_key a = k" by auto
          from own a(1) obtain xa za where oa: "owned_by xa za a" by blast
          from id_key_owned [OF oa] a(2) c(2) have "chunk_key xa za = chunk_key (fst c) (snd c)"
            by simp
          from chunk_key_inj [OF this] c(1)
          have "\<bar>xa - ?cx\<bar> \<le> RENDER_DISTANCE \<and> \<bar>za - ?cz\<bar> \<le> RENDER_DISTANCE"
            by (simp add: active_coords_mem)
          with oa have "keeps ?cx ?cz a" by (simp add: keeps_owned)
          with a show ?thesis by force
        qed
      qed
      have loaded': "id_key ` set ?F \<union> active_keys ?cx ?cz = id_key ` set (?F @ ?N)"
      proof
        show "id_key ` set ?F \<union> active_keys ?cx ?cz \<subseteq> id_key ` set (?F @ ?N)"
          using cover by (simp add: image_Un)
        show "id_key ` set (?F @ ?N) \<subseteq> id_key ` set ?F \<union> active_keys ?cx ?cz"
          using sub by (simp add: image_Un) blast
      qed
      have kept: "\<forall>obs \<in> set (?F @ ?N). keeps ?cx ?cz obs"
        by (simp add: ball_Un fresh_keeps(1))
      have spread': "spread_ok (?F @ ?N)"
        unfolding spread_ok_def
      proof (intro ballI allI impI)
        fix a b xa za xb zb
        assume a: "a \<in> set (?F @ ?N)" and b: "b \<in> set (?F @ ?N)"
          and o: "owned_by xa za a \<and> owned_by xb zb b"
        have near: "\<bar>xx - ?cx\<bar> \<le> 2 \<and> \<bar>zz - ?cz\<bar> \<le> 2"
          if "d \<in> set ?N" "owned_by xx zz d" for d xx zz
        proof -
          from fresh_owned [OF that(1)] obtain c where c: "c \<in> set (active_coords ?cx ?cz)"
            "owned_by (fst c) (snd c) d" by blast
          from owned_unique [OF that(2) c(2)] c(1) show ?thesis
            by (simp add: active_coords_mem RENDER_DISTANCE_def)
        qed
        have far: "\<bar>xx - ?cx\<bar> \<le> 3 \<and> \<bar>zz - ?cz\<bar> \<le> 3"
          if "d \<in> set (?F @ ?N)" "owned_by xx zz d" for d xx zz
        proof -
          from kept that(1) have "keeps ?cx ?cz d" by blast
          with keeps_owned [OF that(2), of ?cx ?cz] show ?thesis
            by (simp add: RENDER_DISTANCE_def)
        qed
        show "\<bar>xa - xb\<bar> \<le> 5 \<and> \<bar>za - zb\<bar> \<le> 5"
        proof (cases "a \<in> set ?N \<or> b \<in> set ?N")
          case True
          from o far [OF a, of xa za] far [OF b, of xb zb]
          have fa: "\<bar>xa - ?cx\<bar> \<le> 3" "\<bar>za - ?cz\<bar> \<le> 3"
            and fb: "\<bar>xb - ?cx\<bar> \<le> 3" "\<bar>zb - ?cz\<bar> \<le> 3"
            by blast+
          from True show ?thesis
          proof
            assume "a \<in> set ?N"
            from near [OF this, of xa za] o have "\<bar>xa - ?cx\<bar> \<le> 2" "\<bar>za - ?cz\<bar> \<le> 2"
              by blast+
            with fb show ?thesis by linarith
          next
            assume "b \<in> set ?N"
            from near [OF this, of xb zb] o have "\<bar>xb - ?cx\<bar> \<le> 2" "\<bar>zb - ?cz\<bar> \<le> 2"
              by blast+
            with fa show ?thesis by linarith
          qed
        next
          case False
          with a b have "a \<in> set ?O" "b \<in> set ?O" by auto
          with spread o show ?thesis unfolding spread_ok_def by blast
        qed
      qed
      have s': "WorldGenerator p s
          = \<lparr>loadedChunks01 = id_key ` set (?F @ ?N), lastChunk = Some (?cx, ?cz),
             obstacles01 = ?F @ ?N\<rparr>"
        unfolding eq using False loaded' by simp
      have sel: "obstacles01 (WorldGenerator p s) = ?F @ ?N"
        "loadedChunks01 (WorldGenerator p s) = id_key ` set (?F @ ?N)"
        "lastChunk (WorldGenerator p s) = Some (?cx, ?cz)"
        unfolding s' by simp_all
      show ?thesis
        unfolding stream_inv_def sel option.case fst_conv snd_conv
      proof (intro conjI)
        show "\<forall>obs \<in> set (?F @ ?N). \<exists>xx zz. owned_by xx zz obs" by (rule own')
        show "id_key ` set (?F @ ?N) = id_key ` set (?F @ ?N)" by (rule refl)
        show "spread_ok (?F @ ?N)" by (rule spread')
        show "active_keys ?cx ?cz \<subseteq> id_key ` set (?F @ ?N)" by (rule cover)
        show "\<forall>obs \<in> set (?F @ ?N). keeps ?cx ?cz obs" by (rule kept)
      qed
    qed
  qed
qed

lemma stream_inv_start: "stream_inv start01"
  by (simp add: stream_inv_def start01_def spread_ok_def)

lemma stream_inv_run: "stream_inv (stream01 ps)"
  unfolding stream01_def
  by (induction ps rule: rev_induct) (simp_all add: stream_inv_start stream_inv_step)

lemma lastChunk_WorldGenerator:
  "lastChunk (WorldGenerator p s) = Some (chunk_of (vx p), chunk_of (vz p))"
  by (simp add: WorldGenerator_def Let_def)

lemma stream01_snoc: "stream01 (ps @ [p]) = WorldGenerator p (stream01 ps)"
  by (simp add: stream01_def)

lemma stream01_lastChunk:
  assumes "ps \<noteq> []"
  shows "lastChunk (stream01 ps) = Some (chunk_of (vx (last ps)), chunk_of (vz (last ps)))"
  using assms
  by (cases ps rule: rev_cases) (simp_all add: stream01_snoc lastChunk_WorldGenerator)

lemma stream01_evicts:
  assumes "ps \<noteq> []"
  shows "\<forall>obs \<in> set (obstacles01 (stream01 ps)).
           keeps (chunk_of (vx (last ps))) (chunk_of (vz (last ps))) obs"
    and "\<forall>obs \<in> set (obstacles01 (stream01 ps)). \<exists>xx zz. owned_by xx zz obs"
    and "loadedChunks01 (stream01 ps)
           = id_key ` set (obstacles01 (stream01 ps))
             \<union> active_keys (chunk_of (vx (last ps))) (chunk_of (vz (last ps)))"
proof -
  note inv = stream_inv_run [of ps]
  note lc = stream01_lastChunk [OF assms]
  from inv show "\<forall>obs \<in> set (obstacles01 (stream01 ps)). \<exists>xx zz. owned_by xx zz obs"
    unfolding stream_inv_def by blast
  from inv have c: "case lastChunk (stream01 ps) of
            None \<Rightarrow> obstacles01 (stream01 ps) = []
          | Some c \<Rightarrow> active_keys (fst c) (snd c) \<subseteq> loadedChunks01 (stream01 ps)
                     \<and> (\<forall>obs \<in> set (obstacles01 (stream01 ps)). keeps (fst c) (snd c) obs)"
    unfolding stream_inv_def by blast
  from c have act: "active_keys (chunk_of (vx (last ps))) (chunk_of (vz (last ps)))
        \<subseteq> loadedChunks01 (stream01 ps)"
    and kept: "\<forall>obs \<in> set (obstacles01 (stream01 ps)).
           keeps (chunk_of (vx (last ps))) (chunk_of (vz (last ps))) obs"
    unfolding lc option.case fst_conv snd_conv by blast+
  from kept show "\<forall>obs \<in> set (obstacles01 (stream01 ps)).
           keeps (chunk_of (vx (last ps))) (chunk_of (vz (last ps))) obs" .
  from inv have "loadedChunks01 (stream01 ps) = id_key ` set (obstacles01 (stream01 ps))"
    unfolding stream_inv_def by blast
  with act show "loadedChunks01 (stream01 ps)
           = id_key ` set (obstacles01 (stream01 ps))
             \<union> active_keys (chunk_of (vx (last ps))) (chunk_of (vz (last ps)))"
    by blast
qed

text \<open>
  Claim C4, amended. The final variant never evicts: a streaming update while playing
  makes the loaded keys the old ones together with the active keys, and the obstacle
  list the old list followed by the obstacles of the active chunks whose key was not
  loaded, chunk after chunk in the order of the visit. The earlier variant
  evicts when the player has changed chunk and the visit generated at least one
  obstacle: the new list is the old obstacles whose id reads as a chunk coordinate
  within \<open>RENDER_DISTANCE + 1\<close> of the player's chunk, followed by the fresh obstacles;
  every obstacle of the new list is within that radius; and the loaded key set is
  exactly the keys read from the ids of the new list together with the active keys.
  When the visit generated nothing, which is exactly when every active key was loaded
  already, nothing is dropped; and without a chunk change nothing happens at all. For
  an obstacle owned by chunk \<open>(xx, zz)\<close>, as every generated obstacle is by its chunk,
  the coordinate read from the id is \<open>(xx, zz)\<close> and the key read is the chunk's key.
  Hence after every non-empty history of player positions from the mount state of the
  earlier variant, every obstacle of the list is owned by a chunk and lies within
  \<open>RENDER_DISTANCE + 1\<close> of the chunk of the last position, and the loaded key set is
  exactly the keys read from the ids of the list together with the active keys.
\<close>

theorem streaming_eviction:
  "(playing \<longrightarrow>
      loadedChunks (WorldGen playing sd campos w)
        = loadedChunks w \<union> active_keys (chunk_of (vx campos)) (chunk_of (vz campos))
      \<and> liveObstacles (WorldGen playing sd campos w)
          = liveObstacles w
            @ concat (map (\<lambda>c. generateChunk (fst c) (snd c) sd)
                        (filter (\<lambda>c. chunk_key (fst c) (snd c) \<notin> loadedChunks w)
                           (active_coords (chunk_of (vx campos)) (chunk_of (vz campos))))))
   \<and> (cx = chunk_of (vx player) \<and> cz = chunk_of (vz player) \<and> lastChunk s \<noteq> Some (cx, cz)
       \<and> fresh_obstacles s cx cz \<noteq> [] \<longrightarrow>
         obstacles01 (WorldGenerator player s)
           = filter (keeps cx cz) (obstacles01 s) @ fresh_obstacles s cx cz
         \<and> (\<forall>obs \<in> set (obstacles01 (WorldGenerator player s)). keeps cx cz obs)
         \<and> loadedChunks01 (WorldGenerator player s)
             = id_key ` set (obstacles01 (WorldGenerator player s)) \<union> active_keys cx cz)
   \<and> (cx = chunk_of (vx player) \<and> cz = chunk_of (vz player) \<and> lastChunk s \<noteq> Some (cx, cz)
       \<and> fresh_obstacles s cx cz = [] \<longrightarrow>
         obstacles01 (WorldGenerator player s) = obstacles01 s
         \<and> loadedChunks01 (WorldGenerator player s) = loadedChunks01 s)
   \<and> (fresh_obstacles s cx cz = [] \<longleftrightarrow> active_keys cx cz \<subseteq> loadedChunks01 s)
   \<and> (lastChunk s = Some (chunk_of (vx player), chunk_of (vz player)) \<longrightarrow>
         WorldGenerator player s = s)
   \<and> (owned_by xx zz obs \<longrightarrow>
         (keeps cx cz obs
            \<longleftrightarrow> \<bar>xx - cx\<bar> \<le> RENDER_DISTANCE + 1 \<and> \<bar>zz - cz\<bar> \<le> RENDER_DISTANCE + 1)
         \<and> id_key obs = chunk_key xx zz)
   \<and> (\<forall>new \<in> set (generateChunk01 xx zz). owned_by xx zz new)
   \<and> (ps \<noteq> [] \<longrightarrow>
         (\<forall>obs \<in> set (obstacles01 (stream01 ps)).
             keeps (chunk_of (vx (last ps))) (chunk_of (vz (last ps))) obs
             \<and> (\<exists>xx zz. owned_by xx zz obs))
         \<and> loadedChunks01 (stream01 ps)
             = id_key ` set (obstacles01 (stream01 ps))
               \<union> active_keys (chunk_of (vx (last ps))) (chunk_of (vz (last ps))))"
proof (intro conjI impI ballI)
  assume p: playing
  from WorldGen_grows(1) [OF p]
  show "loadedChunks (WorldGen playing sd campos w)
        = loadedChunks w \<union> active_keys (chunk_of (vx campos)) (chunk_of (vz campos))" .
  from p have "playing = True" by simp
  then show "liveObstacles (WorldGen playing sd campos w)
          = liveObstacles w
            @ concat (map (\<lambda>c. generateChunk (fst c) (snd c) sd)
                        (filter (\<lambda>c. chunk_key (fst c) (snd c) \<notin> loadedChunks w)
                           (active_coords (chunk_of (vx campos)) (chunk_of (vz campos)))))"
    by (simp only: WorldGen_appends)
next
  assume a: "cx = chunk_of (vx player) \<and> cz = chunk_of (vz player)
      \<and> lastChunk s \<noteq> Some (cx, cz) \<and> fresh_obstacles s cx cz \<noteq> []"
  then have h: "cx = chunk_of (vx player)" "cz = chunk_of (vz player)"
    "lastChunk s \<noteq> Some (cx, cz)" "fresh_obstacles s cx cz \<noteq> []"
    by blast+
  have eq: "WorldGenerator player s
      = \<lparr>loadedChunks01 = id_key ` set (filter (keeps cx cz) (obstacles01 s)) \<union> active_keys cx cz,
         lastChunk = Some (cx, cz),
         obstacles01 = filter (keeps cx cz) (obstacles01 s) @ fresh_obstacles s cx cz\<rparr>"
    unfolding WorldGenerator_changed [OF h(1,2,3)] using h(4) by simp
  show "obstacles01 (WorldGenerator player s)
           = filter (keeps cx cz) (obstacles01 s) @ fresh_obstacles s cx cz"
    by (simp add: eq)
  show "keeps cx cz obs" if "obs \<in> set (obstacles01 (WorldGenerator player s))" for obs
    using that fresh_keeps(1) by (auto simp: eq)
  have "id_key ` set (fresh_obstacles s cx cz) \<subseteq> active_keys cx cz"
    using fresh_keeps(2) by blast
  then show "loadedChunks01 (WorldGenerator player s)
             = id_key ` set (obstacles01 (WorldGenerator player s)) \<union> active_keys cx cz"
    by (auto simp: eq)
next
  assume a: "cx = chunk_of (vx player) \<and> cz = chunk_of (vz player)
      \<and> lastChunk s \<noteq> Some (cx, cz) \<and> fresh_obstacles s cx cz = []"
  then have h: "cx = chunk_of (vx player)" "cz = chunk_of (vz player)"
    "lastChunk s \<noteq> Some (cx, cz)" "fresh_obstacles s cx cz = []"
    by blast+
  have eq: "WorldGenerator player s
      = \<lparr>loadedChunks01 = loadedChunks01 s \<union> active_keys cx cz,
         lastChunk = Some (cx, cz), obstacles01 = obstacles01 s\<rparr>"
    unfolding WorldGenerator_changed [OF h(1,2,3)] using h(4) by simp
  show "obstacles01 (WorldGenerator player s) = obstacles01 s"
    by (simp add: eq)
  from h(4) have "active_keys cx cz \<subseteq> loadedChunks01 s" by (simp only: fresh_none)
  then show "loadedChunks01 (WorldGenerator player s) = loadedChunks01 s"
    by (auto simp: eq)
next
  show "fresh_obstacles s cx cz = [] \<longleftrightarrow> active_keys cx cz \<subseteq> loadedChunks01 s"
    by (rule fresh_none)
next
  assume "lastChunk s = Some (chunk_of (vx player), chunk_of (vz player))"
  then show "WorldGenerator player s = s"
    by (simp add: WorldGenerator_def Let_def)
next
  assume o: "owned_by xx zz obs"
  then show "keeps cx cz obs
            \<longleftrightarrow> \<bar>xx - cx\<bar> \<le> RENDER_DISTANCE + 1 \<and> \<bar>zz - cz\<bar> \<le> RENDER_DISTANCE + 1"
    by (rule keeps_owned)
  from o show "id_key obs = chunk_key xx zz" by (rule id_key_owned)
next
  fix new assume "new \<in> set (generateChunk01 xx zz)"
  then show "owned_by xx zz new" by (rule generateChunk01_owned)
next
  fix obs
  assume ne: "ps \<noteq> []" and m: "obs \<in> set (obstacles01 (stream01 ps))"
  from stream01_evicts(1) [OF ne] m
  show "keeps (chunk_of (vx (last ps))) (chunk_of (vz (last ps))) obs" by blast
  from stream01_evicts(2) [OF ne] m show "\<exists>xx zz. owned_by xx zz obs" by blast
next
  assume "ps \<noteq> []"
  then show "loadedChunks01 (stream01 ps)
             = id_key ` set (obstacles01 (stream01 ps))
               \<union> active_keys (chunk_of (vx (last ps))) (chunk_of (vz (last ps)))"
    by (rule stream01_evicts(3))
qed

lemma chunk_of_origin: "chunk_of (vx w_origin) = 0" "chunk_of (vz w_origin) = 0"
  by (simp_all add: chunk_of_def w_origin_def)

lemma first_visit_generates: "obstacles01 (stream01 [w_origin]) \<noteq> []"
proof -
  have "(0, 0) \<in> set (active_coords 0 0)"
    by (simp add: active_coords_mem RENDER_DISTANCE_def)
  then have "chunk_key 0 0 \<in> active_keys 0 0"
    unfolding active_keys_def keys_of_def by force
  then have ne: "fresh_obstacles start01 0 0 \<noteq> []"
    by (auto simp: fresh_none start01_def)
  have lc: "lastChunk start01 \<noteq> Some (0, 0)" by (simp add: start01_def)
  have "WorldGenerator w_origin start01
      = \<lparr>loadedChunks01 = id_key ` set (filter (keeps 0 0) (obstacles01 start01)) \<union> active_keys 0 0,
         lastChunk = Some (0, 0),
         obstacles01 = filter (keeps 0 0) (obstacles01 start01) @ fresh_obstacles start01 0 0\<rparr>"
    unfolding WorldGenerator_changed [OF chunk_of_origin(1) [symmetric]
        chunk_of_origin(2) [symmetric] lc]
    using ne by simp
  with ne show ?thesis by (simp add: stream01_def)
qed

text \<open>
  Claim C4 as stated fails on the final variant: with the player in chunk (0, 0), an
  obstacle whose id reads as chunk (9, 9) is still in the list after the update.
\<close>

theorem no_eviction_counterexample:
  "parseInt_part (part (split_colon (o_id w_distant)) 0) = Some 9
   \<and> parseInt_part (part (split_colon (o_id w_distant)) 1) = Some 9
   \<and> \<not> \<bar>9 - chunk_of (vx w_origin)\<bar> \<le> RENDER_DISTANCE + 1
   \<and> liveObstacles w_world = [w_distant]
   \<and> liveObstacles (WorldGen True 123 w_origin w_world) = [w_distant]"
proof -
  have "active_keys (chunk_of (vx w_origin)) (chunk_of (vz w_origin)) \<subseteq> loadedChunks w_world"
    by (auto simp: chunk_of_origin w_world_def)
  from WorldGen_grows(3) [OF _ this, of True 123]
  have "WorldGen True 123 w_origin w_world = w_world" by simp
  then have a: "liveObstacles (WorldGen True 123 w_origin w_world) = [w_distant]"
    "liveObstacles w_world = [w_distant]"
    by (simp_all add: w_world_def)
  have b: "\<not> \<bar>9 - chunk_of (vx w_origin)\<bar> \<le> RENDER_DISTANCE + 1"
    by (simp add: chunk_of_origin RENDER_DISTANCE_def)
  from a b keeps_examples(3,4) show ?thesis by blast
qed

theorem streaming_eviction_witness:
  "chunk_of (vx w_origin) = 0 \<and> chunk_of (vz w_origin) = 0
   \<and> lastChunk w_streamer \<noteq> Some (0, 0)
   \<and> fresh_obstacles w_streamer 0 0 \<noteq> []
   \<and> obstacles01 (WorldGenerator w_origin w_streamer) = [w_near] @ fresh_obstacles w_streamer 0 0
   \<and> loadedChunks01 (WorldGenerator w_origin w_streamer)
       = id_key ` set (obstacles01 (WorldGenerator w_origin w_streamer)) \<union> active_keys 0 0
   \<and> loadedChunks (WorldGen True 123 w_origin w_world) = loadedChunks w_world
   \<and> liveObstacles (WorldGen True 123 w_origin w_cleared)
       = concat (map (\<lambda>c. generateChunk (fst c) (snd c) 123) (active_coords 0 0))
   \<and> obstacles01 (stream01 [w_origin]) \<noteq> []
   \<and> loadedChunks01 (stream01 [w_origin])
       = id_key ` set (obstacles01 (stream01 [w_origin])) \<union> active_keys 0 0"
proof -
  have a: "chunk_of (vx w_origin) = 0" "chunk_of (vz w_origin) = 0"
    "lastChunk w_streamer \<noteq> Some (0, 0)"
    by (simp_all add: chunk_of_origin w_streamer_def)
  have "(0, 0) \<in> set (active_coords 0 0)"
    by (simp add: active_coords_mem RENDER_DISTANCE_def)
  then have "chunk_key 0 0 \<in> active_keys 0 0"
    unfolding active_keys_def keys_of_def by force
  then have b: "fresh_obstacles w_streamer 0 0 \<noteq> []"
    by (auto simp: fresh_none w_streamer_def)
  note inst = streaming_eviction [of True 123 w_origin w_world 0 w_origin 0 w_streamer 9 9
      w_distant "[w_origin]"]
  have c: "filter (keeps 0 0) (obstacles01 w_streamer) = [w_near]"
    by (simp add: w_streamer_def keeps_examples)
  from inst a b c
  have d: "obstacles01 (WorldGenerator w_origin w_streamer)
      = [w_near] @ fresh_obstacles w_streamer 0 0"
    "loadedChunks01 (WorldGenerator w_origin w_streamer)
       = id_key ` set (obstacles01 (WorldGenerator w_origin w_streamer)) \<union> active_keys 0 0"
    by simp_all
  from inst a have e: "loadedChunks (WorldGen True 123 w_origin w_world) = loadedChunks w_world"
    by (auto simp: w_world_def)
  note f = first_visit_generates
  from streaming_eviction [of True 123 w_origin w_cleared 0 w_origin 0 w_streamer 9 9
      w_distant "[w_origin]", THEN conjunct1]
  have h: "liveObstacles (WorldGen True 123 w_origin w_cleared)
       = concat (map (\<lambda>c. generateChunk (fst c) (snd c) 123) (active_coords 0 0))"
    by (simp add: chunk_of_origin w_cleared_def)
  from inst a
  have g: "loadedChunks01 (stream01 [w_origin])
       = id_key ` set (obstacles01 (stream01 [w_origin])) \<union> active_keys 0 0"
    by simp
  from a b d e f g h show ?thesis by blast
qed

end
